(* ===== verification/Prelude.thy ===== *)
theory Prelude
  imports "HOL-Library.Word" "HOL-Library.Sublist" "HOL-Library.AList"
begin

text \<open>
  The shared base of the development: names for Rust's machine integers and for
  \<^verbatim>\<open>Result\<close>, the \<^verbatim>\<open>?\<close> operator on it, big- and little-endian byte encodings, generic list
  facts, reachability of a step relation, and the two contracts most components meet: a
  self-delimiting framing of messages on a byte stream, and a step relation with an
  inductive invariant.
\<close>

unbundle bit_operations_syntax

subsection \<open>Machine integers and results\<close>

type_synonym u8 = "8 word"
type_synonym u16 = "16 word"
type_synonym u32 = "32 word"
type_synonym u64 = "64 word"
type_synonym u128 = "128 word"
type_synonym bytes = "u8 list"

text \<open>
  A fallible Rust function returns \<open>'e + 'a\<close>: \<open>Inl\<close> is \<^verbatim>\<open>Err\<close>, \<open>Inr\<close> is \<^verbatim>\<open>Ok\<close>.
  \<open>and_then\<close> is the early return of the \<^verbatim>\<open>?\<close> operator, \<open>map_err\<close> converts the error on
  the way out, \<open>ok_or\<close> is \<^verbatim>\<open>Option::ok_or\<close>.
\<close>

fun and_then :: "'e + 'a \<Rightarrow> ('a \<Rightarrow> 'e + 'b) \<Rightarrow> 'e + 'b" where
  "and_then (Inl e) f = Inl e"
| "and_then (Inr x) f = f x"

fun map_err :: "('e \<Rightarrow> 'f) \<Rightarrow> 'e + 'a \<Rightarrow> 'f + 'a" where
  "map_err g (Inl e) = Inl (g e)"
| "map_err g (Inr x) = Inr x"

fun ok_or :: "'e \<Rightarrow> 'a option \<Rightarrow> 'e + 'a" where
  "ok_or e None = Inl e"
| "ok_or e (Some x) = Inr x"

fun is_ok :: "'e + 'a \<Rightarrow> bool" where
  "is_ok (Inl e) = False"
| "is_ok (Inr x) = True"

named_theorems wire_simps "encoding and decoding equations of the wire formats"
named_theorems step_defs "definitions of the operations of a state machine"

lemma and_then_eq_Inr:
  "and_then r f = Inr y \<longleftrightarrow> (\<exists>x. r = Inr x \<and> f x = Inr y)"
  by (cases r) auto

lemma and_then_eq_Inl:
  "and_then r f = Inl e \<longleftrightarrow> r = Inl e \<or> (\<exists>x. r = Inr x \<and> f x = Inl e)"
  by (cases r) auto

lemma map_err_eq_Inr [simp]: "map_err g r = Inr y \<longleftrightarrow> r = Inr y"
  by (cases r) auto

lemma ok_or_eq_Inr [simp]: "ok_or e x = Inr y \<longleftrightarrow> x = Some y"
  by (cases x) auto

lemma ok_or_eq_Inl [simp]: "ok_or e x = Inl e' \<longleftrightarrow> x = None \<and> e' = e"
  by (cases x) auto

lemma is_ok_iff: "is_ok r \<longleftrightarrow> (\<exists>x. r = Inr x)"
  by (cases r) auto

lemmas result_splits = sum.splits option.splits if_splits

text \<open>
  A run of guards \<^verbatim>\<open>if c { return Err(e); }\<close>: \<open>reject c e\<close> is one guard, \<open>first_error\<close> runs them in
  order and returns the first error.
\<close>

definition reject :: "bool \<Rightarrow> 'e \<Rightarrow> 'e option" where
  "reject c e = (if c then Some e else None)"

fun first_error :: "'e option list \<Rightarrow> 'e + unit" where
  "first_error [] = Inr ()"
| "first_error (None # gs) = first_error gs"
| "first_error (Some e # gs) = Inl e"

lemma reject_simps [simp]: "reject c e = None \<longleftrightarrow> \<not> c" "reject c e = Some e' \<longleftrightarrow> c \<and> e' = e"
  by (auto simp: reject_def)

lemma first_error_Cons [simp]:
  "first_error (g # gs) = Inr u \<longleftrightarrow> g = None \<and> first_error gs = Inr u"
  by (cases g) auto

lemma first_error_append [simp]:
  "first_error (gs @ hs) = Inr u \<longleftrightarrow> first_error gs = Inr u \<and> first_error hs = Inr u"
  by (induction gs) auto

lemma first_error_map [simp]: "first_error (map f xs) = Inr u \<longleftrightarrow> (\<forall>x\<in>set xs. f x = None)"
  by (induction xs) auto

subsection \<open>Bytes of an integer\<close>

text \<open>
  \<^verbatim>\<open>to_le_bytes\<close> and \<^verbatim>\<open>from_le_bytes\<close> on the value of an unsigned integer of \<open>n\<close> bytes; the
  big-endian forms are their reversals. A cast such as \<^verbatim>\<open>len as u16\<close> before the encoding
  keeps the value modulo \<open>256 ^ n\<close>, which the encoding does by itself.
\<close>

fun to_le :: "nat \<Rightarrow> nat \<Rightarrow> bytes" where
  "to_le 0 x = []"
| "to_le (Suc n) x = word_of_nat (x mod 256) # to_le n (x div 256)"

fun of_le :: "bytes \<Rightarrow> nat" where
  "of_le [] = 0"
| "of_le (b # bs) = unat b + 256 * of_le bs"

definition to_be :: "nat \<Rightarrow> nat \<Rightarrow> bytes" where
  "to_be n x = rev (to_le n x)"

definition of_be :: "bytes \<Rightarrow> nat" where
  "of_be bs = of_le (rev bs)"

lemma unat_byte_less [simp]: "unat (b :: u8) < 256"
  using unsigned_less [where 'a = nat, of b] by simp

lemma unat_byte_of_nat [simp]: "unat (word_of_nat n :: u8) = n mod 256"
  by (simp add: unat_of_nat)

lemma unat_word_of_nat: "n < 2 ^ LENGTH('a) \<Longrightarrow> unat (word_of_nat n :: 'a::len word) = n"
  by (simp add: unsigned_of_nat take_bit_nat_eq_self)

lemma take_bit_word_small: "unat w < 2 ^ n \<Longrightarrow> take_bit n w = (w :: 'a::len word)"
  by (simp only: word_unat_eq_iff unsigned_take_bit_eq) (rule take_bit_nat_eq_self)

lemma length_to_le [simp]: "length (to_le n x) = n"
  by (induction n arbitrary: x) auto

lemma length_to_be [simp]: "length (to_be n x) = n"
  by (simp add: to_be_def)

lemma to_le_nonempty [simp]: "to_le n x = [] \<longleftrightarrow> n = 0"
  by (cases n) auto

lemma of_le_less: "of_le bs < 256 ^ length bs"
proof (induction bs)
  case (Cons b bs)
  have "unat b + 256 * of_le bs < 256 + 256 * of_le bs" by simp
  also have "\<dots> = 256 * Suc (of_le bs)" by simp
  also have "\<dots> \<le> 256 * 256 ^ length bs" using Cons.IH by (intro mult_le_mono2) simp
  finally show ?case by simp
qed simp

lemma of_be_less: "of_be bs < 256 ^ length bs"
  using of_le_less [of "rev bs"] by (simp add: of_be_def)

lemma of_le_to_le: "of_le (to_le n x) = x mod 256 ^ n"
  by (induction n arbitrary: x) (simp_all add: mod_mult2_eq)

lemma to_le_of_le: "length bs = n \<Longrightarrow> to_le n (of_le bs) = bs"
  by (induction bs arbitrary: n) auto

lemma of_be_to_be: "of_be (to_be n x) = x mod 256 ^ n"
  by (simp add: of_be_def to_be_def of_le_to_le)

lemma to_be_of_be: "length bs = n \<Longrightarrow> to_be n (of_be bs) = bs"
  by (simp add: of_be_def to_be_def to_le_of_le)

lemma of_le_to_le_id [simp]: "x < 256 ^ n \<Longrightarrow> of_le (to_le n x) = x"
  by (simp add: of_le_to_le)

lemma of_be_to_be_id [simp]: "x < 256 ^ n \<Longrightarrow> of_be (to_be n x) = x"
  by (simp add: of_be_to_be)

lemma unat_word_bound:
  "unat (w :: u16) < 65536" "unat (v :: u32) < 4294967296"
  "unat (u :: u64) < 18446744073709551616" "unat (t :: u128) < 2 ^ 128"
  using unsigned_less [where 'a = nat, of w] unsigned_less [where 'a = nat, of v]
    unsigned_less [where 'a = nat, of u] unsigned_less [where 'a = nat, of t] by simp_all

lemma word_of_le_to_le [simp]:
  "LENGTH('a::len) = 8 * n \<Longrightarrow> word_of_nat (of_le (to_le n (unat w))) = (w :: 'a word)"
  using unsigned_less [where 'a = nat, of w] by (simp add: power_mult)

lemma word_of_be_to_be [simp]:
  "LENGTH('a::len) = 8 * n \<Longrightarrow> word_of_nat (of_be (to_be n (unat w))) = (w :: 'a word)"
  using unsigned_less [where 'a = nat, of w] by (simp add: power_mult)

lemma to_le_word_of_le:
  assumes "LENGTH('a::len) = 8 * n" and "length bs = n"
  shows "to_le n (unat (word_of_nat (of_le bs) :: 'a word)) = bs"
proof -
  have "of_le bs < 2 ^ LENGTH('a)"
    using of_le_less [of bs] assms by (simp add: power_mult)
  then show ?thesis by (simp add: unat_of_nat to_le_of_le assms(2))
qed

lemma to_be_word_of_be:
  assumes "LENGTH('a::len) = 8 * n" and "length bs = n"
  shows "to_be n (unat (word_of_nat (of_be bs) :: 'a word)) = bs"
  using to_le_word_of_le [where 'a = 'a, of n "rev bs"] assms
  by (simp add: of_be_def to_be_def)

lemma to_le_2 [wire_simps]:
  "to_le 2 x = [word_of_nat (x mod 256), word_of_nat (x div 256 mod 256)]"
  by (simp add: numeral_2_eq_2)

lemma to_be_2 [wire_simps]:
  "to_be 2 x = [word_of_nat (x div 256 mod 256), word_of_nat (x mod 256)]"
  by (simp add: to_be_def to_le_2)

subsection \<open>Lists\<close>

lemma take_append_exact [simp]: "length xs = n \<Longrightarrow> take n (xs @ ys) = xs"
  by simp

lemma drop_append_exact [simp]: "length xs = n \<Longrightarrow> drop n (xs @ ys) = ys"
  by simp

lemma length_2_conv: "length xs = 2 \<longleftrightarrow> (\<exists>a b. xs = [a, b])"
  by (auto simp: numeral_2_eq_2 length_Suc_conv)

subsection \<open>Key-value tables\<close>

text \<open>
  A table keyed by distinct keys, as an association list: Rust's \<^verbatim>\<open>HashMap\<close>, or a database
  table with a primary key. The contract of a store is that a lookup sees the last write
  to its key and that the keys stay distinct; clients only use these laws.
\<close>

type_synonym ('k, 'v) table = "('k \<times> 'v) list"

definition tget :: "'k \<Rightarrow> ('k, 'v) table \<Rightarrow> 'v option" where
  "tget k t = map_of t k"

definition tput :: "'k \<Rightarrow> 'v \<Rightarrow> ('k, 'v) table \<Rightarrow> ('k, 'v) table" where
  "tput k v t = AList.update k v t"

definition tdel :: "'k \<Rightarrow> ('k, 'v) table \<Rightarrow> ('k, 'v) table" where
  "tdel k t = AList.delete k t"

definition tkeys :: "('k, 'v) table \<Rightarrow> 'k set" where
  "tkeys t = fst ` set t"

definition twf :: "('k, 'v) table \<Rightarrow> bool" where
  "twf t \<longleftrightarrow> distinct (map fst t)"

locale kv_store =
  fixes empty :: 's
    and lookup :: "'k \<Rightarrow> 's \<Rightarrow> 'v option"
    and insert :: "'k \<Rightarrow> 'v \<Rightarrow> 's \<Rightarrow> 's"
    and remove :: "'k \<Rightarrow> 's \<Rightarrow> 's"
    and wf :: "'s \<Rightarrow> bool"
  assumes wf_empty: "wf empty"
    and wf_insert: "wf s \<Longrightarrow> wf (insert k v s)"
    and wf_remove: "wf s \<Longrightarrow> wf (remove k s)"
    and lookup_empty: "lookup k empty = None"
    and lookup_insert: "wf s \<Longrightarrow> lookup k (insert j v s) = (if k = j then Some v else lookup k s)"
    and lookup_remove: "wf s \<Longrightarrow> lookup k (remove j s) = (if k = j then None else lookup k s)"
begin

lemma lookup_insert_insert:
  "wf s \<Longrightarrow> lookup k (insert j v (insert j u s)) = lookup k (insert j v s)"
  by (simp add: lookup_insert wf_insert)

lemma lookup_insert_commute:
  "wf s \<Longrightarrow> i \<noteq> j \<Longrightarrow> lookup k (insert i u (insert j v s)) = lookup k (insert j v (insert i u s))"
  by (simp add: lookup_insert wf_insert)

lemma lookup_remove_insert:
  "wf s \<Longrightarrow> lookup k (remove j (insert j v s)) = lookup k (remove j s)"
  by (simp add: lookup_insert lookup_remove wf_insert)

end

interpretation tbl: kv_store "[]" tget tput tdel twf
  by unfold_locales
    (simp_all add: tget_def tput_def tdel_def twf_def update_conv' distinct_update distinct_delete delete_conv')

lemma length_tput: "twf t \<Longrightarrow> length (tput k v t) = (if tget k t = None then Suc (length t) else length t)"
  by (induction t) (auto simp: tput_def tget_def twf_def map_of_eq_None_iff rev_image_eqI)

lemma length_tdel: "length (tdel k t) \<le> length t"
  by (simp add: tdel_def length_delete_le)

lemma tget_None_iff: "tget k t = None \<longleftrightarrow> k \<notin> tkeys t"
  by (simp add: tget_def tkeys_def map_of_eq_None_iff)

lemma tget_in_set: "tget k t = Some v \<Longrightarrow> (k, v) \<in> set t"
  by (simp add: tget_def map_of_SomeD)

subsection \<open>Reachability and invariants\<close>

inductive reachable :: "('s \<Rightarrow> bool) \<Rightarrow> ('s \<Rightarrow> 's \<Rightarrow> bool) \<Rightarrow> 's \<Rightarrow> bool"
  for init :: "'s \<Rightarrow> bool" and step :: "'s \<Rightarrow> 's \<Rightarrow> bool" where
  reach_init: "init s \<Longrightarrow> reachable init step s"
| reach_step: "reachable init step s \<Longrightarrow> step s t \<Longrightarrow> reachable init step t"

locale inductive_invariant =
  fixes init :: "'s \<Rightarrow> bool"
    and step :: "'s \<Rightarrow> 's \<Rightarrow> bool"
    and inv :: "'s \<Rightarrow> bool"
  assumes init_inv: "init s \<Longrightarrow> inv s"
    and step_inv: "step s t \<Longrightarrow> inv s \<Longrightarrow> inv t"
begin

lemma reachable_inv: "reachable init step s \<Longrightarrow> inv s"
  by (induction rule: reachable.induct) (auto intro: init_inv step_inv)

lemma steps_inv: "step\<^sup>*\<^sup>* s t \<Longrightarrow> inv s \<Longrightarrow> inv t"
  by (induction rule: rtranclp.induct) (auto intro: step_inv)

end

subsection \<open>Self-delimiting frames on a byte stream\<close>

text \<open>
  \<open>frame\<close> is what a sender puts on the wire for one message and \<open>unframe\<close> is one
  iteration of the receiver: the message and the unread rest. A codec whose receiver
  consumes exactly the bytes of the frame recovers any sequence of messages, whatever
  follows it on the stream.
\<close>

fun unframe_n :: "(bytes \<Rightarrow> ('m \<times> bytes) option) \<Rightarrow> nat \<Rightarrow> bytes \<Rightarrow> ('m list \<times> bytes) option" where
  "unframe_n unframe 0 bs = Some ([], bs)"
| "unframe_n unframe (Suc n) bs =
     (case unframe bs of
        None \<Rightarrow> None
      | Some (m, rest) \<Rightarrow>
          (case unframe_n unframe n rest of
             None \<Rightarrow> None
           | Some (ms, rest') \<Rightarrow> Some (m # ms, rest')))"

locale framing =
  fixes frame :: "'m \<Rightarrow> bytes"
    and unframe :: "bytes \<Rightarrow> ('m \<times> bytes) option"
    and ok :: "'m \<Rightarrow> bool"
  assumes unframe_frame: "ok m \<Longrightarrow> unframe (frame m @ rest) = Some (m, rest)"
begin

lemma unframe_frames:
  "list_all ok ms \<Longrightarrow> unframe_n unframe (length ms) (concat (map frame ms) @ rest) = Some (ms, rest)"
  by (induction ms) (auto simp: unframe_frame)

lemma frame_inject: "ok m \<Longrightarrow> ok m' \<Longrightarrow> frame m = frame m' \<Longrightarrow> m = m'"
  using unframe_frame [of m "[]"] unframe_frame [of m' "[]"] by simp

lemma frame_prefix_free: "ok m \<Longrightarrow> ok m' \<Longrightarrow> prefix (frame m) (frame m') \<Longrightarrow> m = m'"
  using unframe_frame [of m] unframe_frame [of m' "[]"] by (fastforce simp: prefix_def)

end

end
