(* ===== verification/Rust_Str.thy ===== *)
theory Rust_Str
  imports Prelude
begin

text \<open>
  The part of Rust's \<^verbatim>\<open>str\<close>, \<^verbatim>\<open>char\<close> and integer formatting that the sources use. A Rust
  string is modelled by its UTF-8 bytes, written as an Isabelle \<open>string\<close> (whose characters
  are exactly the 256 byte values), so that literals read as in the source and \<^verbatim>\<open>len()\<close> is
  \<open>length\<close>. Functions that look at Unicode scalar values (\<^verbatim>\<open>trim\<close>, \<^verbatim>\<open>split_whitespace\<close>,
  \<^verbatim>\<open>char::is_control\<close>) work on the UTF-8 encodings of those scalars.
\<close>

subsection \<open>Bytes and characters\<close>

definition byte_of :: "char \<Rightarrow> u8" where
  "byte_of c = word_of_nat (of_char c)"

definition char_of_byte :: "u8 \<Rightarrow> char" where
  "char_of_byte b = char_of (unat b)"

definition as_bytes :: "string \<Rightarrow> bytes" where
  "as_bytes s = map byte_of s"

definition str_of_bytes :: "bytes \<Rightarrow> string" where
  "str_of_bytes bs = map char_of_byte bs"

lemma char_of_byte_of [simp]: "char_of_byte (byte_of c) = c"
proof -
  have "of_char c < (256 :: nat)" by (rule nat_of_char_less_256)
  then show ?thesis by (simp add: char_of_byte_def byte_of_def)
qed

lemma byte_of_char_of_byte [simp]: "byte_of (char_of_byte b) = b"
  by (simp add: char_of_byte_def byte_of_def)

lemma str_of_as_bytes [simp]: "str_of_bytes (as_bytes s) = s"
  by (simp add: str_of_bytes_def as_bytes_def comp_def)

lemma as_bytes_str_of [simp]: "as_bytes (str_of_bytes bs) = bs"
  by (simp add: str_of_bytes_def as_bytes_def comp_def)

lemma length_as_bytes [simp]: "length (as_bytes s) = length s"
  by (simp add: as_bytes_def)

lemma length_str_of_bytes [simp]: "length (str_of_bytes bs) = length bs"
  by (simp add: str_of_bytes_def)

lemma as_bytes_append [simp]: "as_bytes (s @ t) = as_bytes s @ as_bytes t"
  by (simp add: as_bytes_def)

lemma str_of_bytes_append [simp]: "str_of_bytes (s @ t) = str_of_bytes s @ str_of_bytes t"
  by (simp add: str_of_bytes_def)

lemma as_bytes_inject [simp]: "as_bytes s = as_bytes t \<longleftrightarrow> s = t"
  by (metis str_of_as_bytes)

lemma as_bytes_Cons: "as_bytes (c # s) = byte_of c # as_bytes s"
  by (simp add: as_bytes_def)

lemma as_bytes_Nil [simp]: "as_bytes [] = []"
  by (simp add: as_bytes_def)

lemma str_of_bytes_Nil [simp]: "str_of_bytes [] = []"
  by (simp add: str_of_bytes_def)

definition chr :: "nat \<Rightarrow> char" where
  "chr n = char_of n"

abbreviation CR :: char where "CR \<equiv> CHR 0x0D"
abbreviation LF :: char where "LF \<equiv> CHR 0x0A"
abbreviation CRLF :: string where "CRLF \<equiv> [CHR 0x0D, CHR 0x0A]"
abbreviation QUOTE :: char where "QUOTE \<equiv> CHR 0x22"

definition ascii_lower :: "char \<Rightarrow> char" where
  "ascii_lower c = (let n = (of_char c :: nat) in if 65 \<le> n \<and> n \<le> 90 then char_of (n + 32) else c)"

definition ascii_upper :: "char \<Rightarrow> char" where
  "ascii_upper c = (let n = (of_char c :: nat) in if 97 \<le> n \<and> n \<le> 122 then char_of (n - 32) else c)"

definition to_ascii_lowercase :: "string \<Rightarrow> string" where
  "to_ascii_lowercase s = map ascii_lower s"

definition to_ascii_uppercase :: "string \<Rightarrow> string" where
  "to_ascii_uppercase s = map ascii_upper s"

definition eq_ignore_ascii_case :: "string \<Rightarrow> string \<Rightarrow> bool" where
  "eq_ignore_ascii_case s t \<longleftrightarrow> to_ascii_lowercase s = to_ascii_lowercase t"

definition is_ascii_digit :: "char \<Rightarrow> bool" where
  "is_ascii_digit c \<longleftrightarrow> 48 \<le> (of_char c :: nat) \<and> (of_char c :: nat) \<le> 57"

definition is_ascii_alphabetic :: "char \<Rightarrow> bool" where
  "is_ascii_alphabetic c \<longleftrightarrow>
     (let n = (of_char c :: nat) in (65 \<le> n \<and> n \<le> 90) \<or> (97 \<le> n \<and> n \<le> 122))"

definition is_ascii_alphanumeric :: "char \<Rightarrow> bool" where
  "is_ascii_alphanumeric c \<longleftrightarrow> is_ascii_digit c \<or> is_ascii_alphabetic c"

text \<open>\<^verbatim>\<open>s.chars().any(char::is_control)\<close>: U+0000-U+001F and U+007F-U+009F.\<close>

fun any_control :: "string \<Rightarrow> bool" where
  "any_control [] = False"
| "any_control (c # s) =
     ((of_char c :: nat) < 32 \<or> (of_char c :: nat) = 127
      \<or> ((of_char c :: nat) = 194 \<and> s \<noteq> [] \<and> 128 \<le> (of_char (hd s) :: nat) \<and> (of_char (hd s) :: nat) \<le> 159)
      \<or> any_control s)"

lemma eq_ignore_ascii_case_refl [simp]: "eq_ignore_ascii_case s s"
  by (simp add: eq_ignore_ascii_case_def)

subsection \<open>Decimal numbers\<close>

definition digit_char :: "nat \<Rightarrow> char" where
  "digit_char n = char_of (48 + n)"

fun show_nat :: "nat \<Rightarrow> string" where
  "show_nat n = (if n < 10 then [digit_char n] else show_nat (n div 10) @ [digit_char (n mod 10)])"

declare show_nat.simps [simp del]

definition digit_val :: "char \<Rightarrow> nat" where
  "digit_val c = of_char c - 48"

definition of_digits :: "string \<Rightarrow> nat" where
  "of_digits s = foldl (\<lambda>v c. 10 * v + digit_val c) 0 s"

text \<open>
  \<^verbatim>\<open>str::parse::<uN>()\<close> with \<open>limit\<close> the first value that does not fit: an optional leading
  \<^verbatim>\<open>+\<close>, at least one digit, only digits, no overflow.
\<close>

definition parse_uint :: "nat \<Rightarrow> string \<Rightarrow> nat option" where
  "parse_uint limit s =
     (let ds = (case s of [] \<Rightarrow> [] | c # t \<Rightarrow> if c = CHR ''+'' then t else s) in
      if ds = [] \<or> \<not> list_all is_ascii_digit ds \<or> limit \<le> of_digits ds then None
      else Some (of_digits ds))"

definition parse_u16 :: "string \<Rightarrow> u16 option" where
  "parse_u16 s = map_option word_of_nat (parse_uint 65536 s)"

lemma digit_char_val [simp]: "n < 10 \<Longrightarrow> digit_val (digit_char n) = n"
  by (simp add: digit_val_def digit_char_def)

lemma is_digit_digit_char [simp]: "n < 10 \<Longrightarrow> is_ascii_digit (digit_char n)"
  by (simp add: is_ascii_digit_def digit_char_def)

lemma show_nat_digits: "list_all is_ascii_digit (show_nat n)"
  by (induction n rule: show_nat.induct) (subst show_nat.simps, auto)

lemma show_nat_nonempty [simp]: "show_nat n \<noteq> []"
  by (subst show_nat.simps) auto

lemma of_digits_show_nat [simp]: "of_digits (show_nat n) = n"
  by (induction n rule: show_nat.induct)
    (subst show_nat.simps, auto simp: of_digits_def)

lemma show_nat_inject [simp]: "show_nat m = show_nat n \<longleftrightarrow> m = n"
  by (metis of_digits_show_nat)

lemma parse_uint_show_nat: "n < limit \<Longrightarrow> parse_uint limit (show_nat n) = Some n"
proof -
  assume n: "n < limit"
  obtain c t where s: "show_nat n = c # t" by (cases "show_nat n") simp_all
  have "is_ascii_digit c" using show_nat_digits [of n] s by simp
  then have "c \<noteq> CHR ''+''" by (auto simp: is_ascii_digit_def)
  then show ?thesis
    using n show_nat_digits [of n] of_digits_show_nat [of n]
    by (simp add: parse_uint_def s Let_def)
qed

lemma parse_u16_show [simp]: "parse_u16 (show_nat (unat (p :: u16))) = Some p"
  using unat_word_bound(1) [of p] by (simp add: parse_u16_def parse_uint_show_nat)

lemma parse_uint_less: "parse_uint limit s = Some n \<Longrightarrow> n < limit"
  by (auto simp: parse_uint_def Let_def split: if_splits)

subsection \<open>Splitting\<close>

text \<open>\<^verbatim>\<open>split_once\<close> and \<^verbatim>\<open>rsplit_once\<close> on a one-byte character, and \<^verbatim>\<open>split\<close> on it.\<close>

fun split_once :: "char \<Rightarrow> string \<Rightarrow> (string \<times> string) option" where
  "split_once d [] = None"
| "split_once d (c # s) =
     (if c = d then Some ([], s)
      else map_option (\<lambda>(a, b). (c # a, b)) (split_once d s))"

definition rsplit_once :: "char \<Rightarrow> string \<Rightarrow> (string \<times> string) option" where
  "rsplit_once d s = map_option (\<lambda>(a, b). (rev b, rev a)) (split_once d (rev s))"

fun split_on :: "char \<Rightarrow> string \<Rightarrow> string list" where
  "split_on d [] = [[]]"
| "split_on d (c # s) =
     (if c = d then [] # split_on d s
      else (case split_on d s of [] \<Rightarrow> [[c]] | p # ps \<Rightarrow> (c # p) # ps))"

text \<open>\<^verbatim>\<open>find(pat)\<close> and \<^verbatim>\<open>split_once(pat)\<close> for a string pattern.\<close>

fun find_sub :: "'a list \<Rightarrow> 'a list \<Rightarrow> nat option" where
  "find_sub pat [] = (if pat = [] then Some 0 else None)"
| "find_sub pat (c # s) =
     (if prefix pat (c # s) then Some 0 else map_option Suc (find_sub pat s))"

definition split_once_str :: "'a list \<Rightarrow> 'a list \<Rightarrow> ('a list \<times> 'a list) option" where
  "split_once_str pat s =
     map_option (\<lambda>i. (take i s, drop (i + length pat) s)) (find_sub pat s)"

definition rsplit_once_str :: "'a list \<Rightarrow> 'a list \<Rightarrow> ('a list \<times> 'a list) option" where
  "rsplit_once_str pat s =
     map_option (\<lambda>(a, b). (rev b, rev a)) (split_once_str (rev pat) (rev s))"

definition strip_prefix :: "'a list \<Rightarrow> 'a list \<Rightarrow> 'a list option" where
  "strip_prefix pat s = (if prefix pat s then Some (drop (length pat) s) else None)"

definition strip_suffix :: "'a list \<Rightarrow> 'a list \<Rightarrow> 'a list option" where
  "strip_suffix pat s =
     (if suffix pat s then Some (take (length s - length pat) s) else None)"

lemma split_once_append [simp]: "d \<notin> set a \<Longrightarrow> split_once d (a @ d # b) = Some (a, b)"
  by (induction a) auto

lemma split_once_None [simp]: "split_once d s = None \<longleftrightarrow> d \<notin> set s"
  by (induction s) auto

lemma split_once_Some: "split_once d s = Some (a, b) \<longleftrightarrow> s = a @ d # b \<and> d \<notin> set a"
proof (induction s arbitrary: a b)
  case (Cons c s)
  then show ?case by (cases a) auto
qed simp

lemma rsplit_once_Some: "rsplit_once d s = Some (a, b) \<longleftrightarrow> s = a @ d # b \<and> d \<notin> set b"
proof -
  have "rsplit_once d s = Some (a, b) \<longleftrightarrow> split_once d (rev s) = Some (rev b, rev a)"
    by (auto simp: rsplit_once_def)
  also have "\<dots> \<longleftrightarrow> rev s = rev b @ d # rev a \<and> d \<notin> set b" by (simp add: split_once_Some)
  also have "\<dots> \<longleftrightarrow> s = a @ d # b \<and> d \<notin> set b"
    by (metis append.assoc append_Cons append_Nil rev_append rev_rev_ident rev_singleton_conv)
  finally show ?thesis .
qed

lemma find_sub_Some: "find_sub pat s = Some i \<Longrightarrow> prefix pat (drop i s) \<and> i \<le> length s"
  by (induction s arbitrary: i) (auto split: if_splits)

lemma split_once_str_Some: "split_once_str pat s = Some (a, b) \<Longrightarrow> s = a @ pat @ b"
proof -
  assume "split_once_str pat s = Some (a, b)"
  then obtain i where i: "find_sub pat s = Some i"
    and ab: "a = take i s" "b = drop (i + length pat) s"
    by (auto simp: split_once_str_def)
  from find_sub_Some [OF i] obtain r where "drop i s = pat @ r" by (auto simp: prefix_def)
  moreover from this have "drop (i + length pat) s = r"
    by (metis add.commute append_eq_conv_conj drop_drop)
  ultimately show ?thesis using ab by (metis append_take_drop_id)
qed

lemma rsplit_once_str_Some: "rsplit_once_str pat s = Some (a, b) \<Longrightarrow> s = a @ pat @ b"
proof -
  assume "rsplit_once_str pat s = Some (a, b)"
  then have "split_once_str (rev pat) (rev s) = Some (rev b, rev a)"
    by (auto simp: rsplit_once_str_def)
  then have "rev s = rev b @ rev pat @ rev a" by (rule split_once_str_Some)
  then have "rev (rev s) = rev (rev b @ rev pat @ rev a)" by simp
  then show ?thesis by simp
qed

subsection \<open>Lines and white space\<close>

text \<open>
  \<^verbatim>\<open>str::lines\<close>: a line ends with LF or CR LF, the last one may be unterminated, and an
  empty rest is not a line.
\<close>

fun strip_cr :: "string \<Rightarrow> string" where
  "strip_cr [] = []"
| "strip_cr [c] = (if c = CR then [] else [c])"
| "strip_cr (c # d # s) = c # strip_cr (d # s)"

fun str_lines_aux :: "string \<Rightarrow> string \<Rightarrow> string list" where
  "str_lines_aux acc [] = (if acc = [] then [] else [rev acc])"
| "str_lines_aux acc (c # s) =
     (if c = LF then strip_cr (rev acc) # str_lines_aux [] s
      else str_lines_aux (c # acc) s)"

definition str_lines :: "string \<Rightarrow> string list" where
  "str_lines s = str_lines_aux [] s"

text \<open>The UTF-8 encodings of the code points with the property \<^verbatim>\<open>White_Space\<close>.\<close>

definition whitespace_encodings :: "string list" where
  "whitespace_encodings =
     [[CHR 0x09], [CHR 0x0A], [CHR 0x0B], [CHR 0x0C], [CHR 0x0D], [CHR 0x20],
      [CHR 0xC2, CHR 0x85], [CHR 0xC2, CHR 0xA0], [CHR 0xE1, CHR 0x9A, CHR 0x80],
      [CHR 0xE2, CHR 0x80, CHR 0x80], [CHR 0xE2, CHR 0x80, CHR 0x81], [CHR 0xE2, CHR 0x80, CHR 0x82],
      [CHR 0xE2, CHR 0x80, CHR 0x83], [CHR 0xE2, CHR 0x80, CHR 0x84], [CHR 0xE2, CHR 0x80, CHR 0x85],
      [CHR 0xE2, CHR 0x80, CHR 0x86], [CHR 0xE2, CHR 0x80, CHR 0x87], [CHR 0xE2, CHR 0x80, CHR 0x88],
      [CHR 0xE2, CHR 0x80, CHR 0x89], [CHR 0xE2, CHR 0x80, CHR 0x8A], [CHR 0xE2, CHR 0x80, CHR 0xA8],
      [CHR 0xE2, CHR 0x80, CHR 0xA9], [CHR 0xE2, CHR 0x80, CHR 0xAF], [CHR 0xE2, CHR 0x81, CHR 0x9F],
      [CHR 0xE3, CHR 0x80, CHR 0x80]]"

definition ws_at_start :: "string \<Rightarrow> nat" where
  "ws_at_start s =
     (case find (\<lambda>w. prefix w s) whitespace_encodings of None \<Rightarrow> 0 | Some w \<Rightarrow> length w)"

definition ws_at_end :: "string \<Rightarrow> nat" where
  "ws_at_end s =
     (case find (\<lambda>w. suffix w s) whitespace_encodings of None \<Rightarrow> 0 | Some w \<Rightarrow> length w)"

lemma ws_at_end_le: "ws_at_end s \<le> length s"
  by (auto simp: ws_at_end_def find_Some_iff suffix_length_le split: option.splits)

function trim_start :: "string \<Rightarrow> string" where
  "trim_start s =
     (if s = [] \<or> ws_at_start s = 0 then s else trim_start (drop (ws_at_start s) s))"
  by auto
termination by (relation "measure length") (auto simp: length_greater_0_conv [symmetric] simp del: length_greater_0_conv)

function trim_end :: "string \<Rightarrow> string" where
  "trim_end s =
     (if s = [] \<or> ws_at_end s = 0 then s
      else trim_end (take (length s - ws_at_end s) s))"
  by auto
termination by (relation "measure length") (auto simp: length_greater_0_conv [symmetric] simp del: length_greater_0_conv)

declare trim_start.simps [simp del] trim_end.simps [simp del]

definition trim :: "string \<Rightarrow> string" where
  "trim s = trim_end (trim_start s)"

text \<open>
  \<^verbatim>\<open>s.chars().any(char::is_whitespace)\<close> and the string without its white space: in UTF-8 the
  encoding of one scalar never starts inside that of another.
\<close>

fun any_whitespace :: "string \<Rightarrow> bool" where
  "any_whitespace [] = False"
| "any_whitespace (c # s) = (ws_at_start (c # s) \<noteq> 0 \<or> any_whitespace s)"

function without_whitespace :: "string \<Rightarrow> string" where
  "without_whitespace s =
     (case s of
        [] \<Rightarrow> []
      | c # t \<Rightarrow>
          (if ws_at_start s = 0 then c # without_whitespace t
           else without_whitespace (drop (ws_at_start s) s)))"
  by auto
termination by (relation "measure length") auto

declare without_whitespace.simps [simp del]

text \<open>\<^verbatim>\<open>split_whitespace\<close>: the maximal runs without white space, left to right.\<close>

function split_ws_aux :: "string \<Rightarrow> string \<Rightarrow> string list" where
  "split_ws_aux acc s =
     (case s of
        [] \<Rightarrow> (if acc = [] then [] else [rev acc])
      | c # t \<Rightarrow>
          (if ws_at_start s = 0 then split_ws_aux (c # acc) t
           else if acc = [] then split_ws_aux [] (drop (ws_at_start s) s)
           else rev acc # split_ws_aux [] (drop (ws_at_start s) s)))"
  by auto
termination by (relation "measure (length \<circ> snd)") auto

declare split_ws_aux.simps [simp del]

definition split_whitespace :: "string \<Rightarrow> string list" where
  "split_whitespace s = split_ws_aux [] s"

lemma whitespace_encodings_nonempty: "w \<in> set whitespace_encodings \<Longrightarrow> w \<noteq> []"
  by (auto simp: whitespace_encodings_def)

lemma ws_at_start_Nil [simp]: "ws_at_start [] = 0"
  by (simp add: ws_at_start_def whitespace_encodings_def)

lemma ws_at_end_Nil [simp]: "ws_at_end [] = 0"
  by (simp add: ws_at_end_def whitespace_encodings_def)

lemma trim_start_no_ws: "ws_at_start (trim_start s) = 0"
  by (induction s rule: trim_start.induct) (subst trim_start.simps, auto)

lemma trim_end_no_ws: "ws_at_end (trim_end s) = 0"
  by (induction s rule: trim_end.induct) (subst trim_end.simps, auto)

lemma trim_start_id: "ws_at_start s = 0 \<Longrightarrow> trim_start s = s"
  by (subst trim_start.simps) simp

lemma trim_end_id: "ws_at_end s = 0 \<Longrightarrow> trim_end s = s"
  by (subst trim_end.simps) simp

lemma prefix_trim_end: "prefix (trim_end s) s"
proof (induction s rule: trim_end.induct)
  case (1 s)
  show ?case
  proof (cases "s = [] \<or> ws_at_end s = 0")
    case True
    then show ?thesis by (subst trim_end.simps) simp
  next
    case False
    with 1 have "prefix (trim_end (take (length s - ws_at_end s) s)) (take (length s - ws_at_end s) s)"
      by simp
    with False show ?thesis
      by (subst trim_end.simps) (auto intro: prefix_order.trans take_is_prefix)
  qed
qed

lemma ws_at_start_prefix: "prefix t s \<Longrightarrow> ws_at_start s = 0 \<Longrightarrow> ws_at_start t = 0"
  by (fastforce simp: ws_at_start_def find_Some_iff find_None_iff split: option.splits
      dest: whitespace_encodings_nonempty nth_mem intro: prefix_order.trans)

lemma trim_idem [simp]: "trim (trim s) = trim s"
proof -
  have "ws_at_start (trim s) = 0"
    unfolding trim_def by (rule ws_at_start_prefix [OF prefix_trim_end trim_start_no_ws])
  then show ?thesis
    by (metis trim_def trim_end_id trim_end_no_ws trim_start_id)
qed

lemma length_trim: "length (trim s) \<le> length s"
proof -
  have "length (trim_start s) \<le> length s"
    by (induction s rule: trim_start.induct) (subst trim_start.simps, auto)
  moreover have "length (trim s) \<le> length (trim_start s)"
    unfolding trim_def using prefix_trim_end prefix_length_le by blast
  ultimately show ?thesis by simp
qed

subsection \<open>UTF-8\<close>

text \<open>
  One step of Rust's decoder on the bytes at the front: how many bytes the scalar or the
  maximal ill-formed part takes, and whether it is a scalar. \<^verbatim>\<open>String::from_utf8\<close> accepts
  exactly the sequences all of whose steps are scalars; \<^verbatim>\<open>from_utf8_lossy\<close> replaces each
  ill-formed part by U+FFFD.
\<close>

definition nth_byte :: "nat \<Rightarrow> bytes \<Rightarrow> nat" where
  "nth_byte i bs = (if i < length bs then unat (bs ! i) else 0)"

definition is_cont :: "nat \<Rightarrow> bool" where
  "is_cont b \<longleftrightarrow> 128 \<le> b \<and> b \<le> 191"

definition utf8_step :: "bytes \<Rightarrow> nat \<times> bool" where
  "utf8_step bs =
     (let b = nth_byte 0 bs; b1 = nth_byte 1 bs; b2 = nth_byte 2 bs; b3 = nth_byte 3 bs in
      if b < 128 then (1, True)
      else if 194 \<le> b \<and> b \<le> 223 then (if is_cont b1 then (2, True) else (1, False))
      else if 224 \<le> b \<and> b \<le> 239 then
        (if (b = 224 \<and> 160 \<le> b1 \<and> b1 \<le> 191) \<or> (225 \<le> b \<and> b \<le> 236 \<and> is_cont b1)
            \<or> (b = 237 \<and> 128 \<le> b1 \<and> b1 \<le> 159) \<or> (238 \<le> b \<and> is_cont b1)
         then (if is_cont b2 then (3, True) else (2, False)) else (1, False))
      else if 240 \<le> b \<and> b \<le> 244 then
        (if (b = 240 \<and> 144 \<le> b1 \<and> b1 \<le> 191) \<or> (241 \<le> b \<and> b \<le> 243 \<and> is_cont b1)
            \<or> (b = 244 \<and> 128 \<le> b1 \<and> b1 \<le> 143)
         then (if is_cont b2 then (if is_cont b3 then (4, True) else (3, False)) else (2, False))
         else (1, False))
      else (1, False))"

lemma utf8_step_pos: "0 < fst (utf8_step bs)"
  by (simp add: utf8_step_def Let_def)

lemma utf8_step_less: "utf8_step bs = (n, okay) \<Longrightarrow> bs \<noteq> [] \<Longrightarrow> length bs - n < length bs"
  using utf8_step_pos [of bs] by (simp add: diff_less)

function utf8_lossy :: "bytes \<Rightarrow> bytes" where
  "utf8_lossy bs =
     (if bs = [] then []
      else (case utf8_step bs of
              (n, True) \<Rightarrow> take n bs @ utf8_lossy (drop n bs)
            | (n, False) \<Rightarrow> [0xEF, 0xBF, 0xBD] @ utf8_lossy (drop n bs)))"
  by auto
termination
  by (relation "measure length") (auto dest: utf8_step_less [OF sym])

function valid_utf8 :: "bytes \<Rightarrow> bool" where
  "valid_utf8 bs =
     (if bs = [] then True
      else (case utf8_step bs of (n, okay) \<Rightarrow> okay \<and> valid_utf8 (drop n bs)))"
  by auto
termination
  by (relation "measure length") (auto dest: utf8_step_less [OF sym])

declare utf8_lossy.simps [simp del] valid_utf8.simps [simp del]

definition from_utf8 :: "bytes \<Rightarrow> string option" where
  "from_utf8 bs = (if valid_utf8 bs then Some (str_of_bytes bs) else None)"

definition from_utf8_lossy :: "bytes \<Rightarrow> string" where
  "from_utf8_lossy bs = str_of_bytes (utf8_lossy bs)"

lemma utf8_lossy_valid: "valid_utf8 bs \<Longrightarrow> utf8_lossy bs = bs"
proof (induction bs rule: utf8_lossy.induct)
  case (1 bs)
  then show ?case
    by (subst utf8_lossy.simps)
      (auto simp: valid_utf8.simps [of bs] split: prod.splits bool.splits)
qed

lemma from_utf8_lossy_valid: "valid_utf8 bs \<Longrightarrow> from_utf8 bs = Some (from_utf8_lossy bs)"
  by (simp add: from_utf8_def from_utf8_lossy_def utf8_lossy_valid)

lemma valid_utf8_ascii: "list_all (\<lambda>b. unat b < 128) bs \<Longrightarrow> valid_utf8 bs"
proof (induction bs)
  case (Cons b bs)
  then have "utf8_step (b # bs) = (1, True)" by (simp add: utf8_step_def nth_byte_def)
  with Cons show ?case by (subst valid_utf8.simps) simp
qed (simp add: valid_utf8.simps)

lemma from_utf8_lossy_ascii: "list_all (\<lambda>c. (of_char c :: nat) < 128) s \<Longrightarrow> from_utf8_lossy (as_bytes s) = s"
proof -
  assume "list_all (\<lambda>c. (of_char c :: nat) < 128) s"
  then have "list_all (\<lambda>b. unat b < 128) (as_bytes s)"
    by (auto simp: list_all_iff as_bytes_def byte_of_def)
  then show ?thesis by (simp add: from_utf8_lossy_def utf8_lossy_valid valid_utf8_ascii)
qed

lemma take_as_bytes: "take n (as_bytes s) = as_bytes (take n s)"
  by (simp add: as_bytes_def take_map)

lemma suffix_as_bytes [simp]: "suffix (as_bytes s) (as_bytes t) \<longleftrightarrow> suffix s t"
proof
  assume "suffix (as_bytes s) (as_bytes t)"
  then obtain zs where "as_bytes t = zs @ as_bytes s" by (auto simp: suffix_def)
  then have "str_of_bytes (as_bytes t) = str_of_bytes (zs @ as_bytes s)" by simp
  then have "t = str_of_bytes zs @ s" by (simp only: str_of_bytes_append str_of_as_bytes)
  then show "suffix s t" by (auto simp: suffix_def)
qed (auto simp: suffix_def)

subsection \<open>Tokens of printable characters\<close>

definition graph_char :: "char \<Rightarrow> bool" where
  "graph_char c \<longleftrightarrow> 33 \<le> (of_char c :: nat) \<and> (of_char c :: nat) \<le> 126"

lemma whitespace_not_graph: "list_all (\<lambda>w. w \<noteq> [] \<and> \<not> graph_char (hd w)) whitespace_encodings"
  by (simp add: whitespace_encodings_def graph_char_def)

lemma ws_at_start_graph: "graph_char c \<Longrightarrow> ws_at_start (c # s) = 0"
proof -
  assume c: "graph_char c"
  have "\<not> prefix w (c # s)" if "w \<in> set whitespace_encodings" for w
  proof
    assume "prefix w (c # s)"
    moreover have "w \<noteq> [] \<and> \<not> graph_char (hd w)"
      using whitespace_not_graph that unfolding list_all_iff by blast
    ultimately have "hd w = c" by (cases w) simp_all
    then show False using \<open>w \<noteq> [] \<and> \<not> graph_char (hd w)\<close> c by simp
  qed
  then have "find (\<lambda>w. prefix w (c # s)) whitespace_encodings = None" by (simp add: find_None_iff)
  then show ?thesis by (simp add: ws_at_start_def)
qed

lemma whitespace_last_not_graph: "list_all (\<lambda>w. w \<noteq> [] \<and> \<not> graph_char (last w)) whitespace_encodings"
  by (simp add: whitespace_encodings_def graph_char_def)

lemma ws_at_end_graph:
  assumes "s \<noteq> []" and "graph_char (last s)"
  shows "ws_at_end s = 0"
proof -
  have "\<not> suffix w s" if "w \<in> set whitespace_encodings" for w
  proof
    assume "suffix w s"
    moreover have "w \<noteq> []" "\<not> graph_char (last w)"
      using whitespace_last_not_graph that by (auto simp: list_all_iff)
    ultimately show False using assms by (auto simp: suffix_def)
  qed
  then have "find (\<lambda>w. suffix w s) whitespace_encodings = None" by (simp add: find_None_iff)
  then show ?thesis by (simp add: ws_at_end_def)
qed

lemma trim_graph:
  assumes "s \<noteq> []" and "graph_char (hd s)" and "graph_char (last s)"
  shows "trim s = s"
proof -
  have "ws_at_start s = 0" using assms(1,2) ws_at_start_graph [of "hd s" "tl s"] by simp
  then show ?thesis using ws_at_end_graph [OF assms(1,3)] by (simp add: trim_def trim_start_id trim_end_id)
qed

lemma ws_at_start_space: "c = CHR '' '' \<or> c = CR \<or> c = LF \<Longrightarrow> ws_at_start (c # s) = 1"
  by (elim disjE) (simp_all add: ws_at_start_def whitespace_encodings_def)

lemma split_ws_token:
  assumes "list_all graph_char w"
  shows "split_ws_aux acc (w @ r) = split_ws_aux (rev w @ acc) r"
  using assms
proof (induction w arbitrary: acc)
  case (Cons c w)
  then show ?case by (subst split_ws_aux.simps) (simp add: ws_at_start_graph)
qed simp

lemma split_ws_space:
  assumes "c = CHR '' '' \<or> c = CR \<or> c = LF"
  shows "split_ws_aux acc (c # r) = (if acc = [] then split_ws_aux [] r else rev acc # split_ws_aux [] r)"
  using ws_at_start_space [OF assms, of r] by (subst split_ws_aux.simps) simp

lemma split_ws_end [simp]: "split_ws_aux [] [] = []"
  by (simp add: split_ws_aux.simps)

lemma find_sub_append:
  assumes "\<forall>x\<in>set a. x \<noteq> p" shows "find_sub (p # ps) (a @ p # ps @ b) = Some (length a)"
  using assms by (induction a) (auto simp: prefix_def)

lemma rsplit_once_str_append:
  assumes "\<forall>x\<in>set b. x \<noteq> q"
  shows "rsplit_once_str (ps @ [q]) (a @ ps @ [q] @ b) = Some (a, b)"
proof -
  have "find_sub (q # rev ps) (rev b @ q # rev ps @ rev a) = Some (length b)"
    using find_sub_append [of "rev b" q "rev ps" "rev a"] assms by simp
  then show ?thesis by (simp add: rsplit_once_str_def split_once_str_def)
qed

lemma rsplit_once_append: "d \<notin> set b \<Longrightarrow> rsplit_once d (a @ d # b) = Some (a, b)"
  by (simp add: rsplit_once_Some)

lemma show_nat_chars: "c \<in> set (show_nat n) \<Longrightarrow> is_ascii_digit c"
  using show_nat_digits [of n] by (simp add: list_all_iff)

lemma show_nat_no_colon: "CHR '':'' \<notin> set (show_nat n)"
  using show_nat_chars [of "CHR '':''" n] by (auto simp: is_ascii_digit_def)

lemma show_nat_no: "\<not> is_ascii_digit c \<Longrightarrow> c \<notin> set (show_nat n)"
  using show_nat_chars by blast

lemma byte_of_LF: "byte_of c = 10 \<longleftrightarrow> c = LF"
proof
  assume "byte_of c = 10"
  then have "char_of_byte (byte_of c) = char_of_byte (byte_of LF)" by (simp add: byte_of_def)
  then show "c = LF" by (simp only: char_of_byte_of)
qed (simp add: byte_of_def)

lemma from_utf8_ascii: "list_all (\<lambda>c. (of_char c :: nat) < 128) s \<Longrightarrow> from_utf8 (as_bytes s) = Some s"
proof -
  assume "list_all (\<lambda>c. (of_char c :: nat) < 128) s"
  then have "list_all (\<lambda>b. unat b < 128) (as_bytes s)"
    by (auto simp: list_all_iff as_bytes_def byte_of_def)
  then show ?thesis by (simp add: from_utf8_def valid_utf8_ascii)
qed

end
