(* ===== verification/Rust_Net.thy ===== *)
theory Rust_Net
  imports Rust_Str
begin

text \<open>
  \<^verbatim>\<open>std::net\<close> addresses: \<^verbatim>\<open>IpAddr\<close> and \<^verbatim>\<open>SocketAddr\<close>, their octets, and the textual forms
  read by \<^verbatim>\<open>FromStr\<close> and written by \<^verbatim>\<open>Display\<close>. The parser follows the recursive-descent
  parser of the standard library (no leading zeros in a dotted quad, at most four hex
  digits per group, one \<^verbatim>\<open>::\<close>, an embedded dotted quad only as the last two groups).
\<close>

subsection \<open>Addresses\<close>

datatype ip_addr = IpV4 u32 | IpV6 u128

text \<open>The two last components of \<open>SockV6\<close> are \<^verbatim>\<open>flowinfo\<close> and \<^verbatim>\<open>scope_id\<close>.\<close>

datatype sock_addr = SockV4 u32 u16 | SockV6 u128 u16 u32 u32

fun sock_ip :: "sock_addr \<Rightarrow> ip_addr" where
  "sock_ip (SockV4 a p) = IpV4 a"
| "sock_ip (SockV6 a p f sc) = IpV6 a"

fun sock_port :: "sock_addr \<Rightarrow> u16" where
  "sock_port (SockV4 a p) = p"
| "sock_port (SockV6 a p f sc) = p"

fun sock_new :: "ip_addr \<Rightarrow> u16 \<Rightarrow> sock_addr" where
  "sock_new (IpV4 a) p = SockV4 a p"
| "sock_new (IpV6 a) p = SockV6 a p 0 0"

fun is_ipv4 :: "ip_addr \<Rightarrow> bool" where
  "is_ipv4 (IpV4 a) = True"
| "is_ipv4 (IpV6 a) = False"

fun is_ipv6 :: "ip_addr \<Rightarrow> bool" where
  "is_ipv6 (IpV4 a) = False"
| "is_ipv6 (IpV6 a) = True"

definition octets4 :: "u32 \<Rightarrow> bytes" where
  "octets4 a = to_be 4 (unat a)"

definition octets6 :: "u128 \<Rightarrow> bytes" where
  "octets6 a = to_be 16 (unat a)"

definition v4_from_octets :: "bytes \<Rightarrow> u32" where
  "v4_from_octets bs = word_of_nat (of_be bs)"

definition v6_from_octets :: "bytes \<Rightarrow> u128" where
  "v6_from_octets bs = word_of_nat (of_be bs)"

definition ipv4 :: "nat \<Rightarrow> nat \<Rightarrow> nat \<Rightarrow> nat \<Rightarrow> u32" where
  "ipv4 a b c d = word_of_nat (((a * 256 + b) * 256 + c) * 256 + d)"

lemma sock_new_ip [simp]: "sock_ip (sock_new a p) = a"
  by (cases a) auto

lemma sock_new_port [simp]: "sock_port (sock_new a p) = p"
  by (cases a) auto

lemma length_octets4 [simp]: "length (octets4 a) = 4"
  by (simp add: octets4_def)

lemma length_octets6 [simp]: "length (octets6 a) = 16"
  by (simp add: octets6_def)

lemma v4_from_octets_octets [simp]: "v4_from_octets (octets4 a) = a"
  by (simp add: v4_from_octets_def octets4_def)

lemma v6_from_octets_octets [simp]: "v6_from_octets (octets6 a) = a"
  by (simp add: v6_from_octets_def octets6_def)

lemma octets_v4_from_octets: "length bs = 4 \<Longrightarrow> octets4 (v4_from_octets bs) = bs"
  by (simp add: v4_from_octets_def octets4_def to_be_word_of_be)

lemma octets_v6_from_octets: "length bs = 16 \<Longrightarrow> octets6 (v6_from_octets bs) = bs"
  by (simp add: v6_from_octets_def octets6_def to_be_word_of_be)

subsection \<open>Reading\<close>

fun hex_val :: "char \<Rightarrow> nat option" where
  "hex_val c =
     (let n = (of_char c :: nat) in
      if 48 \<le> n \<and> n \<le> 57 then Some (n - 48)
      else if 97 \<le> n \<and> n \<le> 102 then Some (n - 87)
      else if 65 \<le> n \<and> n \<le> 70 then Some (n - 55)
      else None)"

definition radix_digit :: "nat \<Rightarrow> char \<Rightarrow> bool" where
  "radix_digit radix c \<longleftrightarrow> (case hex_val c of None \<Rightarrow> False | Some v \<Rightarrow> v < radix)"

definition radix_val :: "nat \<Rightarrow> string \<Rightarrow> nat" where
  "radix_val radix s = foldl (\<lambda>v c. radix * v + (case hex_val c of None \<Rightarrow> 0 | Some d \<Rightarrow> d)) 0 s"

definition read_number :: "nat \<Rightarrow> nat option \<Rightarrow> bool \<Rightarrow> nat \<Rightarrow> string \<Rightarrow> (nat \<times> string) option" where
  "read_number radix max_digits allow_zero_prefix limit s =
     (let ds = takeWhile (radix_digit radix) s in
      if (case max_digits of None \<Rightarrow> False | Some m \<Rightarrow> m < length ds) then None
      else if ds = [] then None
      else if \<not> allow_zero_prefix \<and> hd ds = CHR ''0'' \<and> 1 < length ds then None
      else if limit \<le> radix_val radix ds then None
      else Some (radix_val radix ds, drop (length ds) s))"

definition read_separator :: "char \<Rightarrow> nat \<Rightarrow> (string \<Rightarrow> ('a \<times> string) option) \<Rightarrow> string \<Rightarrow> ('a \<times> string) option" where
  "read_separator sep i p s =
     (if i = 0 then p s
      else case s of [] \<Rightarrow> None | c # t \<Rightarrow> if c = sep then p t else None)"

fun read_quads :: "nat \<Rightarrow> nat \<Rightarrow> string \<Rightarrow> (nat list \<times> string) option" where
  "read_quads i 0 s = Some ([], s)"
| "read_quads i (Suc k) s =
     (case read_separator CHR ''.'' i (read_number 10 (Some 3) False 256) s of
        None \<Rightarrow> None
      | Some (v, t) \<Rightarrow> map_option (\<lambda>(vs, u). (v # vs, u)) (read_quads (Suc i) k t))"

definition read_ipv4_addr :: "string \<Rightarrow> (u32 \<times> string) option" where
  "read_ipv4_addr s =
     map_option (\<lambda>(vs, t). (word_of_nat (foldl (\<lambda>a v. a * 256 + v) 0 vs), t)) (read_quads 0 4 s)"

fun read_groups :: "nat \<Rightarrow> nat \<Rightarrow> string \<Rightarrow> nat list \<times> bool \<times> string" where
  "read_groups i 0 s = ([], False, s)"
| "read_groups i (Suc k) s =
     (case (if k = 0 then None else read_separator CHR '':'' i read_ipv4_addr s) of
        Some (a, t) \<Rightarrow> ([unat a div 65536, unat a mod 65536], True, t)
      | None \<Rightarrow>
          (case read_separator CHR '':'' i (read_number 16 (Some 4) True 65536) s of
             None \<Rightarrow> ([], False, s)
           | Some (g, t) \<Rightarrow> (case read_groups (Suc i) k t of (gs, v4, u) \<Rightarrow> (g # gs, v4, u))))"

definition v6_from_groups :: "nat list \<Rightarrow> u128" where
  "v6_from_groups gs = word_of_nat (foldl (\<lambda>a v. a * 65536 + v) 0 gs)"

definition read_ipv6_addr :: "string \<Rightarrow> (u128 \<times> string) option" where
  "read_ipv6_addr s =
     (case read_groups 0 8 s of
        (hd_groups, hd_v4, t) \<Rightarrow>
          if length hd_groups = 8 then Some (v6_from_groups hd_groups, t)
          else if hd_v4 then None
          else case strip_prefix ''::'' t of
            None \<Rightarrow> None
          | Some u \<Rightarrow>
              (case read_groups 0 (8 - (length hd_groups + 1)) u of
                 (tl_groups, _, v) \<Rightarrow>
                   Some (v6_from_groups
                           (hd_groups @ replicate (8 - length hd_groups - length tl_groups) 0 @ tl_groups), v)))"

definition parse_ipv4 :: "string \<Rightarrow> u32 option" where
  "parse_ipv4 s = (case read_ipv4_addr s of Some (a, []) \<Rightarrow> Some a | _ \<Rightarrow> None)"

definition parse_ip :: "string \<Rightarrow> ip_addr option" where
  "parse_ip s =
     (case read_ipv4_addr s of
        Some (a, t) \<Rightarrow> if t = [] then Some (IpV4 a) else None
      | None \<Rightarrow>
          (case read_ipv6_addr s of
             Some (a, t) \<Rightarrow> if t = [] then Some (IpV6 a) else None
           | None \<Rightarrow> None))"

definition read_port :: "string \<Rightarrow> (u16 \<times> string) option" where
  "read_port s =
     (case s of
        [] \<Rightarrow> None
      | c # t \<Rightarrow>
          if c = CHR '':'' then map_option (\<lambda>(n, u). (word_of_nat n, u)) (read_number 10 None True 65536 t)
          else None)"

definition read_scope_id :: "string \<Rightarrow> (u32 \<times> string) option" where
  "read_scope_id s =
     (case s of
        [] \<Rightarrow> None
      | c # t \<Rightarrow>
          if c = CHR ''%'' then map_option (\<lambda>(n, u). (word_of_nat n, u)) (read_number 10 None True 4294967296 t)
          else None)"

definition read_sock_v4 :: "string \<Rightarrow> (sock_addr \<times> string) option" where
  "read_sock_v4 s =
     (case read_ipv4_addr s of
        None \<Rightarrow> None
      | Some (a, t) \<Rightarrow> map_option (\<lambda>(p, u). (SockV4 a p, u)) (read_port t))"

definition read_sock_v6 :: "string \<Rightarrow> (sock_addr \<times> string) option" where
  "read_sock_v6 s =
     (case strip_prefix ''['' s of
        None \<Rightarrow> None
      | Some t \<Rightarrow>
          (case read_ipv6_addr t of
             None \<Rightarrow> None
           | Some (a, u) \<Rightarrow>
               (case (case read_scope_id u of None \<Rightarrow> (0, u) | Some r \<Rightarrow> r) of
                  (sc, v) \<Rightarrow>
                    (case strip_prefix '']'' v of
                       None \<Rightarrow> None
                     | Some w \<Rightarrow> map_option (\<lambda>(p, x). (SockV6 a p 0 sc, x)) (read_port w)))))"

definition parse_sock_addr :: "string \<Rightarrow> sock_addr option" where
  "parse_sock_addr s =
     (case read_sock_v4 s of
        Some (a, t) \<Rightarrow> if t = [] then Some a else None
      | None \<Rightarrow>
          (case read_sock_v6 s of
             Some (a, t) \<Rightarrow> if t = [] then Some a else None
           | None \<Rightarrow> None))"

subsection \<open>Writing\<close>

definition show_ipv4 :: "u32 \<Rightarrow> string" where
  "show_ipv4 a =
     (let n = unat a in
      show_nat (n div 16777216) @ ''.'' @ show_nat (n div 65536 mod 256) @ ''.'' @
      show_nat (n div 256 mod 256) @ ''.'' @ show_nat (n mod 256))"

fun show_hex :: "nat \<Rightarrow> string" where
  "show_hex n =
     (let d = n mod 16; c = char_of (if d < 10 then 48 + d else 87 + d) in
      if n < 16 then [c] else show_hex (n div 16) @ [c])"

declare show_hex.simps [simp del]

fun zero_run :: "nat list \<Rightarrow> nat" where
  "zero_run [] = 0"
| "zero_run (g # gs) = (if g = 0 then Suc (zero_run gs) else 0)"

text \<open>Start and length of the first longest run of zero groups.\<close>

fun longest_zeros :: "nat \<Rightarrow> nat list \<Rightarrow> nat \<times> nat" where
  "longest_zeros i [] = (0, 0)"
| "longest_zeros i (g # gs) =
     (case longest_zeros (Suc i) gs of
        (j, n) \<Rightarrow> if n \<le> zero_run (g # gs) \<and> 0 < zero_run (g # gs) then (i, zero_run (g # gs)) else (j, n))"

definition v6_groups :: "u128 \<Rightarrow> nat list" where
  "v6_groups a = map (\<lambda>i. unat a div 65536 ^ (7 - i) mod 65536) [0..<8]"

fun join_colon :: "nat list \<Rightarrow> string" where
  "join_colon [] = []"
| "join_colon [g] = show_hex g"
| "join_colon (g # h # gs) = show_hex g @ '':'' @ join_colon (h # gs)"

definition show_ipv6 :: "u128 \<Rightarrow> string" where
  "show_ipv6 a =
     (let gs = v6_groups a in
      if take 5 gs = [0, 0, 0, 0, 0] \<and> gs ! 5 = 65535
      then ''::ffff:'' @ show_ipv4 (word_of_nat (unat a mod 4294967296))
      else case longest_zeros 0 gs of
        (start, n) \<Rightarrow>
          if 1 < n then join_colon (take start gs) @ ''::'' @ join_colon (drop (start + n) gs)
          else join_colon gs)"

fun show_ip :: "ip_addr \<Rightarrow> string" where
  "show_ip (IpV4 a) = show_ipv4 a"
| "show_ip (IpV6 a) = show_ipv6 a"

subsection \<open>A dotted quad reads back\<close>

lemma hex_val_digit: "is_ascii_digit c \<Longrightarrow> hex_val c = Some (digit_val c) \<and> digit_val c < 10"
  by (auto simp: is_ascii_digit_def digit_val_def Let_def)

lemma radix_digit_10: "radix_digit 10 c \<longleftrightarrow> is_ascii_digit c"
  by (auto simp: radix_digit_def is_ascii_digit_def Let_def split: option.splits if_splits)

lemma radix_val_10: "list_all is_ascii_digit s \<Longrightarrow> radix_val 10 s = of_digits s"
proof -
  assume "list_all is_ascii_digit s"
  then have "foldl (\<lambda>v c. 10 * v + (case hex_val c of None \<Rightarrow> 0 | Some d \<Rightarrow> d)) n s
           = foldl (\<lambda>v c. 10 * v + digit_val c) n s" for n
    by (induction s arbitrary: n) (auto simp: hex_val_digit simp del: hex_val.simps)
  then show ?thesis by (simp add: radix_val_def of_digits_def)
qed

lemma show_nat_octet:
  assumes "n < 256"
  shows "length (show_nat n) \<le> 3" and "hd (show_nat n) = CHR ''0'' \<Longrightarrow> length (show_nat n) = 1"
proof -
  have e: "show_nat n =
    (if n < 10 then [digit_char n]
     else if n < 100 then [digit_char (n div 10), digit_char (n mod 10)]
     else [digit_char (n div 100), digit_char (n div 10 mod 10), digit_char (n mod 10)])"
    using assms by (auto simp: show_nat.simps [of n] show_nat.simps [of "n div 10"]
        show_nat.simps [of "n div 100"] div_mult2_eq [symmetric])
  show "length (show_nat n) \<le> 3" by (simp add: e)
  have z: "m = 0" if "m < 10" "digit_char m = CHR ''0''" for m
    using digit_char_val [OF that(1)] that(2) by (simp add: digit_val_def)
  have "digit_char (n div 10) \<noteq> CHR ''0''" if "10 \<le> n" "n < 100"
    using that z [of "n div 10"] by fastforce
  moreover have "digit_char (n div 100) \<noteq> CHR ''0''" if "100 \<le> n"
    using that assms z [of "n div 100"] by fastforce
  ultimately show "length (show_nat n) = 1" if "hd (show_nat n) = CHR ''0''"
    using that by (simp add: e not_less split: if_splits)
qed

lemma takeWhile_digits:
  assumes "list_all is_ascii_digit ds" and "r = [] \<or> \<not> is_ascii_digit (hd r)"
  shows "takeWhile (radix_digit 10) (ds @ r) = ds"
  using assms by (induction ds) (cases r; auto simp: radix_digit_10)+

lemma read_number_show_octet:
  assumes "n < 256" and "r = [] \<or> \<not> is_ascii_digit (hd r)"
  shows "read_number 10 (Some 3) False 256 (show_nat n @ r) = Some (n, r)"
  using assms show_nat_octet [OF assms(1)]
  by (auto simp: read_number_def takeWhile_digits show_nat_digits radix_val_10 Let_def)

lemma not_digit_dot [simp]: "\<not> is_ascii_digit CHR ''.''"
  by (simp add: is_ascii_digit_def)

lemma quad_value:
  fixes n :: nat
  shows "((n div 16777216 * 256 + n div 65536 mod 256) * 256 + n div 256 mod 256) * 256 + n mod 256 = n"
proof -
  have "n div 65536 = n div 256 div 256" "n div 16777216 = n div 256 div 256 div 256"
    by (simp_all add: div_mult2_eq [symmetric])
  then show ?thesis by (simp only: div_mult_mod_eq)
qed

lemma four: "(4 :: nat) = Suc (Suc (Suc (Suc 0)))"
  by simp

lemma parse_show_ipv4 [simp]: "parse_ipv4 (show_ipv4 a) = Some a"
proof -
  let ?n = "unat a"
  have n: "?n < 4294967296" by (rule unat_word_bound)
  have "?n div 16777216 < 256" using n by simp
  then have "read_quads 0 4 (show_ipv4 a)
      = Some ([?n div 16777216, ?n div 65536 mod 256, ?n div 256 mod 256, ?n mod 256], [])"
    unfolding four using read_number_show_octet [of "?n mod 256" "[]"]
    by (simp add: show_ipv4_def Let_def read_separator_def read_number_show_octet)
  then show ?thesis
    using quad_value [of ?n] by (simp add: parse_ipv4_def read_ipv4_addr_def)
qed

lemma parse_ip_show_ipv4 [simp]: "parse_ip (show_ipv4 a) = Some (IpV4 a)"
  using parse_show_ipv4 [of a] by (auto simp: parse_ip_def parse_ipv4_def split: option.splits list.splits)

text \<open>A text that starts with a letter behind \<^verbatim>\<open>f\<close> is a name, not an address.\<close>

lemma parse_ip_name:
  assumes "hex_val c = None" and "c \<noteq> CHR '':''"
  shows "parse_ip (c # t) = None"
proof -
  have d: "\<not> radix_digit r c" for r using assms(1) by (simp add: radix_digit_def del: hex_val.simps)
  have n: "read_number r m z l (c # t) = None" for r m z l by (simp add: read_number_def d)
  have q: "read_ipv4_addr (c # t) = None"
    unfolding read_ipv4_addr_def four by (simp add: read_separator_def n)
  have "read_groups 0 8 (c # t) = ([], False, c # t)"
    using read_groups.simps(2) [of 0 7 "c # t"] by (simp add: read_separator_def n q)
  then have "read_ipv6_addr (c # t) = None"
    using assms(2) by (simp add: read_ipv6_addr_def strip_prefix_def)
  then show ?thesis by (simp add: parse_ip_def q)
qed

end
