(* ===== verification/Byte_Stream.thy ===== *)
theory Byte_Stream
  imports Rust_Net
begin

text \<open>
  The peer side of an asynchronous byte stream (\<^verbatim>\<open>AsyncRead + AsyncWrite\<close>): everything the
  peer will still send, how reading past it ends, everything written so far, and how many
  more bytes can be written before the stream breaks. Handlers are state transformers
  over it that stop at the first error, which is what \<^verbatim>\<open>?\<close> does after each \<^verbatim>\<open>await\<close>.
\<close>

datatype io_kind =
    UnexpectedEof | BrokenPipe | ConnectionReset | ConnectionAborted | NotConnected
  | WouldBlock | Interrupted | InvalidData | TimedOut | OtherIo

record bstream =
  rx :: bytes
  rx_end :: io_kind
  tx :: bytes
  tx_cap :: "nat option"

definition stream_of :: "bytes \<Rightarrow> bstream" where
  "stream_of bs = \<lparr> rx = bs, rx_end = UnexpectedEof, tx = [], tx_cap = None \<rparr>"

type_synonym ('e, 'a) io = "bstream \<Rightarrow> ('e + 'a) \<times> bstream"

definition io_return :: "'a \<Rightarrow> ('e, 'a) io" where
  "io_return x s = (Inr x, s)"

definition io_fail :: "'e \<Rightarrow> ('e, 'a) io" where
  "io_fail e s = (Inl e, s)"

definition io_bind :: "('e, 'a) io \<Rightarrow> ('a \<Rightarrow> ('e, 'b) io) \<Rightarrow> ('e, 'b) io" where
  "io_bind m f s = (case m s of (Inl e, t) \<Rightarrow> (Inl e, t) | (Inr x, t) \<Rightarrow> f x t)"

definition io_lift :: "'e + 'a \<Rightarrow> ('e, 'a) io" where
  "io_lift r s = (r, s)"

text \<open>
  \<open>read_exact conv n\<close> is \<^verbatim>\<open>read_exact\<close> into a buffer of \<open>n\<close> bytes, \<open>conv\<close> the \<^verbatim>\<open>From\<close>
  conversion of the I/O error. A stream that ends early has lost the bytes before the end.
\<close>

definition read_exact :: "(io_kind \<Rightarrow> 'e) \<Rightarrow> nat \<Rightarrow> ('e, bytes) io" where
  "read_exact conv n s =
     (if n \<le> length (rx s) then (Inr (take n (rx s)), s\<lparr>rx := drop n (rx s)\<rparr>)
      else (Inl (conv (rx_end s)), s\<lparr>rx := []\<rparr>))"

definition write_all :: "(io_kind \<Rightarrow> 'e) \<Rightarrow> bytes \<Rightarrow> ('e, unit) io" where
  "write_all conv bs s =
     (case tx_cap s of
        None \<Rightarrow> (Inr (), s\<lparr>tx := tx s @ bs\<rparr>)
      | Some n \<Rightarrow>
          (if length bs \<le> n then (Inr (), s\<lparr>tx := tx s @ bs, tx_cap := Some (n - length bs)\<rparr>)
           else (Inl (conv BrokenPipe), s\<lparr>tx := tx s @ take n bs, tx_cap := Some 0\<rparr>)))"

lemmas io_defs = io_return_def io_fail_def io_lift_def

lemma io_bind_return [simp]: "io_bind (io_return x) f = f x"
  by (simp add: fun_eq_iff io_bind_def io_return_def)

lemma io_bind_fail [simp]: "io_bind (io_fail e) f = io_fail e"
  by (simp add: fun_eq_iff io_bind_def io_fail_def)

lemma io_bind_assoc: "io_bind (io_bind m f) g = io_bind m (\<lambda>x. io_bind (f x) g)"
  by (auto simp: fun_eq_iff io_bind_def split: prod.splits sum.splits)

lemma io_bind_Inr:
  "io_bind m f s = (Inr y, u) \<longleftrightarrow> (\<exists>x t. m s = (Inr x, t) \<and> f x t = (Inr y, u))"
  by (auto simp: io_bind_def split: prod.splits sum.splits)

lemma read_exact_append [simp]:
  "rx s = bs @ r \<Longrightarrow> length bs = n \<Longrightarrow> read_exact conv n s = (Inr bs, s\<lparr>rx := r\<rparr>)"
  by (auto simp: read_exact_def)

lemma io_bind_read [simp]:
  "rx s = bs @ r \<Longrightarrow> length bs = n \<Longrightarrow> io_bind (read_exact conv n) f s = f bs (s\<lparr>rx := r\<rparr>)"
  by (simp add: io_bind_def)

lemma io_bind_eq: "m s = (Inr x, t) \<Longrightarrow> io_bind m f s = f x t"
  by (simp add: io_bind_def)

text \<open>Reading a literal prefix: \<open>take\<close> and \<open>drop\<close> of a numeral compute.\<close>

lemma io_bind_read_exact:
  "io_bind (read_exact conv n) f s =
     (if n \<le> length (rx s) then f (take n (rx s)) (s\<lparr>rx := drop n (rx s)\<rparr>)
      else (Inl (conv (rx_end s)), s\<lparr>rx := []\<rparr>))"
  by (simp add: io_bind_def read_exact_def)

lemma read_exact_short [simp]:
  "length (rx s) < n \<Longrightarrow> read_exact conv n s = (Inl (conv (rx_end s)), s\<lparr>rx := []\<rparr>)"
  by (simp add: read_exact_def)

lemma read_exact_Inr:
  "read_exact conv n s = (Inr bs, t) \<longleftrightarrow>
     n \<le> length (rx s) \<and> bs = take n (rx s) \<and> t = s\<lparr>rx := drop n (rx s)\<rparr>"
  by (auto simp: read_exact_def)

lemma write_all_unlimited [simp]:
  "tx_cap s = None \<Longrightarrow> write_all conv bs s = (Inr (), s\<lparr>tx := tx s @ bs\<rparr>)"
  by (simp add: write_all_def)

lemma io_bind_write [simp]:
  "tx_cap s = None \<Longrightarrow> io_bind (write_all conv bs) f s = f () (s\<lparr>tx := tx s @ bs\<rparr>)"
  by (simp add: io_bind_def)

lemma read_exact_tx [simp]: "tx (snd (read_exact conv n s)) = tx s"
  by (simp add: read_exact_def)

lemma write_all_rx [simp]: "rx (snd (write_all conv bs s)) = rx s"
  by (auto simp: write_all_def split: option.splits)

lemma stream_of_simps [simp]:
  "rx (stream_of bs) = bs" "rx_end (stream_of bs) = UnexpectedEof"
  "tx (stream_of bs) = []" "tx_cap (stream_of bs) = None"
  by (simp_all add: stream_of_def)

lemma rx_same: "rx s = x \<Longrightarrow> s\<lparr>rx := x\<rparr> = s"
  by (cases s) simp

end
