(* ===== verification/Socks.thy ===== *)
theory Socks
  imports Byte_Stream
begin

text \<open>
  The proxy handlers (\<^verbatim>\<open>crates/socks\<close>): SOCKS5 with optional user/password authentication,
  SOCKS4 and 4a, HTTP CONNECT, and the dispatch on the first byte. The upstream connector
  and the bidirectional copy of the runtime are parameters; a session returns its result,
  the client stream, the counters and the targets it asked the upstream for.
\<close>

datatype socks_error =
    SIo io_kind | SProtocol string | AuthRequired | AuthFailed | CommandNotSupported
  | AddressNotSupported | Upstream string | Stopped

subsection \<open>Counters and relay\<close>

record proxy_stats =
  accepted :: u64
  active :: u64
  bytes_up :: u64
  bytes_down :: u64

definition record_relay :: "proxy_stats \<Rightarrow> u64 \<Rightarrow> u64 \<Rightarrow> proxy_stats" where
  "record_relay st a_to_b b_to_a =
     st\<lparr>bytes_up := bytes_up st + a_to_b, bytes_down := bytes_down st + b_to_a\<rparr>"

type_synonym 'u connector = "string \<Rightarrow> u16 \<Rightarrow> socks_error + 'u"
type_synonym 'u copier = "bstream \<Rightarrow> 'u \<Rightarrow> (io_kind + u64 \<times> u64) \<times> bstream"

definition relay_both :: "'u copier \<Rightarrow> bstream \<Rightarrow> 'u \<Rightarrow> (io_kind + u64 \<times> u64) \<times> bstream" where
  "relay_both copy c up =
     (case copy c up of
        (Inr v, d) \<Rightarrow> (Inr v, d)
      | (Inl e, d) \<Rightarrow>
          (if e = BrokenPipe then Inr (0, 0) else if e = ConnectionReset then Inr (0, 0) else Inl e, d))"

record session =
  sess_result :: "socks_error + unit"
  sess_client :: bstream
  sess_stats :: "proxy_stats option"
  sess_connects :: "(string \<times> u16) list"

definition relay_session :: "'u copier \<Rightarrow> bstream \<Rightarrow> 'u \<Rightarrow> proxy_stats option \<Rightarrow> (string \<times> u16) list \<Rightarrow> session" where
  "relay_session copy c up stats connects =
     (case relay_both copy c up of
        (r, d) \<Rightarrow>
          \<lparr> sess_result = Inr (), sess_client = d,
            sess_stats = (case r of Inl e \<Rightarrow> stats
                                  | Inr (up_n, down_n) \<Rightarrow> map_option (\<lambda>s. record_relay s up_n down_n) stats),
            sess_connects = connects \<rparr>)"

definition failed_session :: "socks_error \<Rightarrow> bstream \<Rightarrow> proxy_stats option \<Rightarrow> (string \<times> u16) list \<Rightarrow> session" where
  "failed_session e c stats connects =
     \<lparr> sess_result = Inl e, sess_client = c, sess_stats = stats, sess_connects = connects \<rparr>"

subsection \<open>SOCKS5\<close>

definition VER :: u8 where "VER = 0x05"
definition AUTH_NONE :: u8 where "AUTH_NONE = 0x00"
definition AUTH_USERPASS :: u8 where "AUTH_USERPASS = 0x02"
definition AUTH_NO_ACCEPTABLE :: u8 where "AUTH_NO_ACCEPTABLE = 0xFF"
definition CMD_CONNECT :: u8 where "CMD_CONNECT = 0x01"
definition ATYP_IPV4 :: u8 where "ATYP_IPV4 = 0x01"
definition ATYP_DOMAIN :: u8 where "ATYP_DOMAIN = 0x03"
definition ATYP_IPV6 :: u8 where "ATYP_IPV6 = 0x04"
definition REP_SUCCESS :: u8 where "REP_SUCCESS = 0x00"
definition REP_GENERAL :: u8 where "REP_GENERAL = 0x01"
definition REP_CMD_UNSUP :: u8 where "REP_CMD_UNSUP = 0x07"
definition REP_ATYP_UNSUP :: u8 where "REP_ATYP_UNSUP = 0x08"

lemmas socks5_consts = VER_def AUTH_NONE_def AUTH_USERPASS_def AUTH_NO_ACCEPTABLE_def CMD_CONNECT_def
  ATYP_IPV4_def ATYP_DOMAIN_def ATYP_IPV6_def REP_SUCCESS_def REP_GENERAL_def REP_CMD_UNSUP_def REP_ATYP_UNSUP_def

record socks5_auth =
  username :: "string option"
  password :: "string option"

definition auth_none :: socks5_auth where
  "auth_none = \<lparr> username = None, password = None \<rparr>"

definition auth_required :: "string \<Rightarrow> string \<Rightarrow> socks5_auth" where
  "auth_required user pass = \<lparr> username = Some user, password = Some pass \<rparr>"

definition write_reply :: "u8 \<Rightarrow> (socks_error, unit) io" where
  "write_reply rep =
     io_bind (write_all SIo ([VER, rep, 0x00, ATYP_IPV4] @ replicate 6 0)) (\<lambda>_.
       if rep = REP_ATYP_UNSUP then io_fail AddressNotSupported else io_return ())"

definition show_octets :: "bytes \<Rightarrow> string" where
  "show_octets a =
     show_nat (unat (a ! 0)) @ ''.'' @ show_nat (unat (a ! 1)) @ ''.'' @
     show_nat (unat (a ! 2)) @ ''.'' @ show_nat (unat (a ! 3))"

definition read_port_be :: "(socks_error, u16) io" where
  "read_port_be = io_bind (read_exact SIo 2) (\<lambda>b. io_return (word_of_nat (of_be b)))"

definition read_address :: "u8 \<Rightarrow> (socks_error, string \<times> u16) io" where
  "read_address atyp =
     (if atyp = ATYP_IPV4 then
        io_bind (read_exact SIo 4) (\<lambda>addr.
        io_bind read_port_be (\<lambda>port. io_return (show_octets addr, port)))
      else if atyp = ATYP_DOMAIN then
        io_bind (read_exact SIo 1) (\<lambda>len.
        io_bind (read_exact SIo (unat (len ! 0))) (\<lambda>domain.
        io_bind read_port_be (\<lambda>port.
          case from_utf8 domain of
            None \<Rightarrow> io_fail (SProtocol ''invalid domain utf-8'')
          | Some host \<Rightarrow> io_return (host, port))))
      else if atyp = ATYP_IPV6 then
        io_bind (read_exact SIo 16) (\<lambda>addr.
        io_bind read_port_be (\<lambda>port. io_return (show_ipv6 (v6_from_octets addr), port)))
      else io_fail AddressNotSupported)"

definition select_method :: "socks5_auth \<Rightarrow> bytes \<Rightarrow> u8" where
  "select_method auth methods =
     (if username auth \<noteq> None then
        (if AUTH_USERPASS \<in> set methods then AUTH_USERPASS else AUTH_NO_ACCEPTABLE)
      else if AUTH_NONE \<in> set methods then AUTH_NONE
      else AUTH_NO_ACCEPTABLE)"

definition socks5_greeting :: "socks5_auth \<Rightarrow> (socks_error, u8) io" where
  "socks5_greeting auth =
     io_bind (read_exact SIo 2) (\<lambda>header.
       if header ! 0 \<noteq> VER then
         io_fail (SProtocol (''invalid socks version '' @ show_nat (unat (header ! 0))))
       else
         let nmethods = unat (header ! 1) in
         io_bind (if 0 < nmethods then read_exact SIo nmethods else io_return []) (\<lambda>methods.
           let selected = select_method auth methods in
           io_bind (write_all SIo [VER, selected]) (\<lambda>_.
             if selected = AUTH_NO_ACCEPTABLE then io_fail AuthRequired else io_return selected)))"

definition credentials_ok :: "socks5_auth \<Rightarrow> bytes \<Rightarrow> bytes \<Rightarrow> bool" where
  "credentials_ok auth uname pass =
     (case (username auth, password auth) of
        (Some u, Some p) \<Rightarrow> as_bytes u = uname \<and> as_bytes p = pass
      | _ \<Rightarrow> False)"

definition socks5_userpass :: "socks5_auth \<Rightarrow> (socks_error, unit) io" where
  "socks5_userpass auth =
     io_bind (read_exact SIo 1) (\<lambda>ver.
     io_bind (read_exact SIo 1) (\<lambda>ulen.
     io_bind (read_exact SIo (unat (ulen ! 0))) (\<lambda>uname.
     io_bind (read_exact SIo 1) (\<lambda>plen.
     io_bind (read_exact SIo (unat (plen ! 0))) (\<lambda>pass.
       let okay = credentials_ok auth uname pass in
       io_bind (write_all SIo [0x01, if okay then 0x00 else 0x01]) (\<lambda>_.
         if \<not> okay then io_fail AuthFailed else io_return ()))))))"

definition socks5_request :: "(socks_error, u8 \<times> string \<times> u16) io" where
  "socks5_request =
     io_bind (read_exact SIo 4) (\<lambda>req.
       if req ! 0 \<noteq> VER then io_fail (SProtocol ''bad request version'')
       else io_bind (read_address (req ! 3)) (\<lambda>hp. io_return (req ! 1, hp)))"

text \<open>Everything \<^verbatim>\<open>handle_socks5\<close> does before it asks the upstream for a connection.\<close>

definition socks5_handshake :: "socks5_auth \<Rightarrow> (socks_error, string \<times> u16) io" where
  "socks5_handshake auth =
     io_bind (socks5_greeting auth) (\<lambda>selected.
     io_bind (if selected = AUTH_USERPASS then socks5_userpass auth else io_return ()) (\<lambda>_.
     io_bind socks5_request (\<lambda>(cmd, host, port).
       if cmd \<noteq> CMD_CONNECT then io_bind (write_reply REP_CMD_UNSUP) (\<lambda>_. io_fail CommandNotSupported)
       else io_return (host, port))))"

definition handle_socks5 :: "'u connector \<Rightarrow> 'u copier \<Rightarrow> socks5_auth \<Rightarrow> proxy_stats option \<Rightarrow> bstream \<Rightarrow> session" where
  "handle_socks5 connect copy auth stats client =
     (case socks5_handshake auth client of
        (Inl e, c) \<Rightarrow> failed_session e c stats []
      | (Inr (host, port), c) \<Rightarrow>
          (case connect host port of
             Inr up \<Rightarrow>
               (case write_reply REP_SUCCESS c of
                  (Inl e, d) \<Rightarrow> failed_session e d stats [(host, port)]
                | (Inr u, d) \<Rightarrow> relay_session copy d up stats [(host, port)])
           | Inl e \<Rightarrow>
               (case write_reply REP_GENERAL c of
                  (Inl e', d) \<Rightarrow> failed_session e' d stats [(host, port)]
                | (Inr u, d) \<Rightarrow> failed_session e d stats [(host, port)])))"

subsection \<open>SOCKS4 and 4a\<close>

definition VER4 :: u8 where "VER4 = 0x04"
definition REP_GRANTED :: u8 where "REP_GRANTED = 0x5A"
definition REP_REJECTED :: u8 where "REP_REJECTED = 0x5B"

definition write_reply4 :: "u8 \<Rightarrow> (socks_error, unit) io" where
  "write_reply4 code = write_all SIo ([0x00, code] @ replicate 6 0)"

text \<open>The two loops over null-terminated fields: at most \<open>limit\<close> bytes before the terminator.\<close>

function read_nul :: "nat \<Rightarrow> string \<Rightarrow> bytes \<Rightarrow> (socks_error, bytes) io" where
  "read_nul limit msg acc s =
     (case read_exact SIo 1 s of
        (Inl e, t) \<Rightarrow> (Inl e, t)
      | (Inr b, t) \<Rightarrow>
          if b ! 0 = 0 then (Inr acc, t)
          else let acc' = acc @ [b ! 0] in
            if limit < length acc' then (Inl (SProtocol msg), t)
            else read_nul limit msg acc' t)"
  by pat_completeness auto
termination
  by (relation "measure (\<lambda>(l, m, acc, s). length (rx s))") (auto simp: read_exact_def split: if_splits)

declare read_nul.simps [simp del]

definition socks4_handshake :: "(socks_error, string \<times> u16) io" where
  "socks4_handshake =
     io_bind (read_exact SIo 8) (\<lambda>hdr.
       if hdr ! 0 \<noteq> VER4 then io_fail (SProtocol ''not socks4'')
       else if hdr ! 1 \<noteq> CMD_CONNECT then
         io_bind (write_reply4 REP_REJECTED) (\<lambda>_. io_fail CommandNotSupported)
       else
         let port = word_of_nat (of_be [hdr ! 2, hdr ! 3]);
             ip = [hdr ! 4, hdr ! 5, hdr ! 6, hdr ! 7] in
         io_bind (read_nul 512 ''userid too long'' []) (\<lambda>userid.
           if ip ! 0 = 0 \<and> ip ! 1 = 0 \<and> ip ! 2 = 0 \<and> ip ! 3 \<noteq> 0 then
             io_bind (read_nul 255 ''domain too long'' []) (\<lambda>domain.
               case from_utf8 domain of
                 None \<Rightarrow> io_fail (SProtocol ''invalid domain'')
               | Some host \<Rightarrow> io_return (host, port))
           else io_return (show_octets ip, port)))"

definition handle_socks4 :: "'u connector \<Rightarrow> 'u copier \<Rightarrow> proxy_stats option \<Rightarrow> bstream \<Rightarrow> session" where
  "handle_socks4 connect copy stats client =
     (case socks4_handshake client of
        (Inl e, c) \<Rightarrow> failed_session e c stats []
      | (Inr (host, port), c) \<Rightarrow>
          (case connect host port of
             Inr up \<Rightarrow>
               (case write_reply4 REP_GRANTED c of
                  (Inl e, d) \<Rightarrow> failed_session e d stats [(host, port)]
                | (Inr u, d) \<Rightarrow> relay_session copy d up stats [(host, port)])
           | Inl e \<Rightarrow>
               (case write_reply4 REP_REJECTED c of
                  (Inl e', d) \<Rightarrow> failed_session e' d stats [(host, port)]
                | (Inr u, d) \<Rightarrow> failed_session e d stats [(host, port)])))"

subsection \<open>HTTP CONNECT\<close>

definition split_host_port :: "string \<Rightarrow> socks_error + string \<times> u16" where
  "split_host_port target =
     (case strip_prefix ''['' target of
        Some rest \<Rightarrow>
          and_then (ok_or (SProtocol ''invalid IPv6 CONNECT target'') (rsplit_once_str '']:'' rest)) (\<lambda>(host, port_part).
          and_then (ok_or (SProtocol ''invalid port'') (parse_u16 port_part)) (\<lambda>port. Inr (host, port)))
      | None \<Rightarrow>
          (case rsplit_once CHR '':'' target of
             Some (host, port_part) \<Rightarrow>
               and_then (ok_or (SProtocol ''invalid port'') (parse_u16 port_part)) (\<lambda>port. Inr (host, port))
           | None \<Rightarrow> Inl (SProtocol ''CONNECT target missing port'')))"

text \<open>
  \<^verbatim>\<open>read_line\<close> returns the bytes up to and including the next LF, or what is left at the end
  of the stream, and fails when they are not UTF-8.
\<close>

definition read_line :: "(socks_error, string) io" where
  "read_line s =
     (let line = takeWhile (\<lambda>b. b \<noteq> 10) (rx s); rest = dropWhile (\<lambda>b. b \<noteq> 10) (rx s) in
      case rest of
        [] \<Rightarrow>
          (if rx_end s \<noteq> UnexpectedEof then (Inl (SIo (rx_end s)), s\<lparr>rx := []\<rparr>)
           else case from_utf8 line of
             None \<Rightarrow> (Inl (SIo InvalidData), s\<lparr>rx := []\<rparr>)
           | Some l \<Rightarrow> (Inr l, s\<lparr>rx := []\<rparr>))
      | b # rest' \<Rightarrow>
          (case from_utf8 (line @ [b]) of
             None \<Rightarrow> (Inl (SIo InvalidData), s\<lparr>rx := rest'\<rparr>)
           | Some l \<Rightarrow> (Inr l, s\<lparr>rx := rest'\<rparr>)))"

lemma length_takeWhile_dropWhile: "length (takeWhile P xs) + length (dropWhile P xs) = length xs"
  by (metis length_append takeWhile_dropWhile_id)

lemma read_line_shrinks:
  assumes "read_line s = (Inr l, t)" shows "length (rx t) + length l = length (rx s)"
proof -
  have "from_utf8 bs = Some l \<Longrightarrow> length l = length bs" for bs
    by (auto simp: from_utf8_def split: if_splits)
  then show ?thesis
    using assms length_takeWhile_dropWhile [of "\<lambda>b. b \<noteq> 10" "rx s"]
    by (auto simp: read_line_def Let_def split: list.splits if_splits option.splits)
qed

lemma read_line_less: "read_line s = (Inr l, t) \<Longrightarrow> l \<noteq> [] \<Longrightarrow> length (rx t) < length (rx s)"
  using read_line_shrinks [of s l t] by (cases l) auto

function consume_headers :: "(socks_error, unit) io" where
  "consume_headers s =
     (case read_line s of
        (Inl e, t) \<Rightarrow> (Inl e, t)
      | (Inr line, t) \<Rightarrow>
          if line = CRLF \<or> line = [LF] \<or> line = [] then (Inr (), t)
          else if 8192 < length line then (Inl (SProtocol ''header too long''), t)
          else consume_headers t)"
  by pat_completeness auto
termination
  by (relation "measure (\<lambda>s. length (rx s))") (auto dest: read_line_less [OF sym])

declare consume_headers.simps [simp del]

definition http_handshake :: "(socks_error, string \<times> u16) io" where
  "http_handshake =
     io_bind read_line (\<lambda>request_line.
       case split_whitespace request_line of
         m # target # ps \<Rightarrow>
           (if \<not> eq_ignore_ascii_case m ''CONNECT'' then io_fail (SProtocol ''expected HTTP CONNECT'')
            else io_bind (io_lift (split_host_port target)) (\<lambda>hp.
                 io_bind consume_headers (\<lambda>_. io_return hp)))
       | _ \<Rightarrow> io_fail (SProtocol ''expected HTTP CONNECT''))"

definition OK_RESPONSE :: string where
  "OK_RESPONSE = ''HTTP/1.1 200 Connection Established'' @ CRLF @ CRLF"

definition BAD_GATEWAY :: string where
  "BAD_GATEWAY = ''HTTP/1.1 502 Bad Gateway'' @ CRLF @ ''Content-Length: 0'' @ CRLF @ CRLF"

text \<open>
  The handler reads through a \<^verbatim>\<open>BufReader\<close> and then takes the stream out of it: the
  \<open>buffered\<close> bytes the reader had fetched beyond the headers are dropped with it. How many
  they are depends on how the client's bytes arrived.
\<close>

definition handle_http_connect ::
  "'u connector \<Rightarrow> 'u copier \<Rightarrow> nat \<Rightarrow> proxy_stats option \<Rightarrow> bstream \<Rightarrow> session" where
  "handle_http_connect connect copy buffered stats client =
     (case http_handshake client of
        (Inl e, c) \<Rightarrow> failed_session e c stats []
      | (Inr (host, port), c0) \<Rightarrow>
          let c = c0\<lparr>rx := drop buffered (rx c0)\<rparr> in
          (case connect host port of
             Inr up \<Rightarrow>
               (case write_all SIo (as_bytes OK_RESPONSE) c of
                  (Inl e, d) \<Rightarrow> failed_session e d stats [(host, port)]
                | (Inr u, d) \<Rightarrow> relay_session copy d up stats [(host, port)])
           | Inl e \<Rightarrow>
               (case write_all SIo (as_bytes BAD_GATEWAY) c of
                  (_, d) \<Rightarrow> failed_session e d stats [(host, port)])))"

subsection \<open>Dispatch\<close>

definition version_prefixed :: "u8 \<Rightarrow> bstream \<Rightarrow> bstream" where
  "version_prefixed first s = s\<lparr>rx := first # rx s\<rparr>"

definition dispatch_socks ::
  "'u connector \<Rightarrow> 'u copier \<Rightarrow> socks5_auth \<Rightarrow> proxy_stats option \<Rightarrow> bstream \<Rightarrow> session" where
  "dispatch_socks connect copy auth stats stream =
     (case read_exact SIo 1 stream of
        (Inl e, c) \<Rightarrow> failed_session e c stats []
      | (Inr ver, c) \<Rightarrow>
          if ver ! 0 = 0x05 then handle_socks5 connect copy auth stats (version_prefixed (ver ! 0) c)
          else if ver ! 0 = 0x04 then handle_socks4 connect copy stats (version_prefixed (ver ! 0) c)
          else failed_session (SProtocol (''unsupported proxy version 0x'' @ show_hex (unat (ver ! 0)))) c stats [])"

lemma dispatch_socks_cases:
  assumes "rx s = b # r"
  shows "dispatch_socks connect copy auth stats s =
     (if b = 5 then handle_socks5 connect copy auth stats s
      else if b = 4 then handle_socks4 connect copy stats s
      else failed_session (SProtocol (''unsupported proxy version 0x'' @ show_hex (unat b))) (s\<lparr>rx := r\<rparr>) stats [])"
  using assms by (cases "b = 4"; cases "b = 5")
    (simp_all add: dispatch_socks_def read_exact_def version_prefixed_def rx_same)

lemma dispatch_socks4:
  "rx s = 4 # r \<Longrightarrow> dispatch_socks connect copy auth stats s = handle_socks4 connect copy stats s"
  by (simp add: dispatch_socks_cases)

subsection \<open>No connection without the credentials\<close>

lemma read_exact_InrD:
  "read_exact conv n s = (Inr bs, t) \<Longrightarrow> rx s = bs @ rx t \<and> length bs = n \<and> tx_cap t = tx_cap s"
  by (auto simp: read_exact_Inr)

lemma write_all_InrD: "write_all conv bs s = (Inr u, t) \<Longrightarrow> rx t = rx s"
  using write_all_rx [of conv bs s] by simp

lemma length_1_conv: "length xs = Suc 0 \<longleftrightarrow> (\<exists>a. xs = [a])"
  by (auto simp: length_Suc_conv)

lemma greeting_InrD:
  assumes "socks5_greeting auth s = (Inr sel, t)"
  shows "\<exists>nm methods. rx s = [VER, nm] @ methods @ rx t \<and> length methods = unat nm
           \<and> sel = select_method auth methods \<and> sel \<noteq> AUTH_NO_ACCEPTABLE"
proof -
  from assms obtain header s1 where h: "read_exact SIo 2 s = (Inr header, s1)" "header ! 0 = VER"
    and g: "io_bind (if 0 < unat (header ! 1) then read_exact SIo (unat (header ! 1)) else io_return []) (\<lambda>methods.
           io_bind (write_all SIo [VER, select_method auth methods]) (\<lambda>_.
             if select_method auth methods = AUTH_NO_ACCEPTABLE then io_fail AuthRequired
             else io_return (select_method auth methods))) s1 = (Inr sel, t)"
    by (auto simp: socks5_greeting_def io_bind_Inr Let_def io_defs split: if_splits)
  from g obtain methods s2 where m: "(if 0 < unat (header ! 1) then read_exact SIo (unat (header ! 1)) else io_return []) s1 = (Inr methods, s2)"
    and w: "io_bind (write_all SIo [VER, select_method auth methods]) (\<lambda>_.
             if select_method auth methods = AUTH_NO_ACCEPTABLE then io_fail AuthRequired
             else io_return (select_method auth methods)) s2 = (Inr sel, t)"
    by (auto simp: io_bind_Inr)
  from h obtain nm where hd: "rx s = [VER, nm] @ rx s1" "header = [VER, nm]"
    using read_exact_InrD [OF h(1)] by (auto simp: length_2_conv)
  have "rx s1 = methods @ rx s2 \<and> length methods = unat nm"
  proof (cases "0 < unat nm")
    case True
    then have "read_exact SIo (unat nm) s1 = (Inr methods, s2)" using m hd(2) by simp
    from read_exact_InrD [OF this] show ?thesis by blast
  qed (use m hd(2) in \<open>simp add: io_defs\<close>)
  moreover have "rx s2 = rx t \<and> sel = select_method auth methods \<and> sel \<noteq> AUTH_NO_ACCEPTABLE"
    using w by (auto simp: io_bind_Inr io_defs dest!: write_all_InrD split: if_splits)
  ultimately show ?thesis using hd by auto
qed

lemma userpass_InrD:
  assumes "socks5_userpass auth s = (Inr u, t)"
  shows "\<exists>v ul uname pl pass. rx s = [v, ul] @ uname @ [pl] @ pass @ rx t
           \<and> length uname = unat ul \<and> length pass = unat pl \<and> credentials_ok auth uname pass"
proof -
  from assms obtain ver s1 ulen s2 uname s3 plen s4 pass s5 where
    r: "read_exact SIo 1 s = (Inr ver, s1)" "read_exact SIo 1 s1 = (Inr ulen, s2)"
       "read_exact SIo (unat (ulen ! 0)) s2 = (Inr uname, s3)" "read_exact SIo 1 s3 = (Inr plen, s4)"
       "read_exact SIo (unat (plen ! 0)) s4 = (Inr pass, s5)"
    and w: "io_bind (write_all SIo [0x01, if credentials_ok auth uname pass then 0x00 else 0x01]) (\<lambda>_.
         if \<not> credentials_ok auth uname pass then io_fail AuthFailed else io_return ()) s5 = (Inr u, t)"
    by (auto simp: socks5_userpass_def io_bind_Inr Let_def)
  have "rx s5 = rx t \<and> credentials_ok auth uname pass"
    using w by (auto simp: io_bind_Inr io_defs dest!: write_all_InrD split: if_splits)
  moreover obtain v ul pl where b: "ver = [v]" "ulen = [ul]" "plen = [pl]"
    using r(1,2,4) [THEN read_exact_InrD] by (auto simp: length_1_conv)
  moreover have "rx s = [v, ul] @ uname @ [pl] @ pass @ rx s5"
    using r [THEN read_exact_InrD] b by simp
  moreover have "length uname = unat ul" "length pass = unat pl"
    using r(3,5) [THEN read_exact_InrD] b by simp_all
  ultimately show ?thesis by metis
qed

text \<open>
  C3. When the proxy is started with a user name and a password, a SOCKS5 client reaches
  the upstream only after it has offered the user/password method and sent exactly these
  credentials.
\<close>

theorem socks5_requires_credentials:
  assumes "sess_connects (handle_socks5 connect copy (auth_required user pass) stats client) \<noteq> []"
  shows "\<exists>nm methods v ul pl rest.
      rx client = [VER, nm] @ methods @ [v, ul] @ as_bytes user @ [pl] @ as_bytes pass @ rest
    \<and> length methods = unat nm \<and> AUTH_USERPASS \<in> set methods
    \<and> length user = unat ul \<and> length pass = unat pl"
proof -
  let ?auth = "auth_required user pass"
  obtain hp c where "socks5_handshake ?auth client = (Inr hp, c)"
    using assms by (auto simp: handle_socks5_def failed_session_def split: prod.splits sum.splits)
  then obtain sel s1 s2 where g: "socks5_greeting ?auth client = (Inr sel, s1)"
    and a: "(if sel = AUTH_USERPASS then socks5_userpass ?auth else io_return ()) s1 = (Inr (), s2)"
    by (auto simp: socks5_handshake_def io_bind_Inr)
  from greeting_InrD [OF g] obtain nm methods where
    m: "rx client = [VER, nm] @ methods @ rx s1" "length methods = unat nm"
       "sel = select_method ?auth methods" "sel \<noteq> AUTH_NO_ACCEPTABLE" by blast
  then have sel: "sel = AUTH_USERPASS" "AUTH_USERPASS \<in> set methods"
    by (auto simp: select_method_def auth_required_def split: if_splits)
  with a obtain v ul uname pl pw where
    "rx s1 = [v, ul] @ uname @ [pl] @ pw @ rx s2" "length uname = unat ul" "length pw = unat pl"
    "credentials_ok ?auth uname pw"
    using userpass_InrD [of ?auth s1] by auto
  moreover from this have "uname = as_bytes user" "pw = as_bytes pass"
    by (simp_all add: credentials_ok_def auth_required_def)
  ultimately have "rx client = [VER, nm] @ methods @ [v, ul] @ as_bytes user @ [pl] @ as_bytes pass @ rx s2"
    "length user = unat ul" "length pass = unat pl"
    using m(1) by simp_all
  then show ?thesis using m(2) sel(2) by blast
qed

subsection \<open>Complete SOCKS5 conversations\<close>

datatype target = TDomain string | TV4 u32 | TV6 u128

fun target_host :: "target \<Rightarrow> string" where
  "target_host (TDomain d) = d"
| "target_host (TV4 a) = show_ipv4 a"
| "target_host (TV6 a) = show_ipv6 a"

fun target_bytes :: "target \<Rightarrow> bytes" where
  "target_bytes (TDomain d) = [ATYP_DOMAIN, word_of_nat (length d)] @ as_bytes d"
| "target_bytes (TV4 a) = [ATYP_IPV4] @ octets4 a"
| "target_bytes (TV6 a) = [ATYP_IPV6] @ octets6 a"

fun target_ok :: "target \<Rightarrow> bool" where
  "target_ok (TDomain d) \<longleftrightarrow> length d < 256 \<and> valid_utf8 (as_bytes d)"
| "target_ok (TV4 a) \<longleftrightarrow> True"
| "target_ok (TV6 a) \<longleftrightarrow> True"

fun userpass_bytes :: "string option \<Rightarrow> string option \<Rightarrow> bytes" where
  "userpass_bytes (Some u) (Some p) =
     [0x01, word_of_nat (length u)] @ as_bytes u @ [word_of_nat (length p)] @ as_bytes p"
| "userpass_bytes _ _ = []"

text \<open>What a client with the right credentials sends, and what it is told before the reply.\<close>

definition client_hello :: "socks5_auth \<Rightarrow> bytes \<Rightarrow> target \<Rightarrow> u16 \<Rightarrow> bytes" where
  "client_hello auth methods t port =
     [VER, word_of_nat (length methods)] @ methods @ userpass_bytes (username auth) (password auth)
     @ [VER, CMD_CONNECT, 0x00] @ target_bytes t @ to_be 2 (unat port)"

definition server_hello :: "socks5_auth \<Rightarrow> bytes" where
  "server_hello auth =
     (if username auth = None then [VER, AUTH_NONE] else [VER, AUTH_USERPASS, 0x01, 0x00])"

definition reply_bytes :: "u8 \<Rightarrow> bytes" where
  "reply_bytes rep = [VER, rep, 0x00, ATYP_IPV4, 0, 0, 0, 0, 0, 0]"

definition hello_ok :: "socks5_auth \<Rightarrow> bytes \<Rightarrow> target \<Rightarrow> bool" where
  "hello_ok auth methods t \<longleftrightarrow> length methods < 256 \<and> target_ok t
     \<and> (case (username auth, password auth) of
          (None, None) \<Rightarrow> AUTH_NONE \<in> set methods
        | (Some u, Some p) \<Rightarrow> AUTH_USERPASS \<in> set methods \<and> length u < 256 \<and> length p < 256
        | _ \<Rightarrow> False)"

lemma show_octets_octets4: "show_octets (octets4 a) = show_ipv4 a"
proof -
  have n: "unat a < 4294967296" by (rule unat_word_bound)
  have "octets4 a = [word_of_nat (unat a div 16777216), word_of_nat (unat a div 65536 mod 256),
      word_of_nat (unat a div 256 mod 256), word_of_nat (unat a mod 256)]"
    unfolding octets4_def to_be_def four using n by (simp add: div_mult2_eq [symmetric])
  moreover have "unat a div 16777216 < 256" using n by (simp add: less_mult_imp_div_less)
  ultimately show ?thesis by (simp add: show_octets_def show_ipv4_def Let_def)
qed

lemma read_port_ok:
  "rx s = to_be 2 (unat p) @ r \<Longrightarrow> read_port_be s = (Inr p, s\<lparr>rx := r\<rparr>)"
  by (simp add: read_port_be_def io_defs)

lemma read_address_ok:
  assumes "target_ok t" and "rx s = tl (target_bytes t) @ to_be 2 (unat port) @ r"
  shows "read_address (hd (target_bytes t)) s = (Inr (target_host t, port), s\<lparr>rx := r\<rparr>)"
proof (cases t)
  case (TDomain d)
  then have "rx s = [word_of_nat (length d)] @ (as_bytes d @ (to_be 2 (unat port) @ r))"
    and "length d < 256" and "from_utf8 (as_bytes d) = Some d"
    using assms by (simp_all add: from_utf8_def)
  then show ?thesis
    using TDomain by (simp add: read_address_def socks5_consts io_bind_read_exact io_bind_eq [OF read_port_ok] io_defs)
next
  case (TV4 a)
  then show ?thesis
    using assms by (simp add: read_address_def socks5_consts io_bind_def [of read_port_be] read_port_ok
        io_defs show_octets_octets4)
next
  case (TV6 a)
  then show ?thesis
    using assms by (simp add: read_address_def socks5_consts io_bind_def [of read_port_be] read_port_ok io_defs)
qed

lemma greeting_ok:
  assumes "length methods < 256" and "select_method auth methods \<noteq> AUTH_NO_ACCEPTABLE"
    and "rx s = [VER, word_of_nat (length methods)] @ (methods @ r)" and "tx_cap s = None"
  shows "socks5_greeting auth s
       = (Inr (select_method auth methods), s\<lparr>rx := r, tx := tx s @ [VER, select_method auth methods]\<rparr>)"
proof -
  have "io_bind (if 0 < length methods then read_exact SIo (length methods) else io_return []) f (s\<lparr>rx := methods @ r\<rparr>)
      = f methods (s\<lparr>rx := r\<rparr>)" for f :: "bytes \<Rightarrow> (socks_error, u8) io"
    by (cases "methods = []") simp_all
  then show ?thesis
    using assms by (simp add: socks5_greeting_def Let_def io_defs io_bind_read_exact [of _ 2])
qed

lemma userpass_ok:
  assumes "username auth = Some u" "password auth = Some p" "length u < 256" "length p < 256"
    and "rx s = userpass_bytes (Some u) (Some p) @ r" and "tx_cap s = None"
  shows "socks5_userpass auth s = (Inr (), s\<lparr>rx := r, tx := tx s @ [0x01, 0x00]\<rparr>)"
proof -
  have "rx s = [0x01] @ ([word_of_nat (length u)] @ (as_bytes u @ ([word_of_nat (length p)] @ (as_bytes p @ r))))"
    using assms(5) by simp
  then show ?thesis
    using assms by (simp add: socks5_userpass_def credentials_ok_def io_defs Let_def io_bind_read_exact)
qed

lemma socks5_request_ok:
  assumes "target_ok t" and "rx s = [VER, CMD_CONNECT, 0x00] @ target_bytes t @ to_be 2 (unat port) @ r"
  shows "socks5_request s = (Inr (CMD_CONNECT, target_host t, port), s\<lparr>rx := r\<rparr>)"
proof -
  have "target_bytes t = hd (target_bytes t) # tl (target_bytes t)" by (cases t) simp_all
  then have rx: "rx s = [VER, CMD_CONNECT, 0x00, hd (target_bytes t)] @ (tl (target_bytes t) @ to_be 2 (unat port) @ r)"
    using assms(2) by simp
  have "read_address (hd (target_bytes t)) (s\<lparr>rx := tl (target_bytes t) @ to_be 2 (unat port) @ r\<rparr>)
      = (Inr (target_host t, port), s\<lparr>rx := r\<rparr>)"
    using read_address_ok [OF assms(1)] by simp
  then show ?thesis using rx by (simp add: socks5_request_def io_bind_read_exact io_bind_eq io_defs)
qed

lemma socks5_handshake_ok:
  assumes "hello_ok auth methods t" and "rx s = client_hello auth methods t port @ r" and "tx_cap s = None"
  shows "socks5_handshake auth s = (Inr (target_host t, port), s\<lparr>rx := r, tx := tx s @ server_hello auth\<rparr>)"
proof -
  let ?u = "userpass_bytes (username auth) (password auth)"
  let ?req = "[VER, CMD_CONNECT, 0x00] @ target_bytes t @ to_be 2 (unat port) @ r"
  let ?sel = "select_method auth methods"
  let ?s1 = "s\<lparr>rx := ?u @ ?req, tx := tx s @ [VER, ?sel]\<rparr>"
  have ok: "length methods < 256" "target_ok t" using assms(1) by (simp_all add: hello_ok_def)
  have sel: "?sel = (if username auth = None then AUTH_NONE else AUTH_USERPASS)"
    using assms(1) by (auto simp: hello_ok_def select_method_def split: option.splits)
  then have g: "socks5_greeting auth s = (Inr ?sel, ?s1)"
    using assms(2,3) ok(1) by (intro greeting_ok) (simp_all add: client_hello_def socks5_consts)
  have a: "(if ?sel = AUTH_USERPASS then socks5_userpass auth else io_return ()) ?s1
      = (Inr (), s\<lparr>rx := ?req, tx := tx s @ server_hello auth\<rparr>)"
  proof (cases "username auth")
    case None
    then show ?thesis using assms(1) sel
      by (simp add: hello_ok_def socks5_consts server_hello_def io_defs split: option.splits)
  next
    case (Some u)
    then obtain p where p: "password auth = Some p" "length u < 256" "length p < 256"
      using assms(1) by (auto simp: hello_ok_def split: option.splits)
    then have "socks5_userpass auth ?s1 = (Inr (), ?s1\<lparr>rx := ?req, tx := tx ?s1 @ [0x01, 0x00]\<rparr>)"
      using Some assms(3) by (intro userpass_ok [where u = u and p = p]) simp_all
    then show ?thesis using Some sel by (simp add: server_hello_def)
  qed
  have q: "socks5_request (s\<lparr>rx := ?req, tx := tx s @ server_hello auth\<rparr>)
      = (Inr (CMD_CONNECT, target_host t, port), s\<lparr>rx := r, tx := tx s @ server_hello auth\<rparr>)"
    using socks5_request_ok [OF ok(2), of "s\<lparr>rx := ?req, tx := tx s @ server_hello auth\<rparr>"] by simp
  show ?thesis
    by (simp only: socks5_handshake_def io_bind_eq [of "socks5_greeting auth", OF g]
        io_bind_eq [of "if _ then _ else _", OF a] io_bind_eq [of socks5_request, OF q] prod.case)
      (simp add: io_defs)
qed

lemma write_reply_ok:
  "tx_cap s = None \<Longrightarrow> rep \<noteq> REP_ATYP_UNSUP \<Longrightarrow> write_reply rep s = (Inr (), s\<lparr>tx := tx s @ reply_bytes rep\<rparr>)"
  by (simp add: write_reply_def reply_bytes_def io_defs eval_nat_numeral)

text \<open>
  C21. A SOCKS5 client that offers an acceptable method (and, when required, the right
  credentials) and asks for a domain name, an IPv4 or an IPv6 address gets exactly one
  upstream connection, to that host and port; it is told the method, the authentication
  result and then success or a general failure, and the relay starts with the first byte
  behind the request.
\<close>

theorem socks5_session:
  assumes "hello_ok auth methods t" and "rx client = client_hello auth methods t port @ rest"
    and "tx_cap client = None"
  shows "handle_socks5 connect copy auth stats client =
    (case connect (target_host t) port of
       Inr up \<Rightarrow> relay_session copy
                  (client\<lparr>rx := rest, tx := tx client @ server_hello auth @ reply_bytes REP_SUCCESS\<rparr>) up stats
                  [(target_host t, port)]
     | Inl e \<Rightarrow> failed_session e
                  (client\<lparr>rx := rest, tx := tx client @ server_hello auth @ reply_bytes REP_GENERAL\<rparr>) stats
                  [(target_host t, port)])"
  using assms(3)
  by (auto simp: handle_socks5_def socks5_handshake_ok [OF assms] write_reply_ok socks5_consts split: sum.splits)

definition example_domain :: target where
  "example_domain = TDomain ''a.io''"

lemma example_hello_ok:
  "hello_ok auth_none [AUTH_NONE] example_domain" "hello_ok (auth_required ''u'' ''pw'') [AUTH_NONE, AUTH_USERPASS] example_domain"
proof -
  have "valid_utf8 (as_bytes ''a.io'')" by (rule valid_utf8_ascii) (simp add: as_bytes_def byte_of_def)
  then show "hello_ok auth_none [AUTH_NONE] example_domain"
    "hello_ok (auth_required ''u'' ''pw'') [AUTH_NONE, AUTH_USERPASS] example_domain"
    by (simp_all add: hello_ok_def example_domain_def auth_none_def auth_required_def)
qed

definition example_connect :: "unit connector" where
  "example_connect host port = (if host = ''a.io'' then Inr () else Inl (Upstream ''refused''))"

definition example_copy :: "unit copier" where
  "example_copy c up = (Inr (3, 4), c)"

theorem socks5_session_witness:
  "sess_connects (handle_socks5 example_connect example_copy auth_none None
     (stream_of (client_hello auth_none [AUTH_NONE] example_domain 443 @ [1, 2]))) = [(''a.io'', 443)]"
  using socks5_session [of auth_none "[AUTH_NONE]" example_domain
      "stream_of (client_hello auth_none [AUTH_NONE] example_domain 443 @ [1, 2])" 443 "[1, 2]"
      example_connect example_copy None] example_hello_ok(1)
  by (simp add: example_connect_def example_domain_def relay_session_def relay_both_def example_copy_def)

theorem socks5_requires_credentials_witness:
  "\<exists>nm methods v ul pl rest.
      client_hello (auth_required ''u'' ''pw'') [AUTH_NONE, AUTH_USERPASS] example_domain 443
        = [VER, nm] @ methods @ [v, ul] @ as_bytes ''u'' @ [pl] @ as_bytes ''pw'' @ rest
    \<and> length methods = unat nm \<and> AUTH_USERPASS \<in> set methods
    \<and> length ''u'' = unat ul \<and> length ''pw'' = unat pl"
proof -
  let ?h = "client_hello (auth_required ''u'' ''pw'') [AUTH_NONE, AUTH_USERPASS] example_domain 443"
  have "sess_connects (handle_socks5 example_connect example_copy (auth_required ''u'' ''pw'') None (stream_of ?h)) \<noteq> []"
    using socks5_handshake_ok [OF example_hello_ok(2), of "stream_of ?h" 443 "[]"]
    by (simp add: handle_socks5_def example_domain_def example_connect_def write_reply_ok socks5_consts
        relay_session_def relay_both_def example_copy_def)
  from socks5_requires_credentials [OF this] show ?thesis by (simp only: stream_of_simps)
qed

subsection \<open>Complete SOCKS4 conversations\<close>

fun socks4_ok :: "target \<Rightarrow> bool" where
  "socks4_ok (TDomain d) \<longleftrightarrow> length d \<le> 255 \<and> valid_utf8 (as_bytes d) \<and> 0 \<notin> set (as_bytes d)"
| "socks4_ok (TV4 a) \<longleftrightarrow> 256 \<le> unat a"
| "socks4_ok (TV6 a) \<longleftrightarrow> False"

fun socks4_hello :: "target \<Rightarrow> u16 \<Rightarrow> bytes \<Rightarrow> bytes" where
  "socks4_hello (TDomain d) port userid =
     [VER4, CMD_CONNECT] @ to_be 2 (unat port) @ [0, 0, 0, 1] @ userid @ [0] @ as_bytes d @ [0]"
| "socks4_hello (TV4 a) port userid =
     [VER4, CMD_CONNECT] @ to_be 2 (unat port) @ octets4 a @ userid @ [0]"
| "socks4_hello (TV6 a) port userid = []"

definition reply4_bytes :: "u8 \<Rightarrow> bytes" where
  "reply4_bytes code = [0x00, code, 0, 0, 0, 0, 0, 0]"

lemma read_nul_ok:
  assumes "rx s = bs @ 0 # r" and "0 \<notin> set bs" and "length (acc @ bs) \<le> limit"
  shows "read_nul limit msg acc s = (Inr (acc @ bs), s\<lparr>rx := r\<rparr>)"
  using assms
proof (induction bs arbitrary: acc s)
  case Nil
  then have "read_exact SIo 1 s = (Inr [0], s\<lparr>rx := r\<rparr>)" by (simp add: read_exact_def)
  then show ?case by (subst read_nul.simps) simp
next
  case (Cons b bs)
  have "read_exact SIo 1 s = (Inr [b], s\<lparr>rx := bs @ 0 # r\<rparr>)" using Cons.prems(1) by (simp add: read_exact_def)
  then show ?case
    using Cons.IH [of "s\<lparr>rx := bs @ 0 # r\<rparr>" "acc @ [b]"] Cons.prems(2,3)
    by (subst read_nul.simps) (simp add: Let_def)
qed

lemma port_of_two:
  assumes "bs = to_be 2 (unat (p :: u16))" shows "word_of_nat (of_be [bs ! 0, bs ! 1]) = p"
proof -
  have "[bs ! 0, bs ! 1] = bs" using assms by (simp add: to_be_2)
  then show ?thesis using assms by simp
qed

lemma octets4_zero_prefix:
  assumes "256 \<le> unat a"
  shows "\<not> (octets4 a ! 0 = 0 \<and> octets4 a ! 1 = 0 \<and> octets4 a ! 2 = 0)"
proof
  assume "octets4 a ! 0 = 0 \<and> octets4 a ! 1 = 0 \<and> octets4 a ! 2 = 0"
  moreover obtain w x y z where o: "octets4 a = [w, x, y, z]"
    using length_octets4 [of a] unfolding four by (auto simp: length_Suc_conv simp del: length_octets4)
  ultimately have "octets4 a = [0, 0, 0, z]" by simp
  then have "a = v4_from_octets [0, 0, 0, z]" by (metis v4_from_octets_octets)
  then have "a = word_of_nat (unat z)" by (simp add: v4_from_octets_def of_be_def)
  moreover have "unat (word_of_nat (unat z) :: u32) = unat z"
    by (rule unat_word_of_nat) (rule less_trans [OF unat_byte_less], simp)
  ultimately have "unat a = unat z" by (simp only:)
  then show False using assms unat_byte_less [of z] by simp
qed

lemma socks4_handshake_ok:
  assumes "socks4_ok t" and "rx s = socks4_hello t port userid @ r" and "0 \<notin> set userid" and "length userid \<le> 512"
  shows "socks4_handshake s = (Inr (target_host t, port), s\<lparr>rx := r\<rparr>)"
proof -
  obtain p0 p1 where p: "to_be 2 (unat port) = [p0, p1]"
    using length_to_be [of 2 "unat port"] by (auto simp: length_2_conv simp del: length_to_be)
  have port: "word_of_nat (of_be [p0, p1]) = port" using p word_of_be_to_be [of 2 port] by simp
  show ?thesis
  proof (cases t)
    case (TDomain d)
    then have rx: "rx s = VER4 # CMD_CONNECT # p0 # p1 # 0 # 0 # 0 # 1 # (userid @ 0 # (as_bytes d @ 0 # r))"
      and d: "length d \<le> 255" "from_utf8 (as_bytes d) = Some d" "0 \<notin> set (as_bytes d)"
      using assms(1,2) p by (simp_all add: from_utf8_def)
    have u: "read_nul 512 m [] (s\<lparr>rx := userid @ 0 # as_bytes d @ 0 # r\<rparr>) = (Inr userid, s\<lparr>rx := as_bytes d @ 0 # r\<rparr>)" for m
      using read_nul_ok [of "s\<lparr>rx := userid @ 0 # as_bytes d @ 0 # r\<rparr>" userid] assms(3,4) by simp
    have v: "read_nul 255 m [] (s\<lparr>rx := as_bytes d @ 0 # r\<rparr>) = (Inr (as_bytes d), s\<lparr>rx := r\<rparr>)" for m
      using read_nul_ok [of "s\<lparr>rx := as_bytes d @ 0 # r\<rparr>" "as_bytes d"] d by simp
    show ?thesis
      using rx d TDomain by (simp add: socks4_handshake_def io_bind_read_exact io_bind_eq [of "read_nul _ _ _", OF u]
          io_bind_eq [of "read_nul _ _ _", OF v] port io_defs Let_def)
  next
    case (TV4 a)
    obtain w x y z where o: "octets4 a = [w, x, y, z]"
      using length_octets4 [of a] unfolding four by (auto simp: length_Suc_conv simp del: length_octets4)
    then have rx: "rx s = VER4 # CMD_CONNECT # p0 # p1 # w # x # y # z # (userid @ 0 # r)"
      using assms(2) TV4 p by simp
    have nz: "\<not> (w = 0 \<and> x = 0 \<and> y = 0)" using octets4_zero_prefix [of a] assms(1) TV4 o by simp
    have u: "read_nul 512 m [] (s\<lparr>rx := userid @ 0 # r\<rparr>) = (Inr userid, s\<lparr>rx := r\<rparr>)" for m
      using read_nul_ok [of "s\<lparr>rx := userid @ 0 # r\<rparr>" userid] assms(3,4) by simp
    have "show_octets [w, x, y, z] = show_ipv4 a" using show_octets_octets4 [of a] o by simp
    then show ?thesis
      using rx nz TV4 by (auto simp: socks4_handshake_def io_bind_read_exact io_bind_eq [of "read_nul _ _ _", OF u]
          port io_defs Let_def)
  qed (use assms(1) in simp)
qed

lemma write_reply4_ok: "tx_cap s = None \<Longrightarrow> write_reply4 code s = (Inr (), s\<lparr>tx := tx s @ reply4_bytes code\<rparr>)"
  by (simp add: write_reply4_def reply4_bytes_def eval_nat_numeral)

text \<open>
  A SOCKS4 or SOCKS4a CONNECT gets exactly one upstream connection, to the address or
  the domain name it asked for, and is answered with granted or rejected before the relay.
\<close>

theorem socks4_session:
  assumes "socks4_ok t" and "rx client = socks4_hello t port userid @ rest"
    and "0 \<notin> set userid" and "length userid \<le> 512" and "tx_cap client = None"
  shows "handle_socks4 connect copy stats client =
    (case connect (target_host t) port of
       Inr up \<Rightarrow> relay_session copy (client\<lparr>rx := rest, tx := tx client @ reply4_bytes REP_GRANTED\<rparr>) up stats
                  [(target_host t, port)]
     | Inl e \<Rightarrow> failed_session e (client\<lparr>rx := rest, tx := tx client @ reply4_bytes REP_REJECTED\<rparr>) stats
                  [(target_host t, port)])"
  using assms(5)
  by (auto simp: handle_socks4_def socks4_handshake_ok [OF assms(1-4)] write_reply4_ok split: sum.splits)

theorem socks4_session_witness:
  "sess_connects (handle_socks4 example_connect example_copy None
     (stream_of (socks4_hello (TV4 (ipv4 10 1 2 3)) 80 [117] @ [1]))) = [(show_ipv4 (ipv4 10 1 2 3), 80)]"
  using socks4_session [of "TV4 (ipv4 10 1 2 3)" "stream_of (socks4_hello (TV4 (ipv4 10 1 2 3)) 80 [117] @ [1])"
      80 "[117]" "[1]" example_connect example_copy None]
  by (simp add: ipv4_def relay_session_def failed_session_def split: sum.splits prod.splits)

text \<open>
  User name and password only guard SOCKS5: on the same port a SOCKS4 client reaches
  the upstream without presenting anything, whatever credentials the proxy requires.
\<close>

theorem socks4_bypasses_auth:
  "sess_connects (dispatch_socks connect copy (auth_required user pass) stats
     (stream_of (socks4_hello (TV4 (ipv4 10 1 2 3)) port []))) = [(show_ipv4 (ipv4 10 1 2 3), port)]"
proof -
  let ?t = "TV4 (ipv4 10 1 2 3)"
  let ?s = "stream_of (socks4_hello ?t port [])"
  have h: "socks4_handshake ?s = (Inr (target_host ?t, port), ?s\<lparr>rx := []\<rparr>)"
    by (rule socks4_handshake_ok [where userid = "[]"]) (simp_all add: ipv4_def)
  have "rx ?s = 4 # tl (socks4_hello ?t port [])" by (simp add: VER4_def)
  then have d: "dispatch_socks connect copy (auth_required user pass) stats ?s = handle_socks4 connect copy stats ?s"
    by (rule dispatch_socks4)
  show ?thesis
    unfolding d handle_socks4_def h
    by (simp add: write_reply4_ok relay_session_def failed_session_def split: sum.splits prod.splits)
qed

subsection \<open>Complete HTTP CONNECT requests\<close>

definition ascii_str :: "string \<Rightarrow> bool" where
  "ascii_str s \<longleftrightarrow> list_all (\<lambda>c. (of_char c :: nat) < 128) s"

definition header_ok :: "string \<Rightarrow> bool" where
  "header_ok h \<longleftrightarrow> h \<noteq> [] \<and> LF \<notin> set h \<and> ascii_str h \<and> length h \<le> 8190"

definition connect_request :: "string \<Rightarrow> string list \<Rightarrow> string" where
  "connect_request tgt headers =
     ''CONNECT '' @ tgt @ '' HTTP/1.1'' @ CRLF @ concat (map (\<lambda>h. h @ CRLF) headers) @ CRLF"

text \<open>The target of a CONNECT request: a plain host, or an IPv6 address in brackets.\<close>

definition connect_target :: "bool \<Rightarrow> string \<Rightarrow> u16 \<Rightarrow> string" where
  "connect_target bracket host port =
     (if bracket then ''['' @ host @ '']:'' @ show_nat (unat port) else host @ '':'' @ show_nat (unat port))"

lemma split_host_port_ok:
  assumes "bracket \<or> \<not> prefix ''['' host"
  shows "split_host_port (connect_target bracket host port) = Inr (host, port)"
proof (cases bracket)
  case True
  have "rsplit_once_str '']:'' (host @ '']:'' @ show_nat (unat port)) = Some (host, show_nat (unat port))"
    using rsplit_once_str_append [of "show_nat (unat port)" "CHR '':''" "'']''" host] show_nat_no_colon [of "unat port"]
    by auto
  then show ?thesis using True by (simp add: split_host_port_def connect_target_def strip_prefix_def)
next
  case False
  then have np: "\<not> prefix ''['' (host @ '':'' @ show_nat (unat port))"
    using assms by (cases host) auto
  have "rsplit_once CHR '':'' (host @ '':'' @ show_nat (unat port)) = Some (host, show_nat (unat port))"
    using show_nat_no_colon [of "unat port"] by (simp add: rsplit_once_append)
  then show ?thesis using False np by (simp add: split_host_port_def connect_target_def strip_prefix_def)
qed

lemma read_line_ok:
  assumes "rx s = as_bytes (l @ [LF]) @ r" and "LF \<notin> set l" and "ascii_str l"
  shows "read_line s = (Inr (l @ [LF]), s\<lparr>rx := r\<rparr>)"
proof -
  have a: "as_bytes (l @ [LF]) = as_bytes l @ [10]" by (simp add: as_bytes_def byte_of_def)
  have n: "b \<noteq> 10" if "b \<in> set (as_bytes l)" for b
  proof -
    from that obtain c where "c \<in> set l" "b = byte_of c" by (auto simp: as_bytes_def)
    then show ?thesis using assms(2) byte_of_LF [of c] by metis
  qed
  have t: "takeWhile (\<lambda>b. b \<noteq> 10) (rx s) = as_bytes l" "dropWhile (\<lambda>b. b \<noteq> 10) (rx s) = 10 # r"
    using assms(1) n unfolding a by (simp_all add: takeWhile_append2 dropWhile_append2)
  have "from_utf8 (as_bytes l @ [10]) = Some (l @ [LF])"
    using from_utf8_ascii [of "l @ [LF]"] assms(3) unfolding a by (simp add: ascii_str_def)
  then show ?thesis by (simp add: read_line_def t)
qed

lemma consume_headers_ok:
  assumes "list_all header_ok hs" and "rx s = as_bytes (concat (map (\<lambda>h. h @ CRLF) hs) @ CRLF) @ r"
  shows "consume_headers s = (Inr (), s\<lparr>rx := r\<rparr>)"
  using assms
proof (induction hs arbitrary: s)
  case Nil
  have "read_line s = (Inr ([CR] @ [LF]), s\<lparr>rx := r\<rparr>)"
    using Nil.prems by (intro read_line_ok) (simp_all add: ascii_str_def)
  then show ?case by (subst consume_headers.simps) simp
next
  case (Cons h hs)
  let ?r = "as_bytes (concat (map (\<lambda>h. h @ CRLF) hs) @ CRLF) @ r"
  have rd: "read_line s = (Inr ((h @ [CR]) @ [LF]), s\<lparr>rx := ?r\<rparr>)"
    using Cons.prems by (intro read_line_ok) (simp_all add: header_ok_def ascii_str_def as_bytes_Cons)
  have "h \<noteq> []" "length h \<le> 8190" using Cons.prems(1) by (simp_all add: header_ok_def)
  then show ?case
    using Cons.IH [of "s\<lparr>rx := ?r\<rparr>"] Cons.prems(1) rd
    by (subst consume_headers.simps) (auto simp: append_eq_Cons_conv)
qed

lemma http_handshake_ok:
  assumes "list_all graph_char (connect_target bracket host port)" and "bracket \<or> \<not> prefix ''['' host"
    and "list_all header_ok headers"
    and "rx s = as_bytes (connect_request (connect_target bracket host port) headers) @ r"
  shows "http_handshake s = (Inr (host, port), s\<lparr>rx := r\<rparr>)"
proof -
  let ?t = "connect_target bracket host port"
  let ?l = "''CONNECT '' @ ?t @ '' HTTP/1.1'' @ [CR]"
  let ?r = "as_bytes (concat (map (\<lambda>h. h @ CRLF) headers) @ CRLF) @ r"
  have ne: "?t \<noteq> []" by (simp add: connect_target_def)
  have g: "LF \<notin> set ?t" "ascii_str ?t"
    using assms(1) by (auto simp: list_all_iff graph_char_def ascii_str_def)
  then have "ascii_str ?l" by (simp add: ascii_str_def)
  then have rl: "read_line s = (Inr (?l @ [LF]), s\<lparr>rx := ?r\<rparr>)"
    using assms(4) g(1) by (intro read_line_ok) (simp_all add: connect_request_def as_bytes_Cons)
  have gw: "list_all graph_char ''CONNECT''" "list_all graph_char ''HTTP/1.1''"
    by (simp_all add: graph_char_def)
  have "split_whitespace (?l @ [LF]) = split_ws_aux [] (''CONNECT'' @ CHR '' '' # (?t @ CHR '' '' # (''HTTP/1.1'' @ CRLF)))"
    by (simp add: split_whitespace_def)
  also have "\<dots> = [''CONNECT'', ?t, ''HTTP/1.1'']"
    unfolding split_ws_token [OF gw(1)] split_ws_space [OF disjI1, OF refl] split_ws_token [OF assms(1)]
      split_ws_token [OF gw(2)] using ne by (simp add: split_ws_space)
  finally have sw: "split_whitespace (?l @ [LF]) = [''CONNECT'', ?t, ''HTTP/1.1'']" .
  have ch: "consume_headers (s\<lparr>rx := ?r\<rparr>) = (Inr (), s\<lparr>rx := r\<rparr>)"
    using consume_headers_ok [OF assms(3), of "s\<lparr>rx := ?r\<rparr>" r] by simp
  show ?thesis
    by (simp only: http_handshake_def io_bind_eq [of read_line, OF rl] sw list.case)
      (use ch in \<open>simp add: split_host_port_ok [OF assms(2)] io_lift_def io_bind_def io_return_def\<close>)
qed

text \<open>
  An HTTP CONNECT for a host name, an IPv4 address or a bracketed IPv6 address, with any
  headers, gets exactly one upstream connection, to that host and port, and a 200 or a 502
  answer. The relay starts behind the empty line, less whatever the buffered reader had
  already fetched: the early data of a client that does not wait for the answer is lost.
\<close>

theorem http_connect_session:
  assumes "list_all graph_char (connect_target bracket host port)" and "bracket \<or> \<not> prefix ''['' host"
    and "list_all header_ok headers" and "tx_cap client = None"
    and "rx client = as_bytes (connect_request (connect_target bracket host port) headers) @ rest"
  shows "handle_http_connect connect copy buffered stats client =
    (case connect host port of
       Inr up \<Rightarrow> relay_session copy (client\<lparr>rx := drop buffered rest, tx := tx client @ as_bytes OK_RESPONSE\<rparr>) up stats
                  [(host, port)]
     | Inl e \<Rightarrow> failed_session e (client\<lparr>rx := drop buffered rest, tx := tx client @ as_bytes BAD_GATEWAY\<rparr>) stats
                  [(host, port)])"
  using assms(4)
  by (auto simp: handle_http_connect_def http_handshake_ok [OF assms(1-3,5)] split: sum.splits)

theorem http_connect_session_witness:
  "sess_connects (handle_http_connect example_connect example_copy 0 None
     (stream_of (as_bytes (connect_request (connect_target False ''a.io'' 443) [''Host: a.io'']) @ [22, 3]))) = [(''a.io'', 443)]"
proof -
  have "show_nat 443 = ''443''" by code_simp
  then have "list_all graph_char (connect_target False ''a.io'' 443)"
    by (simp add: connect_target_def graph_char_def)
  moreover have "header_ok ''Host: a.io''" by (simp add: header_ok_def ascii_str_def)
  ultimately show ?thesis
    using http_connect_session [of False "''a.io''" 443 "[''Host: a.io'']"
        "stream_of (as_bytes (connect_request (connect_target False ''a.io'' 443) [''Host: a.io'']) @ [22, 3])" "[22, 3]"
        example_connect example_copy 0 None]
    by (simp add: example_connect_def relay_session_def relay_both_def example_copy_def)
qed

end
