(* ===== verification/Proxy_Server.thy ===== *)
theory Proxy_Server
  imports Socks
begin

text \<open>
  The two accept loops of \<^verbatim>\<open>ProxyServer::start\<close> (\<^verbatim>\<open>crates/socks/src/server.rs\<close>). Both share one
  semaphore and one set of counters; every session runs in its own task. A session goes
  through the atomic actions of its task one at a time, so that actions of different
  sessions and of both loops interleave freely.
\<close>

definition MAX_CONCURRENT_PROXY_SESSIONS :: nat where
  "MAX_CONCURRENT_PROXY_SESSIONS = 512"

datatype proxy_kind = KSocks | KHttp

text \<open>
  A session has taken its permit; has been counted in \<^verbatim>\<open>accepted\<close>; has been counted in
  \<^verbatim>\<open>active\<close> and is being served; has been taken out of \<^verbatim>\<open>active\<close> but still holds its permit.
\<close>

datatype phase = Permitted | Accepted | Serving | Leaving

record proxy_server =
  capacity :: nat
  stats :: proxy_stats
  sessions :: "(proxy_kind \<times> phase) list"
  socks_loop :: bool
  http_loop :: bool

definition zero_stats :: proxy_stats where
  "zero_stats = \<lparr> accepted = 0, active = 0, bytes_up = 0, bytes_down = 0 \<rparr>"

definition start :: proxy_server where
  "start = \<lparr> capacity = MAX_CONCURRENT_PROXY_SESSIONS, stats = zero_stats, sessions = [],
             socks_loop = True, http_loop = True \<rparr>"

fun loop_runs :: "proxy_kind \<Rightarrow> proxy_server \<Rightarrow> bool" where
  "loop_runs KSocks s = socks_loop s"
| "loop_runs KHttp s = http_loop s"

text \<open>\<^verbatim>\<open>accept\<close> returned a connection: take a permit or drop the connection.\<close>

definition on_accept :: "proxy_kind \<Rightarrow> proxy_server \<Rightarrow> proxy_server" where
  "on_accept kind s =
     (if \<not> loop_runs kind s \<or> capacity s = 0 then s
      else s\<lparr>capacity := capacity s - 1, sessions := sessions s @ [(kind, Permitted)]\<rparr>)"

fun on_accept_error :: "proxy_kind \<Rightarrow> proxy_server \<Rightarrow> proxy_server" where
  "on_accept_error KSocks s = s\<lparr>socks_loop := False\<rparr>"
| "on_accept_error KHttp s = s\<lparr>http_loop := False\<rparr>"

definition stop :: "proxy_server \<Rightarrow> proxy_server" where
  "stop s = s\<lparr>socks_loop := False, http_loop := False\<rparr>"

text \<open>The next atomic action of session \<open>i\<close>.\<close>

definition advance :: "nat \<Rightarrow> proxy_server \<Rightarrow> proxy_server" where
  "advance i s =
     (if length (sessions s) \<le> i then s
      else case sessions s ! i of
        (k, Permitted) \<Rightarrow>
          s\<lparr>stats := (stats s)\<lparr>accepted := accepted (stats s) + 1\<rparr>, sessions := (sessions s)[i := (k, Accepted)]\<rparr>
      | (k, Accepted) \<Rightarrow>
          s\<lparr>stats := (stats s)\<lparr>active := active (stats s) + 1\<rparr>, sessions := (sessions s)[i := (k, Serving)]\<rparr>
      | (k, Serving) \<Rightarrow>
          s\<lparr>stats := (stats s)\<lparr>active := active (stats s) - 1\<rparr>, sessions := (sessions s)[i := (k, Leaving)]\<rparr>
      | (k, Leaving) \<Rightarrow>
          s\<lparr>capacity := capacity s + 1, sessions := take i (sessions s) @ drop (Suc i) (sessions s)\<rparr>)"

definition on_relayed :: "nat \<Rightarrow> u64 \<Rightarrow> u64 \<Rightarrow> proxy_server \<Rightarrow> proxy_server" where
  "on_relayed i up_n down_n s =
     (if i < length (sessions s) \<and> snd (sessions s ! i) = Serving
      then s\<lparr>stats := record_relay (stats s) up_n down_n\<rparr> else s)"

inductive server_step :: "proxy_server \<Rightarrow> proxy_server \<Rightarrow> bool" where
  "server_step s (on_accept kind s)"
| "server_step s (on_accept_error kind s)"
| "server_step s (stop s)"
| "server_step s (advance i s)"
| "server_step s (on_relayed i u d s)"

definition serving :: "proxy_server \<Rightarrow> nat" where
  "serving s = length (filter (\<lambda>x. snd x = Serving) (sessions s))"

definition server_inv :: "proxy_server \<Rightarrow> bool" where
  "server_inv s \<longleftrightarrow> capacity s + length (sessions s) = MAX_CONCURRENT_PROXY_SESSIONS
     \<and> active (stats s) = word_of_nat (serving s)"

lemma split_at: "i < length xs \<Longrightarrow> \<exists>ys zs. xs = ys @ xs ! i # zs \<and> length ys = i"
  by (intro exI [of _ "take i xs"] exI [of _ "drop (Suc i) xs"]) (simp add: id_take_nth_drop min_def)

lemma server_inv_advance:
  assumes "server_inv s" shows "server_inv (advance i s)"
proof (cases "i < length (sessions s)")
  case True
  obtain k ph where kp: "sessions s ! i = (k, ph)" by force
  then obtain ys zs where "sessions s = ys @ (k, ph) # zs" "length ys = i"
    using split_at [OF True] by auto
  then show ?thesis
    using assms kp by (cases ph) (auto simp: server_inv_def advance_def serving_def list_update_append)
qed (use assms in \<open>simp add: advance_def\<close>)

lemma server_inv_step: "server_step s t \<Longrightarrow> server_inv s \<Longrightarrow> server_inv t"
proof (induction rule: server_step.induct)
  case (2 s kind)
  then show ?case by (cases kind) (auto simp: server_inv_def serving_def)
qed (auto simp: server_inv_advance, auto simp: server_inv_def serving_def on_accept_def stop_def
      on_relayed_def record_relay_def)

interpretation proxy: inductive_invariant "\<lambda>s. s = start" server_step server_inv
  by unfold_locales (auto simp: server_inv_step, simp add: server_inv_def start_def zero_stats_def serving_def)

text \<open>
  C24. In every interleaving of the two accept loops, their failures, shutdown and the
  sessions' tasks, at most 512 sessions hold a permit, the counter of active sessions is
  exactly the number of sessions being served (so it never wraps below zero), and no
  permit is lost: the free permits and the sessions always add up to 512.
\<close>

theorem proxy_sessions_bounded:
  assumes "reachable (\<lambda>s. s = start) server_step s"
  shows "unat (active (stats s)) = serving s \<and> serving s \<le> length (sessions s)
       \<and> capacity s + length (sessions s) = MAX_CONCURRENT_PROXY_SESSIONS"
proof -
  have inv: "server_inv s" by (rule proxy.reachable_inv [OF assms])
  have le: "serving s \<le> length (sessions s)" by (simp add: serving_def)
  also have "\<dots> \<le> 512" using inv by (simp add: server_inv_def MAX_CONCURRENT_PROXY_SESSIONS_def)
  finally have "unat (word_of_nat (serving s) :: u64) = serving s" by (intro unat_word_of_nat) simp
  then show ?thesis using inv le by (simp add: server_inv_def)
qed

theorem proxy_sessions_bounded_witness:
  "unat (active (stats (advance 0 (advance 0 (on_accept KSocks start))))) = serving (advance 0 (advance 0 (on_accept KSocks start)))"
proof -
  have "reachable (\<lambda>s. s = start) server_step start" by (rule reach_init) simp
  then have "reachable (\<lambda>s. s = start) server_step (on_accept KSocks start)"
    by (rule reach_step) (rule server_step.intros)
  then have "reachable (\<lambda>s. s = start) server_step (advance 0 (on_accept KSocks start))"
    by (rule reach_step) (rule server_step.intros)
  then have "reachable (\<lambda>s. s = start) server_step (advance 0 (advance 0 (on_accept KSocks start)))"
    by (rule reach_step) (rule server_step.intros)
  then show ?thesis using proxy_sessions_bounded by blast
qed

end
