(* ===== verification/Config_Model.thy ===== *)
theory Config_Model
  imports Rust_Net
begin

text \<open>
  The profile model of \<^verbatim>\<open>crates/config\<close>: its enums and structs, the constructors of the three
  kinds of profiles, the export without secret references, and \<^verbatim>\<open>validate_connection\<close>. Times are
  nanoseconds since the epoch and UUIDs their 128 bits; both come from outside and are arguments of
  the constructors. A string is its UTF-8 bytes.
\<close>

subsection \<open>Enums and structs\<close>

type_synonym timestamp = int
type_synonym uuid = u128

definition CONFIG_VERSION :: nat where
  "CONFIG_VERSION = 1"

datatype protocol = PSsh | PSocks | PShadowsocks | PVless
datatype transport = Direct | Tls | WebSocket | Wss | HttpUpgrade
datatype dns_mode = MSystem | MTunnel | MCustom | MRemote
datatype routing_mode = ProxyOnly | FullTunnel | SplitTunnel
datatype dns_over_tcp = TcpAuto | TcpOn | TcpOff
datatype tls_fingerprint_profile = FpDefault | FpChrome | FpFirefox | FpSafari | FpCustom
datatype host_key_policy = Strict | Ask | Tofu

record secret_ref =
  ref_id :: string

datatype auth_method =
    Password "secret_ref option"
  | PrivateKey "string option" "secret_ref option" "secret_ref option"
  | Agent
  | AuthNone

record vless_settings =
  vl_uuid :: string
  vl_encryption :: string
  vl_flow :: string
  vl_network :: string
  vl_security :: string
  vl_host :: "string option"
  vl_path :: "string option"
  vl_reality_public_key :: "string option"
  vl_reality_short_id :: "string option"
  vl_grpc_service_name :: "string option"
  vl_xhttp_mode :: "string option"
  vl_spider_x :: "string option"

datatype protocol_settings =
    SetSsh u64 u64 host_key_policy
  | SetSocks
  | SetShadowsocks string
  | SetVless vless_settings

record dns_settings =
  dns_mode_of :: dns_mode
  dns_servers :: "string list"
  dns_tcp :: dns_over_tcp

record udpgw_settings =
  gw_enabled :: bool
  gw_host :: string
  gw_port :: u16
  gw_transparent_dns :: bool

record tls_settings =
  tls_sni :: "string option"
  tls_alpn :: "string list"
  tls_verify :: bool
  tls_fingerprint :: tls_fingerprint_profile
  tls_path :: "string option"
  tls_host :: "string option"

record zone_info =
  zone_id :: string
  zone_name :: string
  zone_iso :: "string option"

record zones_cache =
  zc_hash :: "string option"
  zc_zones :: "zone_info list"
  zc_fetched_at :: timestamp
  zc_https :: bool

record proxy_share_settings =
  socks_port :: u16
  http_proxy_port :: u16
  listen :: string
  require_auth :: bool
  auth_secret :: "secret_ref option"

record connection_config =
  cfg_id :: uuid
  cfg_name :: string
  cfg_protocol :: protocol
  cfg_transport :: transport
  cfg_host :: string
  cfg_port :: u16
  cfg_username :: "string option"
  cfg_authentication :: auth_method
  cfg_dns :: dns_settings
  cfg_ipv6 :: bool
  cfg_mtu :: "u16 option"
  cfg_mss :: "u16 option"
  cfg_routing_mode :: routing_mode
  cfg_auto_reconnect :: bool
  cfg_udpgw :: udpgw_settings
  cfg_tls :: tls_settings
  cfg_proxy :: proxy_share_settings
  cfg_settings :: protocol_settings
  cfg_bypass_private :: bool
  cfg_kill_switch :: bool
  cfg_bypass_cidrs :: "string list"
  cfg_bypass_domains :: "string list"
  cfg_selected_zone :: "string option"
  cfg_smart_link_secret :: "secret_ref option"
  cfg_zones_cache :: "zones_cache option"
  cfg_notes :: "string option"
  cfg_created_at :: timestamp
  cfg_updated_at :: timestamp

record export_document =
  doc_version :: nat
  doc_profile :: connection_config

record app_settings =
  theme :: string
  start_minimized :: bool
  reconnect_base_delay_ms :: u64
  reconnect_max_delay_ms :: u64
  log_level :: string
  preferred_routing_mode :: string

subsection \<open>Defaults and constructors\<close>

definition default_keepalive :: u64 where "default_keepalive = 30"
definition default_timeout :: u64 where "default_timeout = 15"

definition default_dns_settings :: dns_settings where
  "default_dns_settings = \<lparr> dns_mode_of = MSystem, dns_servers = [], dns_tcp = TcpAuto \<rparr>"

definition default_udpgw_settings :: udpgw_settings where
  "default_udpgw_settings =
     \<lparr> gw_enabled = False, gw_host = ''127.0.0.1'', gw_port = 7300, gw_transparent_dns = False \<rparr>"

definition default_tls_settings :: tls_settings where
  "default_tls_settings =
     \<lparr> tls_sni = None, tls_alpn = [], tls_verify = True, tls_fingerprint = FpDefault,
       tls_path = None, tls_host = None \<rparr>"

definition default_proxy_share_settings :: proxy_share_settings where
  "default_proxy_share_settings =
     \<lparr> socks_port = 1080, http_proxy_port = 8080, listen = ''127.0.0.1'', require_auth = False,
       auth_secret = None \<rparr>"

definition default_app_settings :: app_settings where
  "default_app_settings =
     \<lparr> theme = ''system'', start_minimized = False, reconnect_base_delay_ms = 1000,
       reconnect_max_delay_ms = 60000, log_level = ''info'', preferred_routing_mode = ''proxy_only'' \<rparr>"

definition new_ssh :: "uuid \<Rightarrow> timestamp \<Rightarrow> string \<Rightarrow> string \<Rightarrow> u16 \<Rightarrow> connection_config" where
  "new_ssh fresh now name host port =
     \<lparr> cfg_id = fresh, cfg_name = name, cfg_protocol = PSsh, cfg_transport = Direct, cfg_host = host,
       cfg_port = port, cfg_username = None, cfg_authentication = Password None,
       cfg_dns = default_dns_settings, cfg_ipv6 = False, cfg_mtu = None, cfg_mss = None,
       cfg_routing_mode = ProxyOnly, cfg_auto_reconnect = True, cfg_udpgw = default_udpgw_settings,
       cfg_tls = default_tls_settings, cfg_proxy = default_proxy_share_settings,
       cfg_settings = SetSsh default_keepalive default_timeout Strict,
       cfg_bypass_private = True, cfg_kill_switch = False, cfg_bypass_cidrs = [], cfg_bypass_domains = [],
       cfg_selected_zone = None, cfg_smart_link_secret = None, cfg_zones_cache = None, cfg_notes = None,
       cfg_created_at = now, cfg_updated_at = now \<rparr>"

definition new_smart :: "uuid \<Rightarrow> timestamp \<Rightarrow> string \<Rightarrow> string \<Rightarrow> u16 \<Rightarrow> secret_ref \<Rightarrow> connection_config" where
  "new_smart fresh now name host port link_secret =
     (let cfg = (new_ssh fresh now name host port)
        \<lparr> cfg_username := None, cfg_authentication := AuthNone, cfg_smart_link_secret := Some link_secret \<rparr>
      in case cfg_settings cfg of
           SetSsh keepalive timeout policy \<Rightarrow> cfg\<lparr>cfg_settings := SetSsh keepalive timeout Tofu\<rparr>
         | _ \<Rightarrow> cfg)"

definition new_shadowsocks :: "uuid \<Rightarrow> timestamp \<Rightarrow> string \<Rightarrow> string \<Rightarrow> u16 \<Rightarrow> string \<Rightarrow> connection_config" where
  "new_shadowsocks fresh now name host port method =
     \<lparr> cfg_id = fresh, cfg_name = name, cfg_protocol = PShadowsocks, cfg_transport = Direct, cfg_host = host,
       cfg_port = port, cfg_username = None, cfg_authentication = Password None,
       cfg_dns = default_dns_settings, cfg_ipv6 = False, cfg_mtu = None, cfg_mss = None,
       cfg_routing_mode = ProxyOnly, cfg_auto_reconnect = True, cfg_udpgw = default_udpgw_settings,
       cfg_tls = default_tls_settings, cfg_proxy = default_proxy_share_settings,
       cfg_settings = SetShadowsocks method,
       cfg_bypass_private = True, cfg_kill_switch = False, cfg_bypass_cidrs = [], cfg_bypass_domains = [],
       cfg_selected_zone = None, cfg_smart_link_secret = None, cfg_zones_cache = None, cfg_notes = None,
       cfg_created_at = now, cfg_updated_at = now \<rparr>"

definition new_vless :: "uuid \<Rightarrow> timestamp \<Rightarrow> string \<Rightarrow> string \<Rightarrow> u16 \<Rightarrow> string \<Rightarrow> connection_config" where
  "new_vless fresh now name host port u =
     \<lparr> cfg_id = fresh, cfg_name = name, cfg_protocol = PVless, cfg_transport = Direct, cfg_host = host,
       cfg_port = port, cfg_username = None, cfg_authentication = AuthNone,
       cfg_dns = default_dns_settings, cfg_ipv6 = False, cfg_mtu = None, cfg_mss = None,
       cfg_routing_mode = ProxyOnly, cfg_auto_reconnect = True, cfg_udpgw = default_udpgw_settings,
       cfg_tls = default_tls_settings, cfg_proxy = default_proxy_share_settings,
       cfg_settings = SetVless
         \<lparr> vl_uuid = u, vl_encryption = ''none'', vl_flow = [], vl_network = ''tcp'', vl_security = ''none'',
           vl_host = None, vl_path = None, vl_reality_public_key = None, vl_reality_short_id = None,
           vl_grpc_service_name = None, vl_xhttp_mode = None, vl_spider_x = None \<rparr>,
       cfg_bypass_private = True, cfg_kill_switch = False, cfg_bypass_cidrs = [], cfg_bypass_domains = [],
       cfg_selected_zone = None, cfg_smart_link_secret = None, cfg_zones_cache = None, cfg_notes = None,
       cfg_created_at = now, cfg_updated_at = now \<rparr>"

subsection \<open>Export\<close>

fun strip_auth :: "auth_method \<Rightarrow> auth_method" where
  "strip_auth (Password secret) = Password None"
| "strip_auth (PrivateKey path passphrase key_material) = PrivateKey path None None"
| "strip_auth Agent = Agent"
| "strip_auth AuthNone = AuthNone"

definition export_safe :: "connection_config \<Rightarrow> export_document" where
  "export_safe self =
     \<lparr> doc_version = CONFIG_VERSION,
       doc_profile = self\<lparr> cfg_authentication := strip_auth (cfg_authentication self),
         cfg_proxy := (cfg_proxy self)\<lparr>auth_secret := None\<rparr>, cfg_smart_link_secret := None \<rparr> \<rparr>"

text \<open>Every vault reference a profile holds.\<close>

fun auth_refs :: "auth_method \<Rightarrow> secret_ref list" where
  "auth_refs (Password secret) = (case secret of None \<Rightarrow> [] | Some r \<Rightarrow> [r])"
| "auth_refs (PrivateKey path passphrase key_material) =
     (case passphrase of None \<Rightarrow> [] | Some r \<Rightarrow> [r]) @ (case key_material of None \<Rightarrow> [] | Some r \<Rightarrow> [r])"
| "auth_refs Agent = []"
| "auth_refs AuthNone = []"

definition secret_refs :: "connection_config \<Rightarrow> secret_ref list" where
  "secret_refs c =
     auth_refs (cfg_authentication c)
     @ (case auth_secret (cfg_proxy c) of None \<Rightarrow> [] | Some r \<Rightarrow> [r])
     @ (case cfg_smart_link_secret c of None \<Rightarrow> [] | Some r \<Rightarrow> [r])"

lemma auth_refs_strip [simp]: "auth_refs (strip_auth a) = []"
  by (cases a) simp_all

lemma export_safe_no_refs: "secret_refs (doc_profile (export_safe c)) = []"
  by (simp add: secret_refs_def export_safe_def)

lemma strip_auth_idem [simp]: "strip_auth (strip_auth a) = strip_auth a"
  by (cases a) simp_all

end
