(* ===== verification/Config_Validate.thy ===== *)
theory Config_Validate
  imports Config_Model
begin

text \<open>
  \<^verbatim>\<open>validate_connection\<close> of \<^verbatim>\<open>crates/config/src/validate.rs\<close>, guard by guard, and what a profile that
  passed it guarantees to the components that use it. The UUID and CIDR parsers are other crates, the
  escaping of \<^verbatim>\<open>{:?}\<close> depends on Unicode tables: they are the fields of \<open>config_env\<close>.
\<close>

datatype config_error =
    Validation string
  | NotFound string
  | DbError string
  | ConfigIo string
  | JsonError string
  | SecretsError string
  | Import string

fun show_config_error :: "config_error \<Rightarrow> string" where
  "show_config_error (Validation e) = ''validation error: '' @ e"
| "show_config_error (NotFound e) = ''not found: '' @ e"
| "show_config_error (DbError e) = ''database error: '' @ e"
| "show_config_error (ConfigIo e) = ''I/O error: '' @ e"
| "show_config_error (JsonError e) = ''JSON error: '' @ e"
| "show_config_error (SecretsError e) = ''secrets error: '' @ e"
| "show_config_error (Import e) = ''import error: '' @ e"

record config_env =
  uuid_parse :: "string \<Rightarrow> uuid option"
  uuid_show :: "uuid \<Rightarrow> string"
  ipnet_parse :: "string \<Rightarrow> (ip_addr \<times> nat) option"
  str_debug :: "string \<Rightarrow> string"

abbreviation rejectv :: "bool \<Rightarrow> string \<Rightarrow> config_error option" where
  "rejectv c msg \<equiv> reject c (Validation msg)"

fun show_protocol :: "protocol \<Rightarrow> string" where
  "show_protocol PSsh = ''Ssh''"
| "show_protocol PSocks = ''Socks''"
| "show_protocol PShadowsocks = ''Shadowsocks''"
| "show_protocol PVless = ''Vless''"

definition is_ascii_hexdigit :: "char \<Rightarrow> bool" where
  "is_ascii_hexdigit c \<longleftrightarrow> hex_val c \<noteq> None"

text \<open>Name, host, port, MTU and proxy settings.\<close>

definition listen_literals :: "string list" where
  "listen_literals = [''127.0.0.1'', ''0.0.0.0'', ''::1'', ''::'', ''LAN'']"

definition endpoint_guards :: "connection_config \<Rightarrow> config_error option list" where
  "endpoint_guards cfg =
     [rejectv (trim (cfg_name cfg) = []) ''name is required'',
      rejectv (128 < length (cfg_name cfg) \<or> any_control (cfg_name cfg))
        ''name must be at most 128 characters and contain no control characters'',
      rejectv (trim (cfg_host cfg) = []) ''host is required'',
      rejectv (255 < length (cfg_host cfg) \<or> any_control (cfg_host cfg) \<or> any_whitespace (cfg_host cfg)
          \<or> CHR ''/'' \<in> set (cfg_host cfg))
        ''host must be at most 255 characters and contain no whitespace, control characters, or path separators'',
      rejectv (cfg_port cfg = 0) (''port must be 1'' @ [CHR 0xE2, CHR 0x80, CHR 0x93] @ ''65535''),
      (case cfg_mtu cfg of
         None \<Rightarrow> None
       | Some mtu \<Rightarrow> rejectv (\<not> (576 \<le> mtu \<and> mtu \<le> 9000)) ''MTU must be between 576 and 9000''),
      rejectv (socks_port (cfg_proxy cfg) = 0 \<or> http_proxy_port (cfg_proxy cfg) = 0)
        ''proxy ports must be non-zero'',
      rejectv (socks_port (cfg_proxy cfg) = http_proxy_port (cfg_proxy cfg))
        ''SOCKS and HTTP proxy ports must be different'',
      rejectv (listen (cfg_proxy cfg) \<notin> set listen_literals \<and> parse_ip (listen (cfg_proxy cfg)) = None)
        (''invalid listen address: '' @ listen (cfg_proxy cfg))]"

text \<open>The arms of the \<^verbatim>\<open>match\<close> on protocol and settings.\<close>

definition ssh_guards :: "connection_config \<Rightarrow> config_error option list" where
  "ssh_guards cfg =
     [rejectv (cfg_smart_link_secret cfg = None
          \<and> (case cfg_username cfg of None \<Rightarrow> True | Some u \<Rightarrow> trim u = []))
        ''SSH username is required'',
      rejectv (cfg_smart_link_secret cfg = None
          \<and> (case cfg_username cfg of None \<Rightarrow> False | Some u \<Rightarrow> 255 < length u \<or> any_control u))
        ''SSH username is too long or contains control characters'']"

definition shadowsocks_guards :: "string \<Rightarrow> config_error option list" where
  "shadowsocks_guards method =
     [rejectv (trim method = []) ''Shadowsocks method is required'',
      rejectv (to_ascii_lowercase method \<notin> {''aes-128-gcm'', ''aes-256-gcm''})
        (''unsupported Shadowsocks method `'' @ method @
         ''`. Supported: aes-128-gcm, aes-256-gcm. SS2022 is not implemented in this phase.'')]"

definition reality_guards :: "connection_config \<Rightarrow> vless_settings \<Rightarrow> config_error option list" where
  "reality_guards cfg v =
     [rejectv (case vl_reality_public_key v of None \<Rightarrow> True | Some key \<Rightarrow> trim key = [])
        ''VLESS Reality requires a public key (`pbk`)'',
      rejectv (case tls_sni (cfg_tls cfg) of None \<Rightarrow> True | Some sni \<Rightarrow> trim sni = [])
        ''VLESS Reality requires a server name (`sni`)'',
      rejectv (to_ascii_lowercase (vl_network v) \<notin> {''tcp'', ''raw'', ''grpc'', ''xhttp''})
        ''VLESS Reality supports tcp, grpc, or xhttp transport'',
      (case vl_reality_short_id v of
         None \<Rightarrow> None
       | Some short_id \<Rightarrow>
           rejectv (16 < length short_id \<or> odd (length short_id) \<or> \<not> list_all is_ascii_hexdigit short_id)
             ''VLESS Reality short ID must be an even-length hexadecimal string of at most 16 characters'')]"

definition vless_guards :: "config_env \<Rightarrow> connection_config \<Rightarrow> vless_settings \<Rightarrow> config_error option list" where
  "vless_guards env cfg v =
     (let flow = to_ascii_lowercase (vl_flow v);
          network = to_ascii_lowercase (vl_network v);
          security = to_ascii_lowercase (vl_security v)
      in [rejectv (uuid_parse env (vl_uuid v) = None) ''VLESS uuid must be a valid UUID'',
          rejectv (vl_encryption v \<noteq> [] \<and> \<not> eq_ignore_ascii_case (vl_encryption v) ''none'')
            ''VLESS encryption must be `none` for Xray/sing-box compatibility'',
          rejectv (flow \<notin> {[], ''none'', ''xtls-rprx-vision'', ''xtls-rprx-vision-udp443''})
            (''unsupported VLESS flow `'' @ flow @ ''`''),
          rejectv (network \<notin> {''tcp'', ''raw'', ''ws'', ''websocket'', ''grpc'', ''httpupgrade'', ''xhttp''})
            (''unsupported VLESS network `'' @ network @ ''`''),
          rejectv (security \<notin> {''none'', [], ''tls'', ''reality''})
            (''unsupported VLESS security `'' @ security @ ''`''),
          rejectv (flow \<in> {''xtls-rprx-vision'', ''xtls-rprx-vision-udp443''}
              \<and> (network \<notin> {''tcp'', ''raw''} \<or> security \<notin> {''tls'', ''reality''}))
            ''VLESS Vision requires tcp with tls or reality'']
         @ (if security = ''reality'' then reality_guards cfg v else []))"

definition settings_guards :: "config_env \<Rightarrow> connection_config \<Rightarrow> config_error option list" where
  "settings_guards env cfg =
     (case (cfg_protocol cfg, cfg_settings cfg) of
        (PSsh, SetSsh _ _ _) \<Rightarrow> ssh_guards cfg
      | (PShadowsocks, SetShadowsocks method) \<Rightarrow> shadowsocks_guards method
      | (PVless, SetVless v) \<Rightarrow> vless_guards env cfg v
      | (PSocks, SetSocks) \<Rightarrow> []
      | (p, _) \<Rightarrow> [Some (Validation (''protocol/settings mismatch for '' @ show_protocol p))])"

text \<open>TLS and header fields, DNS servers, split-tunnel lists.\<close>

definition breaks_line :: "char \<Rightarrow> bool" where
  "breaks_line c \<longleftrightarrow> c = CR \<or> c = LF \<or> c = CHR 0x00"

definition transport_guards :: "config_env \<Rightarrow> connection_config \<Rightarrow> config_error option list" where
  "transport_guards env cfg =
     [rejectv (gw_enabled (cfg_udpgw cfg) \<and> cfg_protocol cfg \<noteq> PSsh) ''UDPGW is supported only for SSH profiles'',
      (case tls_sni (cfg_tls cfg) of
         None \<Rightarrow> None
       | Some sni \<Rightarrow> rejectv (255 < length sni \<or> any_control sni \<or> any_whitespace sni)
           ''TLS SNI is too long or contains whitespace/control characters''),
      (case tls_host (cfg_tls cfg) of
         None \<Rightarrow> None
       | Some host \<Rightarrow> rejectv (255 < length host \<or> list_ex breaks_line host)
           ''transport Host header is too long or contains forbidden characters''),
      (case tls_path (cfg_tls cfg) of
         None \<Rightarrow> None
       | Some path \<Rightarrow> rejectv (\<not> prefix ''/'' path \<or> 2048 < length path \<or> list_ex breaks_line path)
           ''WebSocket/HTTP Upgrade path must start with `/`, be at most 2048 bytes, and contain no control line breaks'')]
     @ map (\<lambda>alpn. rejectv (alpn = [] \<or> 255 < length alpn \<or> any_control alpn \<or> any_whitespace alpn)
             (''invalid TLS ALPN protocol: '' @ str_debug env alpn)) (tls_alpn (cfg_tls cfg))"

definition list_guards :: "config_env \<Rightarrow> connection_config \<Rightarrow> config_error option list" where
  "list_guards env cfg =
     map (\<lambda>server. rejectv (parse_ip server = None) (''invalid DNS server address: '' @ server))
       (dns_servers (cfg_dns cfg))
     @ map (\<lambda>cidr. rejectv (ipnet_parse env cidr = None) (''invalid split-bypass CIDR: '' @ cidr))
       (cfg_bypass_cidrs cfg)
     @ map (\<lambda>domain. rejectv (trim domain = [] \<or> CHR '' '' \<in> set domain) (''invalid split-bypass domain: '' @ domain))
       (cfg_bypass_domains cfg)"

definition validate_connection :: "config_env \<Rightarrow> connection_config \<Rightarrow> config_error + unit" where
  "validate_connection env cfg =
     first_error (endpoint_guards cfg @ settings_guards env cfg @ transport_guards env cfg @ list_guards env cfg)"

subsection \<open>What a validated profile guarantees\<close>

lemmas guard_defs = endpoint_guards_def ssh_guards_def shadowsocks_guards_def reality_guards_def
  vless_guards_def settings_guards_def transport_guards_def list_guards_def

abbreviation valid_config :: "config_env \<Rightarrow> connection_config \<Rightarrow> bool" where
  "valid_config env cfg \<equiv> validate_connection env cfg = Inr ()"

lemma valid_config_groups:
  "valid_config env cfg \<longleftrightarrow>
     first_error (endpoint_guards cfg) = Inr () \<and> first_error (settings_guards env cfg) = Inr ()
   \<and> first_error (transport_guards env cfg) = Inr () \<and> first_error (list_guards env cfg) = Inr ()"
  by (simp add: validate_connection_def)

lemma any_control_char: "c \<in> set s \<Longrightarrow> (of_char c :: nat) < 32 \<Longrightarrow> any_control s"
  by (induction s) auto

lemma no_control_line: "\<not> any_control s \<Longrightarrow> \<not> list_ex breaks_line s"
  by (auto simp: list_ex_iff breaks_line_def dest: any_control_char)

lemma trim_Nil [simp]: "trim [] = []"
  by (simp add: trim_def trim_start_id trim_end_id)

lemma valid_endpoint:
  assumes "valid_config env cfg"
  shows "cfg_port cfg \<noteq> 0" and "socks_port (cfg_proxy cfg) \<noteq> http_proxy_port (cfg_proxy cfg)"
    and "\<not> list_ex breaks_line (cfg_host cfg)" and "\<not> any_whitespace (cfg_host cfg)"
    and "length (cfg_host cfg) \<le> 255" and "cfg_host cfg \<noteq> []"
  using assms no_control_line [of "cfg_host cfg"]
  by (auto simp: valid_config_groups endpoint_guards_def)

lemma valid_transport:
  assumes "valid_config env cfg"
  shows "tls_sni (cfg_tls cfg) = Some sni \<Longrightarrow> \<not> list_ex breaks_line sni"
    and "tls_host (cfg_tls cfg) = Some h \<Longrightarrow> \<not> list_ex breaks_line h"
    and "tls_path (cfg_tls cfg) = Some p \<Longrightarrow> prefix ''/'' p \<and> \<not> list_ex breaks_line p"
    and "a \<in> set (tls_alpn (cfg_tls cfg)) \<Longrightarrow> a \<noteq> [] \<and> length a \<le> 255"
  using assms no_control_line [of sni]
  by (auto simp: valid_config_groups transport_guards_def)

lemma valid_dns_servers: "valid_config env cfg \<Longrightarrow> s \<in> set (dns_servers (cfg_dns cfg)) \<Longrightarrow> parse_ip s \<noteq> None"
  by (auto simp: valid_config_groups list_guards_def)

text \<open>The protocol tag and the settings of a validated profile belong together.\<close>

fun settings_match :: "protocol \<Rightarrow> protocol_settings \<Rightarrow> bool" where
  "settings_match PSsh (SetSsh k t p) = True"
| "settings_match PSocks SetSocks = True"
| "settings_match PShadowsocks (SetShadowsocks method) = True"
| "settings_match PVless (SetVless v) = True"
| "settings_match p s = False"

lemma valid_settings_match: "valid_config env cfg \<Longrightarrow> settings_match (cfg_protocol cfg) (cfg_settings cfg)"
  by (auto simp: valid_config_groups settings_guards_def split: protocol.splits protocol_settings.splits)

text \<open>Validation does not look at identifiers, times, notes, zones or the routing mode.\<close>

lemma validate_cong:
  assumes "cfg_name u = cfg_name cfg" "cfg_host u = cfg_host cfg" "cfg_port u = cfg_port cfg" "cfg_mtu u = cfg_mtu cfg"
    "cfg_proxy u = cfg_proxy cfg" "cfg_protocol u = cfg_protocol cfg" "cfg_settings u = cfg_settings cfg"
    "cfg_smart_link_secret u = cfg_smart_link_secret cfg" "cfg_username u = cfg_username cfg"
    "cfg_tls u = cfg_tls cfg" "cfg_udpgw u = cfg_udpgw cfg" "dns_servers (cfg_dns u) = dns_servers (cfg_dns cfg)"
    "cfg_bypass_cidrs u = cfg_bypass_cidrs cfg" "cfg_bypass_domains u = cfg_bypass_domains cfg"
  shows "validate_connection env u = validate_connection env cfg"
proof -
  have "endpoint_guards u = endpoint_guards cfg" using assms by (simp add: endpoint_guards_def)
  moreover have "ssh_guards u = ssh_guards cfg" using assms by (simp add: ssh_guards_def)
  moreover have "reality_guards u v = reality_guards cfg v" for v
    using assms by (simp add: reality_guards_def)
  moreover from this have "vless_guards env u v = vless_guards env cfg v" for v by (simp only: vless_guards_def)
  moreover have "cfg_protocol u = cfg_protocol cfg" "cfg_settings u = cfg_settings cfg"
    using assms by simp_all
  moreover have "transport_guards env u = transport_guards env cfg"
    using assms by (simp add: transport_guards_def)
  moreover have "list_guards env u = list_guards env cfg" using assms by (simp add: list_guards_def)
  ultimately show ?thesis by (simp only: validate_connection_def settings_guards_def)
qed

lemma validate_id [simp]: "validate_connection env (cfg\<lparr>cfg_id := i\<rparr>) = validate_connection env cfg"
  by (rule validate_cong) simp_all

lemma validate_updated_at [simp]: "validate_connection env (cfg\<lparr>cfg_updated_at := t\<rparr>) = validate_connection env cfg"
  by (rule validate_cong) simp_all

lemma validate_created_at [simp]: "validate_connection env (cfg\<lparr>cfg_created_at := t\<rparr>) = validate_connection env cfg"
  by (rule validate_cong) simp_all

lemma validate_dns_mode [simp]:
  "validate_connection env (cfg\<lparr>cfg_dns := (cfg_dns cfg)\<lparr>dns_mode_of := x\<rparr>\<rparr>) = validate_connection env cfg"
  by (rule validate_cong) simp_all

lemma validate_routing_mode [simp]: "validate_connection env (cfg\<lparr>cfg_routing_mode := r\<rparr>) = validate_connection env cfg"
  by (rule validate_cong) simp_all

lemma validate_authentication [simp]: "validate_connection env (cfg\<lparr>cfg_authentication := a\<rparr>) = validate_connection env cfg"
  by (rule validate_cong) simp_all

lemma validate_selected_zone [simp]: "validate_connection env (cfg\<lparr>cfg_selected_zone := z\<rparr>) = validate_connection env cfg"
  by (rule validate_cong) simp_all

lemma validate_zones_cache [simp]: "validate_connection env (cfg\<lparr>cfg_zones_cache := c\<rparr>) = validate_connection env cfg"
  by (rule validate_cong) simp_all

end
