(* ===== verification/Config_Import.thy ===== *)
theory Config_Import
  imports Config_Validate
begin

text \<open>
  Importing a profile (\<^verbatim>\<open>crates/config/src/import.rs\<close>): JSON exports and the share links
  \<^verbatim>\<open>ss://\<close>, \<^verbatim>\<open>vless://\<close> and \<^verbatim>\<open>ssh://\<close>. The URL, JSON and base64 parsers are other crates: they
  are fields of \<open>import_env\<close>, together with the fresh UUID and the clock.
\<close>

record url =
  url_scheme :: string
  url_username :: string
  url_password :: "string option"
  url_host_str :: "string option"
  url_port :: "u16 option"
  url_path :: string
  url_fragment :: "string option"
  url_query_pairs :: "(string \<times> string) list"

record 'json import_env = config_env +
  url_parse :: "string \<Rightarrow> string + url"
  json_parse :: "string \<Rightarrow> string + 'json"
  json_get :: "'json \<Rightarrow> string \<Rightarrow> 'json option"
  json_as_u64 :: "'json \<Rightarrow> nat option"
  json_profile :: "'json \<Rightarrow> string + connection_config"
  json_print :: "export_document \<Rightarrow> string"
  b64_standard :: "string \<Rightarrow> string + bytes"
  b64_url_safe :: "string \<Rightarrow> string + bytes"
  fresh_uuid :: uuid
  utc_now :: timestamp

definition to_config_env :: "('json, 'a) import_env_scheme \<Rightarrow> config_env" where
  "to_config_env env =
     \<lparr> uuid_parse = uuid_parse env, uuid_show = uuid_show env, ipnet_parse = ipnet_parse env, str_debug = str_debug env \<rparr>"

definition MAX_IMPORT_BYTES :: nat where
  "MAX_IMPORT_BYTES = 1024 * 1024"

record parsed_import =
  imp_config :: connection_config
  imp_password :: "string option"

subsection \<open>String helpers\<close>

text \<open>\<^verbatim>\<open>u8::from_str_radix(s, 16)\<close>: an optional plus sign, at least one digit, a value below 256.\<close>

fun hex_digits :: "nat \<Rightarrow> string \<Rightarrow> nat option" where
  "hex_digits acc [] = Some acc"
| "hex_digits acc (c # s) = (case hex_val c of None \<Rightarrow> None | Some d \<Rightarrow> hex_digits (16 * acc + d) s)"

definition u8_from_hex :: "string \<Rightarrow> u8 option" where
  "u8_from_hex s =
     (let ds = (case s of [] \<Rightarrow> [] | c # t \<Rightarrow> if c = CHR ''+'' then t else s) in
      if ds = [] then None
      else case hex_digits 0 ds of
             None \<Rightarrow> None
           | Some v \<Rightarrow> if v < 256 then Some (word_of_nat v) else None)"

function percent_bytes :: "bytes \<Rightarrow> bytes" where
  "percent_bytes bs =
     (case bs of
        [] \<Rightarrow> []
      | b # rest \<Rightarrow>
          (case (if b = 0x25 \<and> 2 \<le> length rest
                 then u8_from_hex (case from_utf8 (take 2 rest) of None \<Rightarrow> [] | Some t \<Rightarrow> t) else None) of
             Some v \<Rightarrow> v # percent_bytes (drop 2 rest)
           | None \<Rightarrow> b # percent_bytes rest))"
  by auto
termination by (relation "measure length") auto

declare percent_bytes.simps [simp del]

definition percent_decode :: "string \<Rightarrow> string" where
  "percent_decode s = from_utf8_lossy (percent_bytes (as_bytes s))"

definition split_fragment :: "string \<Rightarrow> string \<times> string option" where
  "split_fragment s =
     (case split_once (CHR ''#'') s of Some (a, b) \<Rightarrow> (a, Some (percent_decode b)) | None \<Rightarrow> (s, None))"

definition split_host_port :: "string \<Rightarrow> u16 \<Rightarrow> config_error + (string \<times> u16)" where
  "split_host_port s dflt =
     (case strip_prefix ''['' s of
        Some rest \<Rightarrow>
          (case split_once (CHR '']'') rest of
             None \<Rightarrow> Inl (Import ''bad IPv6 host'')
           | Some (host, portpart) \<Rightarrow>
               (case strip_prefix '':'' portpart of
                  None \<Rightarrow> Inr (host, dflt)
                | Some p \<Rightarrow> map_sum id (Pair host) (ok_or (Import ''bad port'') (parse_u16 p))))
      | None \<Rightarrow>
          (case rsplit_once (CHR '':'') s of
             Some (h, p) \<Rightarrow>
               if CHR '':'' \<in> set h then Inr (s, dflt)
               else map_sum id (Pair h) (ok_or (Import ''bad port'') (parse_u16 p))
           | None \<Rightarrow> Inr (s, dflt)))"

definition decode_base64 :: "('json, 'a) import_env_scheme \<Rightarrow> string \<Rightarrow> string + bytes" where
  "decode_base64 env s =
     (let cleaned = without_whitespace s;
          padded = (if length cleaned mod 4 = 2 then cleaned @ ''==''
                    else if length cleaned mod 4 = 3 then cleaned @ ''='' else cleaned)
      in map_err (\<lambda>e. ''ss:// base64: '' @ e)
           (case b64_standard env padded of Inr bs \<Rightarrow> Inr bs | Inl _ \<Rightarrow> b64_url_safe env padded))"

subsection \<open>The formats\<close>

definition parse_json :: "('json, 'a) import_env_scheme \<Rightarrow> string \<Rightarrow> config_error + parsed_import" where
  "parse_json env raw =
     and_then (map_err JsonError (json_parse env raw)) (\<lambda>value.
       let version = (case json_get env value ''version'' of
                        None \<Rightarrow> 1 | Some v \<Rightarrow> (case json_as_u64 env v of None \<Rightarrow> 1 | Some n \<Rightarrow> n))
       in if CONFIG_VERSION < version then Inl (Import (''unsupported config version '' @ show_nat version))
          else and_then (map_err JsonError
                  (case json_get env value ''profile'' of
                     Some p \<Rightarrow> json_profile env p | None \<Rightarrow> json_profile env value)) (\<lambda>profile0.
            let profile = profile0\<lparr> cfg_id := fresh_uuid env, cfg_updated_at := utc_now env,
                                    cfg_routing_mode := ProxyOnly \<rparr>
            in and_then (validate_connection (to_config_env env) profile) (\<lambda>_.
                 Inr \<lparr> imp_config = profile, imp_password = None \<rparr>)))"

definition parse_ss :: "('json, 'a) import_env_scheme \<Rightarrow> string \<Rightarrow> config_error + parsed_import" where
  "parse_ss env raw =
     (let rest = trim (drop 5 (trim raw)); (body, fragment) = split_fragment rest in
      and_then (if CHR ''@'' \<in> set body then Inr (percent_decode body)
                else and_then (map_err Import (decode_base64 env (hd (split_on (CHR ''#'') body)))) (\<lambda>bs.
                       ok_or (Import ''ss:// is not UTF-8'') (from_utf8 bs))) (\<lambda>decoded.
      and_then (ok_or (Import ''ss:// missing host'') (rsplit_once (CHR ''@'') decoded)) (\<lambda>(userinfo, hostport).
      and_then (ok_or (Import ''ss:// missing method:password'') (split_once (CHR '':'') userinfo)) (\<lambda>(method, password).
      and_then (split_host_port hostport 8388) (\<lambda>(host, port).
        let name = (case fragment of None \<Rightarrow> ''ss '' @ host | Some f \<Rightarrow> f);
            cfg = new_shadowsocks (fresh_uuid env) (utc_now env) name host port method
        in and_then (map_err (Import \<circ> show_config_error) (validate_connection (to_config_env env) cfg)) (\<lambda>_.
             Inr \<lparr> imp_config = cfg, imp_password = Some password \<rparr>))))))"

definition on_vless :: "(vless_settings \<Rightarrow> vless_settings) \<Rightarrow> connection_config \<Rightarrow> connection_config" where
  "on_vless f cfg = (case cfg_settings cfg of SetVless v \<Rightarrow> cfg\<lparr>cfg_settings := SetVless (f v)\<rparr> | _ \<Rightarrow> cfg)"

definition on_tls :: "(tls_settings \<Rightarrow> tls_settings) \<Rightarrow> connection_config \<Rightarrow> connection_config" where
  "on_tls f cfg = cfg\<lparr>cfg_tls := f (cfg_tls cfg)\<rparr>"

definition fingerprint_param :: "string \<Rightarrow> tls_fingerprint_profile" where
  "fingerprint_param v =
     (let l = to_ascii_lowercase v in
      if l = ''chrome'' then FpChrome else if l = ''firefox'' then FpFirefox
      else if l = ''safari'' then FpSafari else if l = ''custom'' then FpCustom else FpDefault)"

definition network_param :: "string \<Rightarrow> string" where
  "network_param v =
     (let l = to_ascii_lowercase v in
      if l \<in> {''raw'', ''none'', []} then ''tcp'' else if l = ''websocket'' then ''ws''
      else if l = ''http_upgrade'' then ''httpupgrade'' else l)"

definition vless_param :: "string \<times> string \<Rightarrow> connection_config \<Rightarrow> connection_config" where
  "vless_param kv cfg =
     (let k = to_ascii_lowercase (fst kv); v = snd kv in
      if k = ''encryption'' then on_vless (vl_encryption_update (\<lambda>_. v)) cfg
      else if k = ''flow'' then on_vless (vl_flow_update (\<lambda>_. v)) cfg
      else if k = ''path'' then on_vless (vl_path_update (\<lambda>_. Some v)) (on_tls (tls_path_update (\<lambda>_. Some v)) cfg)
      else if k = ''host'' then on_vless (vl_host_update (\<lambda>_. Some v)) (on_tls (tls_host_update (\<lambda>_. Some v)) cfg)
      else if k = ''sni'' then on_tls (tls_sni_update (\<lambda>_. Some v)) cfg
      else if k \<in> {''fp'', ''fingerprint''} then on_tls (tls_fingerprint_update (\<lambda>_. fingerprint_param v)) cfg
      else if k = ''security'' then on_vless (vl_security_update (\<lambda>_. to_ascii_lowercase v)) cfg
      else if k \<in> {''type'', ''net''} then on_vless (vl_network_update (\<lambda>_. network_param v)) cfg
      else if k \<in> {''pbk'', ''publickey'', ''password''} then on_vless (vl_reality_public_key_update (\<lambda>_. Some v)) cfg
      else if k \<in> {''sid'', ''shortid''} then on_vless (vl_reality_short_id_update (\<lambda>_. Some v)) cfg
      else if k = ''servicename'' then on_vless (vl_grpc_service_name_update (\<lambda>_. Some v)) cfg
      else if k = ''mode'' then on_vless (vl_xhttp_mode_update (\<lambda>_. Some v)) cfg
      else if k \<in> {''spx'', ''spiderx''} then on_vless (vl_spider_x_update (\<lambda>_. Some v)) cfg
      else if k = ''alpn'' then
        on_tls (tls_alpn_update (\<lambda>_. filter (\<lambda>s. s \<noteq> []) (map trim (split_on (CHR '','') v)))) cfg
      else if k \<in> {''allowinsecure'', ''insecure''} \<and> (v = ''1'' \<or> eq_ignore_ascii_case v ''true'')
        then on_tls (tls_verify_update (\<lambda>_. False)) cfg
      else cfg)"

text \<open>
  \<open>vless_transport\<close> is the second half of \<^verbatim>\<open>parse_vless\<close>: the transport that the security and the
  network of the link ask for. The arm \<^verbatim>\<open>unreachable!()\<close> is the last one.
\<close>

definition uses_tls :: "string \<Rightarrow> config_error + bool" where
  "uses_tls security =
     (if security \<in> {''none'', []} then Inr False
      else if security \<in> {''tls'', ''reality''} then Inr True
      else Inl (Import (''unsupported VLESS security `'' @ security @ ''` (supported: none, tls, reality)'')))"

definition network_transport :: "string \<Rightarrow> bool \<Rightarrow> connection_config \<Rightarrow> config_error + connection_config" where
  "network_transport network tls cfg =
     (if network \<in> {''tcp'', ''raw'', ''none'', []} then Inr (cfg\<lparr>cfg_transport := if tls then Tls else Direct\<rparr>)
      else if network \<in> {''ws'', ''websocket''} then Inr (cfg\<lparr>cfg_transport := if tls then Wss else WebSocket\<rparr>)
      else if network \<in> {''httpupgrade'', ''http_upgrade''} then
        Inr ((if tls \<and> tls_sni (cfg_tls cfg) = None
              then on_tls (tls_sni_update (\<lambda>_. Some (cfg_host cfg))) cfg else cfg)\<lparr>cfg_transport := HttpUpgrade\<rparr>)
      else if network \<in> {''grpc'', ''xhttp''} then Inr (cfg\<lparr>cfg_transport := Direct\<rparr>)
      else Inl (Import (''unsupported VLESS network `'' @ network @ ''` (supported: tcp, ws, grpc, httpupgrade, xhttp)'')))"

definition vless_transport :: "connection_config \<Rightarrow> config_error + connection_config" where
  "vless_transport cfg =
     (case cfg_settings cfg of
        SetVless v \<Rightarrow> and_then (uses_tls (vl_security v)) (\<lambda>tls. network_transport (vl_network v) tls cfg)
      | _ \<Rightarrow> Inl (Import ''unreachable''))"

definition link_name :: "url \<Rightarrow> string \<Rightarrow> string" where
  "link_name u fallback =
     (case url_fragment u of
        None \<Rightarrow> fallback
      | Some f \<Rightarrow> (let s = percent_decode f in if s = [] then fallback else s))"

definition parse_vless :: "('json, 'a) import_env_scheme \<Rightarrow> string \<Rightarrow> config_error + parsed_import" where
  "parse_vless env raw =
     and_then (map_err Import (url_parse env raw)) (\<lambda>u.
       if url_username u = [] then Inl (Import ''vless:// missing uuid'')
       else and_then (ok_or (Import ''vless:// missing host'') (url_host_str u)) (\<lambda>host.
         let port = (case url_port u of None \<Rightarrow> 443 | Some p \<Rightarrow> p);
             name = link_name u (''vless '' @ host);
             cfg0 = new_vless (fresh_uuid env) (utc_now env) name host port (url_username u)
         in and_then (vless_transport (fold vless_param (url_query_pairs u) cfg0)) (\<lambda>cfg.
            and_then (validate_connection (to_config_env env) cfg) (\<lambda>_.
              Inr \<lparr> imp_config = cfg, imp_password = None \<rparr>))))"

definition parse_ssh :: "('json, 'a) import_env_scheme \<Rightarrow> string \<Rightarrow> config_error + parsed_import" where
  "parse_ssh env raw =
     and_then (map_err Import (url_parse env raw)) (\<lambda>u.
     and_then (ok_or (Import ''ssh:// missing host'') (url_host_str u)) (\<lambda>host.
       let port = (case url_port u of None \<Rightarrow> 22 | Some p \<Rightarrow> p) in
       if url_username u = [] then Inl (Import ''ssh:// missing username'')
       else let password = map_option percent_decode (url_password u);
                name = link_name u (''ssh '' @ host);
                cfg = (new_ssh (fresh_uuid env) (utc_now env) name host port)
                  \<lparr>cfg_username := Some (percent_decode (url_username u))\<rparr>
            in and_then (validate_connection (to_config_env env) cfg) (\<lambda>_.
                 Inr \<lparr> imp_config = cfg, imp_password = password \<rparr>)))"

definition parse_import :: "('json, 'a) import_env_scheme \<Rightarrow> string \<Rightarrow> config_error + parsed_import" where
  "parse_import env raw =
     (if MAX_IMPORT_BYTES < length raw
      then Inl (Import (''import exceeds the '' @ show_nat (MAX_IMPORT_BYTES div 1024) @ '' KiB size limit''))
      else let trimmed = trim raw; lower = to_ascii_lowercase trimmed in
        if trimmed = [] then Inl (Import ''empty import'')
        else if prefix ''{'' trimmed then parse_json env trimmed
        else if prefix ''ss://'' lower then parse_ss env trimmed
        else if prefix ''vless://'' lower then parse_vless env trimmed
        else if prefix ''ssh://'' lower then parse_ssh env trimmed
        else Inl (Import ''unrecognized import (need JSON, ss://, vless://, or ssh://)''))"

subsection \<open>What an import yields\<close>

lemma on_vless_mode [simp]: "cfg_routing_mode (on_vless f cfg) = cfg_routing_mode cfg" "cfg_id (on_vless f cfg) = cfg_id cfg"
  by (simp_all add: on_vless_def split: protocol_settings.splits)

lemma on_tls_mode [simp]: "cfg_routing_mode (on_tls f cfg) = cfg_routing_mode cfg" "cfg_id (on_tls f cfg) = cfg_id cfg"
  by (simp_all add: on_tls_def)

lemma vless_param_mode [simp]:
  "cfg_routing_mode (vless_param kv cfg) = cfg_routing_mode cfg" "cfg_id (vless_param kv cfg) = cfg_id cfg"
  unfolding vless_param_def Let_def by (simp_all only: if_distrib [of cfg_routing_mode] if_distrib [of cfg_id]
      on_vless_mode on_tls_mode if_cancel)

lemma vless_params_mode [simp]:
  "cfg_routing_mode (fold vless_param kvs cfg) = cfg_routing_mode cfg" "cfg_id (fold vless_param kvs cfg) = cfg_id cfg"
  by (induction kvs arbitrary: cfg) simp_all

lemma network_transport_mode:
  "network_transport network tls cfg = Inr cfg' \<Longrightarrow> cfg_routing_mode cfg' = cfg_routing_mode cfg \<and> cfg_id cfg' = cfg_id cfg"
  unfolding network_transport_def by (simp del: insert_iff split: if_split_asm; elim subst; simp)

lemma vless_transport_mode:
  "vless_transport cfg = Inr cfg' \<Longrightarrow> cfg_routing_mode cfg' = cfg_routing_mode cfg \<and> cfg_id cfg' = cfg_id cfg"
  by (auto simp: vless_transport_def and_then_eq_Inr dest: network_transport_mode split: protocol_settings.splits)

definition import_ok :: "('json, 'a) import_env_scheme \<Rightarrow> parsed_import \<Rightarrow> bool" where
  "import_ok env p \<longleftrightarrow>
     valid_config (to_config_env env) (imp_config p) \<and> cfg_routing_mode (imp_config p) = ProxyOnly
   \<and> cfg_id (imp_config p) = fresh_uuid env"

lemma parse_json_ok: "parse_json env raw = Inr p \<Longrightarrow> import_ok env p"
  by (auto simp: parse_json_def import_ok_def Let_def and_then_eq_Inr split: if_splits)

lemma parse_ss_ok: "parse_ss env raw = Inr p \<Longrightarrow> import_ok env p"
  by (auto simp: parse_ss_def import_ok_def Let_def and_then_eq_Inr new_shadowsocks_def split: prod.splits)

lemma parse_vless_ok: "parse_vless env raw = Inr p \<Longrightarrow> import_ok env p"
  by (auto simp: parse_vless_def import_ok_def Let_def and_then_eq_Inr new_vless_def
      dest!: vless_transport_mode split: if_splits)

lemma parse_ssh_ok: "parse_ssh env raw = Inr p \<Longrightarrow> import_ok env p"
  by (auto simp: parse_ssh_def import_ok_def Let_def and_then_eq_Inr new_ssh_def split: if_splits)

text \<open>
  C27. Whatever text is imported (JSON or any share link), a successful import has a
  profile that passes validation, with a fresh identifier and the proxy-only routing mode: no
  import can enable the full tunnel or replace a stored profile.
\<close>

theorem parse_import_yields_valid:
  "case parse_import env raw of
     Inl e \<Rightarrow> True
   | Inr p \<Rightarrow> valid_config (to_config_env env) (imp_config p) \<and> cfg_routing_mode (imp_config p) = ProxyOnly
            \<and> cfg_id (imp_config p) = fresh_uuid env
            \<and> settings_match (cfg_protocol (imp_config p)) (cfg_settings (imp_config p))"
proof (cases "parse_import env raw")
  case (Inr p)
  then have "import_ok env p"
    by (auto simp: parse_import_def Let_def dest: parse_json_ok parse_ss_ok parse_vless_ok parse_ssh_ok split: if_splits)
  then show ?thesis using Inr valid_settings_match by (auto simp: import_ok_def)
qed simp

subsection \<open>Exports are read back\<close>

definition json_reads_back :: "('json, 'a) import_env_scheme \<Rightarrow> export_document \<Rightarrow> bool" where
  "json_reads_back env doc \<longleftrightarrow>
     (\<exists>j jv jp body. json_print env doc = ''{'' @ body @ ''}'' \<and> json_parse env (json_print env doc) = Inr j
        \<and> json_get env j ''version'' = Some jv \<and> json_as_u64 env jv = Some (doc_version doc)
        \<and> json_get env j ''profile'' = Some jp \<and> json_profile env jp = Inr (doc_profile doc))"

lemma first_error_skip: "first_error gs = Inr () \<Longrightarrow> first_error (gs @ hs) = first_error hs"
  by (induction gs rule: first_error.induct) auto

lemma parse_import_json:
  assumes "json_reads_back env (export_safe c)" and "length (json_print env (export_safe c)) \<le> MAX_IMPORT_BYTES"
  shows "parse_import env (json_print env (export_safe c)) =
     (let p = (doc_profile (export_safe c))\<lparr>cfg_id := fresh_uuid env, cfg_updated_at := utc_now env, cfg_routing_mode := ProxyOnly\<rparr>
      in and_then (validate_connection (to_config_env env) p) (\<lambda>_. Inr \<lparr>imp_config = p, imp_password = None\<rparr>))"
proof -
  obtain j jv jp body where j: "json_print env (export_safe c) = ''{'' @ body @ ''}''"
    "json_parse env (json_print env (export_safe c)) = Inr j" "json_get env j ''version'' = Some jv"
    "json_as_u64 env jv = Some (doc_version (export_safe c))"
    "json_get env j ''profile'' = Some jp" "json_profile env jp = Inr (doc_profile (export_safe c))"
    using assms(1) unfolding json_reads_back_def by blast
  have t: "trim (json_print env (export_safe c)) = json_print env (export_safe c)"
    by (rule trim_graph) (simp_all add: j(1) graph_char_def)
  have "doc_version (export_safe c) = CONFIG_VERSION" by (simp add: export_safe_def)
  then have "parse_json env (json_print env (export_safe c)) = (let p = (doc_profile (export_safe c))\<lparr>cfg_id := fresh_uuid env, cfg_updated_at := utc_now env, cfg_routing_mode := ProxyOnly\<rparr>
      in and_then (validate_connection (to_config_env env) p) (\<lambda>_. Inr \<lparr>imp_config = p, imp_password = None\<rparr>))"
    using j by (simp add: parse_json_def Let_def)
  moreover have "prefix ''{'' (json_print env (export_safe c))" "json_print env (export_safe c) \<noteq> []"
    by (simp_all add: j(1))
  ultimately show ?thesis using assms(2) t by (simp add: parse_import_def)
qed

text \<open>The export of a profile without a Smart Config link is as valid as the profile.\<close>

lemma export_valid:
  assumes "cfg_smart_link_secret c = None"
  shows "validate_connection env (doc_profile (export_safe c)) = validate_connection env c"
proof -
  let ?p = "c\<lparr>cfg_proxy := (cfg_proxy c)\<lparr>auth_secret := None\<rparr>\<rparr>"
  have "doc_profile (export_safe c) = ?p\<lparr>cfg_authentication := strip_auth (cfg_authentication c)\<rparr>"
    using assms by (simp add: export_safe_def)
  moreover have "ssh_guards ?p = ssh_guards c" "reality_guards ?p v = reality_guards c v" for v
    by (simp_all add: ssh_guards_def reality_guards_def)
  moreover from this have "vless_guards env ?p v = vless_guards env c v" for v by (simp only: vless_guards_def)
  moreover have "endpoint_guards ?p = endpoint_guards c" "transport_guards env ?p = transport_guards env c"
    "list_guards env ?p = list_guards env c" "cfg_protocol ?p = cfg_protocol c" "cfg_settings ?p = cfg_settings c"
    by (simp_all add: endpoint_guards_def transport_guards_def list_guards_def)
  ultimately show ?thesis
    by (simp only: validate_authentication) (simp only: validate_connection_def settings_guards_def)
qed

lemma export_smart_invalid:
  assumes "valid_config env c" and "cfg_protocol c = PSsh" and "cfg_username c = None"
  shows "validate_connection env (doc_profile (export_safe c)) = Inl (Validation ''SSH username is required'')"
proof -
  let ?d = "doc_profile (export_safe c)"
  have "endpoint_guards ?d = endpoint_guards c" by (simp add: endpoint_guards_def export_safe_def)
  then have e: "first_error (endpoint_guards ?d) = Inr ()" using assms(1) by (simp add: valid_config_groups)
  have "settings_match (cfg_protocol c) (cfg_settings c)" using assms(1) by (rule valid_settings_match)
  then obtain k t p where "cfg_settings c = SetSsh k t p" using assms(2) by (cases "cfg_settings c") auto
  then have "settings_guards env ?d = ssh_guards ?d"
    using assms(2) by (simp add: settings_guards_def export_safe_def)
  moreover have "ssh_guards ?d = Some (Validation ''SSH username is required'') # tl (ssh_guards ?d)"
    using assms(3) by (simp add: ssh_guards_def export_safe_def reject_def)
  ultimately show ?thesis by (metis append_Cons first_error.simps(3) first_error_skip [OF e] validate_connection_def)
qed

text \<open>
  C28. A profile survives export and import: what comes back is the profile itself, with a new
  identifier and time stamp, the proxy-only mode and no vault references. The exception is a Smart Config
  profile: its only credential is the reference that the export strips, so its own export
  is refused on import with the error that a user name is required.
\<close>

theorem export_import_roundtrip:
  assumes "valid_config (to_config_env env) c" and "json_reads_back env (export_safe c)"
    and "length (json_print env (export_safe c)) \<le> MAX_IMPORT_BYTES"
    and "cfg_smart_link_secret c = None \<or> cfg_protocol c = PSsh \<and> cfg_username c = None"
  shows "parse_import env (json_print env (export_safe c)) =
     (if cfg_smart_link_secret c = None
      then Inr \<lparr> imp_config = c\<lparr> cfg_authentication := strip_auth (cfg_authentication c),
                   cfg_proxy := (cfg_proxy c)\<lparr>auth_secret := None\<rparr>,
                   cfg_id := fresh_uuid env, cfg_updated_at := utc_now env, cfg_routing_mode := ProxyOnly \<rparr>,
                 imp_password = None \<rparr>
      else Inl (Validation ''SSH username is required''))"
proof (cases "cfg_smart_link_secret c = None")
  case True
  then show ?thesis using assms(1) export_valid [OF True, of "to_config_env env"]
    unfolding parse_import_json [OF assms(2,3)] Let_def by (simp add: export_safe_def)
next
  case False
  then have "cfg_protocol c = PSsh" "cfg_username c = None" using assms(4) by auto
  then have "validate_connection (to_config_env env) (doc_profile (export_safe c)) = Inl (Validation ''SSH username is required'')"
    by (rule export_smart_invalid [OF assms(1)])
  then show ?thesis using False unfolding parse_import_json [OF assms(2,3)] Let_def by simp
qed

definition example_config :: connection_config where
  "example_config = (new_ssh 1 0 ''h'' ''x.io'' 22)
     \<lparr> cfg_username := Some ''u'', cfg_authentication := Password (Some \<lparr>ref_id = ''sec_1''\<rparr>) \<rparr>"

definition example_import_env :: "nat import_env" where
  "example_import_env =
     \<lparr> uuid_parse = (\<lambda>_. None), uuid_show = (\<lambda>_. []), ipnet_parse = (\<lambda>_. None), str_debug = (\<lambda>s. s),
       url_parse = (\<lambda>_. Inl ''no URL''), json_parse = (\<lambda>_. Inr 0),
       json_get = (\<lambda>_ k. Some (if k = ''version'' then 1 else 2)), json_as_u64 = Some,
       json_profile = (\<lambda>_. Inr (doc_profile (export_safe example_config))),
       json_print = (\<lambda>_. ''{}''), b64_standard = (\<lambda>_. Inl []), b64_url_safe = (\<lambda>_. Inl []),
       fresh_uuid = 7, utc_now = 9 \<rparr>"

lemma graph_no_whitespace: "list_all graph_char s \<Longrightarrow> \<not> any_whitespace s"
  by (induction s) (simp_all add: ws_at_start_graph)

lemma example_config_valid: "valid_config env example_config"
proof -
  have "trim ''h'' = ''h''" "trim ''x.io'' = ''x.io''" "trim ''u'' = ''u''"
    by (rule trim_graph; simp add: graph_char_def)+
  moreover have "\<not> any_whitespace ''x.io''" by (rule graph_no_whitespace) (simp add: graph_char_def)
  moreover have "(1080 :: u16) \<noteq> 8080" "(22 :: u16) \<noteq> 0" "(1080 :: u16) \<noteq> 0" "(8080 :: u16) \<noteq> 0" by simp_all
  ultimately show ?thesis
    by (simp add: valid_config_groups guard_defs example_config_def new_ssh_def default_tls_settings_def
        default_dns_settings_def default_proxy_share_settings_def default_udpgw_settings_def listen_literals_def)
qed

lemma example_json: "json_reads_back example_import_env (export_safe example_config)"
  by (simp add: json_reads_back_def example_import_env_def export_safe_def CONFIG_VERSION_def)

theorem export_import_roundtrip_witness:
  "parse_import example_import_env (json_print example_import_env (export_safe example_config)) =
     Inr \<lparr> imp_config = example_config\<lparr> cfg_authentication := Password None, cfg_id := 7, cfg_updated_at := 9 \<rparr>,
           imp_password = None \<rparr>"
proof -
  have s: "cfg_smart_link_secret example_config = None" by (simp add: example_config_def new_ssh_def)
  have "length (json_print example_import_env (export_safe example_config)) \<le> MAX_IMPORT_BYTES"
    by (simp add: example_import_env_def MAX_IMPORT_BYTES_def)
  then show ?thesis
    using export_import_roundtrip [OF example_config_valid example_json, OF _ disjI1 [OF s]] s
    by (simp add: example_config_def new_ssh_def default_proxy_share_settings_def) (simp add: example_import_env_def)
qed

subsection \<open>Percent encoding and Shadowsocks links\<close>

definition hex_char :: "nat \<Rightarrow> char" where
  "hex_char d = char_of (if d < 10 then 48 + d else 87 + d)"

definition percent_encode :: "string \<Rightarrow> string" where
  "percent_encode s = concat (map (\<lambda>c. [CHR ''%'', hex_char (of_char c div 16), hex_char (of_char c mod 16)]) s)"

lemma hex_val_hex_char: "d < 16 \<Longrightarrow> hex_val (hex_char d) = Some d"
  by (auto simp: hex_char_def Let_def)

lemma hex_char_ascii: "d < 16 \<Longrightarrow> (of_char (hex_char d) :: nat) < 128 \<and> hex_char d \<noteq> CHR ''+''"
  by (auto simp: hex_char_def dest!: arg_cong [of _ _ "of_char :: char \<Rightarrow> nat"])

lemma u8_from_hex_pair:
  assumes "hex_val h = Some a" and "hex_val l = Some b" and "a < 16" and "b < 16"
  shows "u8_from_hex [h, l] = Some (word_of_nat (16 * a + b))"
proof -
  have "h \<noteq> CHR ''+''" using assms(1) by auto
  moreover have "16 * a + b < 256" using assms(3,4) by simp
  ultimately show ?thesis using assms(1,2) by (simp add: u8_from_hex_def del: hex_val.simps)
qed

lemma percent_bytes_escape:
  assumes "hex_val h = Some a" and "hex_val l = Some b" and "a < 16" and "b < 16"
    and "(of_char h :: nat) < 128" and "(of_char l :: nat) < 128"
  shows "percent_bytes (0x25 # byte_of h # byte_of l # rest) = word_of_nat (16 * a + b) # percent_bytes rest"
proof -
  have "from_utf8 (as_bytes [h, l]) = Some [h, l]" using assms(5,6) by (intro from_utf8_ascii) simp
  then have "from_utf8 [byte_of h, byte_of l] = Some [h, l]" by (simp add: as_bytes_Cons)
  then show ?thesis
    using u8_from_hex_pair [OF assms(1-4)] by (subst percent_bytes.simps) simp
qed

lemma percent_bytes_other: "b \<noteq> 0x25 \<Longrightarrow> percent_bytes (b # rest) = b # percent_bytes rest"
  by (subst percent_bytes.simps) simp

lemma percent_bytes_Nil [simp]: "percent_bytes [] = []"
  by (subst percent_bytes.simps) simp

lemma byte_of_percent: "byte_of c = 0x25 \<longleftrightarrow> c = CHR ''%''"
proof -
  have "(0x25 :: u8) = byte_of (CHR ''%'')" by (simp add: byte_of_def)
  then show ?thesis by (metis char_of_byte_of)
qed

lemma char_hex_digits: "(of_char c :: nat) div 16 < 16" "(of_char c :: nat) mod 16 < 16"
proof -
  have "(of_char c :: nat) < 16 * 16" using nat_of_char_less_256 [of c] by simp
  then show "(of_char c :: nat) div 16 < 16" by (rule less_mult_imp_div_less)
qed simp

lemma percent_bytes_encode:
  "percent_bytes (as_bytes (percent_encode s) @ rest) = as_bytes s @ percent_bytes rest"
proof (induction s)
  case (Cons c s)
  let ?n = "of_char c :: nat"
  have n: "?n div 16 < 16" "?n mod 16 < 16" by (rule char_hex_digits)+
  have "word_of_nat (16 * (?n div 16) + ?n mod 16) = byte_of c" by (simp add: byte_of_def)
  moreover have "as_bytes (percent_encode (c # s)) @ rest
      = 0x25 # byte_of (hex_char (?n div 16)) # byte_of (hex_char (?n mod 16)) # (as_bytes (percent_encode s) @ rest)"
    by (simp add: percent_encode_def as_bytes_Cons byte_of_percent)
  ultimately show ?case using Cons n
    by (simp add: percent_bytes_escape [OF hex_val_hex_char hex_val_hex_char] hex_char_ascii as_bytes_Cons)
qed (simp add: percent_encode_def)

lemma percent_bytes_plain: "CHR ''%'' \<notin> set s \<Longrightarrow> percent_bytes (as_bytes s) = as_bytes s"
  by (induction s) (auto simp: as_bytes_Cons percent_bytes_other byte_of_percent)

lemma percent_encode_chars:
  "c \<in> set (percent_encode s) \<Longrightarrow> c = CHR ''%'' \<or> (\<exists>d<16. c = hex_char d)"
  using char_hex_digits by (fastforce simp: percent_encode_def split: if_splits)

lemma hex_char_graph: "d < 16 \<Longrightarrow> graph_char (hex_char d) \<and> hex_val (hex_char d) \<noteq> None"
  by (auto simp: graph_char_def hex_char_def Let_def)

lemma percent_encode_no: "hex_val c = None \<Longrightarrow> c \<noteq> CHR ''%'' \<Longrightarrow> c \<notin> set (percent_encode s)"
  using percent_encode_chars hex_char_graph by blast

definition ss_link :: "string \<Rightarrow> string \<Rightarrow> string \<Rightarrow> u16 \<Rightarrow> string \<Rightarrow> string" where
  "ss_link method password host port name =
     ''ss://'' @ percent_encode (method @ '':'' @ password) @ ''@'' @ host @ '':'' @ show_nat (unat port)
     @ ''#'' @ percent_encode name"

lemma lossy_valid: "valid_utf8 (as_bytes s) \<Longrightarrow> from_utf8_lossy (as_bytes s) = s"
  by (simp add: from_utf8_lossy_def utf8_lossy_valid)

lemma percent_decode_ss_body:
  assumes "valid_utf8 (as_bytes (method @ '':'' @ password @ ''@'' @ hp))" and "CHR ''%'' \<notin> set hp"
  shows "percent_decode (percent_encode (method @ '':'' @ password) @ ''@'' @ hp) = method @ '':'' @ password @ ''@'' @ hp"
proof -
  have "percent_bytes (as_bytes (''@'' @ hp)) = as_bytes (''@'' @ hp)"
    using assms(2) by (intro percent_bytes_plain) auto
  then have "percent_bytes (as_bytes (percent_encode (method @ '':'' @ password) @ ''@'' @ hp))
      = as_bytes (method @ '':'' @ password @ ''@'' @ hp)"
    using percent_bytes_encode [of "method @ '':'' @ password" "as_bytes (''@'' @ hp)"] by (simp add: as_bytes_Cons)
  moreover have "from_utf8_lossy (as_bytes (method @ '':'' @ password @ ''@'' @ hp)) = method @ '':'' @ password @ ''@'' @ hp"
    by (rule lossy_valid [OF assms(1)])
  ultimately show ?thesis by (simp add: percent_decode_def)
qed

lemma percent_decode_encode:
  assumes "valid_utf8 (as_bytes s)" shows "percent_decode (percent_encode s) = s"
  using percent_bytes_encode [of s "[]"] lossy_valid [OF assms] by (simp add: percent_decode_def)

lemma split_host_port_shown:
  assumes "CHR '':'' \<notin> set host" and "\<not> prefix ''['' host"
  shows "split_host_port (host @ '':'' @ show_nat (unat port)) dflt = Inr (host, port)"
proof -
  have "strip_prefix ''['' (host @ '':'' @ show_nat (unat port)) = None"
    using assms(2) by (cases host) (auto simp: strip_prefix_def)
  then show ?thesis
    using assms(1) rsplit_once_append [OF show_nat_no_colon, of host "unat port"] by (simp add: split_host_port_def)
qed

lemma split_fragment_append:
  "CHR ''#'' \<notin> set a \<Longrightarrow> split_fragment (a @ ''#'' @ b) = (a, Some (percent_decode b))"
  by (simp add: split_fragment_def)

text \<open>Links that start and end with printable characters are not changed by \<^verbatim>\<open>trim\<close>.\<close>

lemma trim_fragment:
  assumes "graph_char (hd (a @ ''#''))"
  shows "trim (a @ ''#'' @ percent_encode name) = a @ ''#'' @ percent_encode name"
proof (rule trim_graph)
  show "graph_char (last (a @ ''#'' @ percent_encode name))"
  proof (cases "percent_encode name = []")
    case False
    then have "last (percent_encode name) = CHR ''%'' \<or> (\<exists>d<16. last (percent_encode name) = hex_char d)"
      by (intro percent_encode_chars [of _ name] last_in_set)
    then have "graph_char (last (percent_encode name))"
      by (elim disjE exE conjE) (simp_all add: hex_char_graph graph_char_def [of "CHR ''%''"])
    then show ?thesis using False by simp
  qed (simp add: graph_char_def)
  show "graph_char (hd (a @ ''#'' @ percent_encode name))" using assms by (cases a) simp_all
qed simp

text \<open>
  A Shadowsocks link means what its author wrote: for every method, password, host, port and
  name, the link with the user information and the name percent-encoded is imported as the profile with
  exactly these values, and the password is returned beside it, whatever bytes it holds.
\<close>

theorem ss_link_roundtrip:
  assumes "CHR '':'' \<notin> set method" and "host \<noteq> []" and "list_all (\<lambda>c. c \<notin> set '':@#%['') host"
    and "valid_utf8 (as_bytes (method @ '':'' @ password @ ''@'' @ host @ '':'' @ show_nat (unat port)))"
    and "valid_utf8 (as_bytes name)" and "length (ss_link method password host port name) \<le> MAX_IMPORT_BYTES"
    and "valid_config (to_config_env env) (new_shadowsocks (fresh_uuid env) (utc_now env) name host port method)"
  shows "parse_import env (ss_link method password host port name) =
     Inr \<lparr> imp_config = new_shadowsocks (fresh_uuid env) (utc_now env) name host port method,
           imp_password = Some password \<rparr>"
proof -
  let ?hp = "host @ '':'' @ show_nat (unat port)" and ?l = "ss_link method password host port name"
  let ?user = "method @ '':'' @ password"
  let ?body = "percent_encode ?user @ ''@'' @ ?hp"
  have h: "CHR '':'' \<notin> set host" "CHR ''@'' \<notin> set host" "CHR ''#'' \<notin> set host" "CHR ''%'' \<notin> set host" "CHR ''['' \<notin> set host"
    using assms(3) by (auto simp: list_all_iff)
  have hp: "CHR ''%'' \<notin> set ?hp" "CHR ''@'' \<notin> set ?hp" "CHR ''#'' \<notin> set ?hp"
    using h by (simp_all add: show_nat_no is_ascii_digit_def)
  have trim1: "trim ?l = ?l"
    using trim_fragment [of "''ss://'' @ ?body" name] by (simp add: ss_link_def graph_char_def)
  have "graph_char (hd (?body @ ''#''))"
    by (cases "method") (simp_all add: percent_encode_def graph_char_def)
  then have "trim (?body @ ''#'' @ percent_encode name) = ?body @ ''#'' @ percent_encode name" by (rule trim_fragment)
  then have trim2: "trim (drop 5 ?l) = ?body @ ''#'' @ percent_encode name" by (simp add: ss_link_def)
  have "CHR ''#'' \<notin> set ?body" using hp(3) percent_encode_no [of "CHR ''#''"] by simp
  then have frag: "split_fragment (?body @ ''#'' @ percent_encode name) = (?body, Some name)"
    unfolding split_fragment_append [OF \<open>CHR ''#'' \<notin> set ?body\<close>] by (simp only: percent_decode_encode [OF assms(5)])
  have dec: "percent_decode ?body = ?user @ CHR ''@'' # ?hp"
    using percent_decode_ss_body [OF assms(4) hp(1)] by simp
  have user: "split_once (CHR '':'') ?user = Some (method, password)"
    using split_once_append [OF assms(1)] by simp
  have at: "rsplit_once (CHR ''@'') (?user @ CHR ''@'' # ?hp) = Some (?user, ?hp)" by (rule rsplit_once_append [OF hp(2)])
  have "\<not> prefix ''['' host" using h(5) by (cases host) auto
  then have port: "split_host_port ?hp 8388 = Inr (host, port)" by (rule split_host_port_shown [OF h(1)])
  have "CHR ''@'' \<in> set ?body" by simp
  then have "parse_ss env ?l = Inr \<lparr> imp_config = new_shadowsocks (fresh_uuid env) (utc_now env) name host port method,
           imp_password = Some password \<rparr>"
    using assms(7) unfolding parse_ss_def trim1 trim2 by (simp only: frag dec at user port Let_def prod.case if_True
        and_then.simps ok_or.simps option.case map_err.simps)
  moreover have "prefix ''ss://'' (to_ascii_lowercase ?l)" "\<not> prefix ''{'' ?l" "?l \<noteq> []"
    by (simp_all add: ss_link_def to_ascii_lowercase_def ascii_lower_def)
  ultimately show ?thesis using assms(6) trim1 by (simp add: parse_import_def)
qed

theorem ss_link_roundtrip_witness:
  "parse_import example_import_env (ss_link ''aes-128-gcm'' ''p@:w'' ''x.io'' 443 ''n'')
     = Inr \<lparr> imp_config = new_shadowsocks 7 9 ''n'' ''x.io'' 443 ''aes-128-gcm'', imp_password = Some ''p@:w'' \<rparr>"
proof -
  have u: "valid_utf8 (as_bytes s)" if "list_all (\<lambda>c. (of_char c :: nat) < 128) s" for s
    using that by (intro valid_utf8_ascii) (auto simp: list_all_iff as_bytes_def byte_of_def unat_of_nat)
  have p: "show_nat 443 = ''443''" by code_simp
  have l: "length (ss_link ''aes-128-gcm'' ''p@:w'' ''x.io'' 443 ''n'') \<le> MAX_IMPORT_BYTES"
    by (simp add: ss_link_def p percent_encode_def MAX_IMPORT_BYTES_def)
  have "trim ''n'' = ''n''" "trim ''x.io'' = ''x.io''" "trim ''aes-128-gcm'' = ''aes-128-gcm''"
    by (rule trim_graph; simp add: graph_char_def)+
  moreover have "\<not> any_whitespace ''x.io''" by (rule graph_no_whitespace) (simp add: graph_char_def)
  ultimately have v: "valid_config env (new_shadowsocks i t ''n'' ''x.io'' 443 ''aes-128-gcm'')" for env i t
    by (simp add: valid_config_groups guard_defs new_shadowsocks_def default_tls_settings_def to_ascii_lowercase_def ascii_lower_def
        default_dns_settings_def default_proxy_share_settings_def default_udpgw_settings_def listen_literals_def)
  have e: "fresh_uuid example_import_env = 7" "utc_now example_import_env = 9" by (simp_all add: example_import_env_def)
  show ?thesis
    using ss_link_roundtrip [of "''aes-128-gcm''" "''x.io''" "''p@:w''" 443 "''n''" example_import_env, OF _ _ _ _ _ l v] e
    by (simp add: p u del: as_bytes_append)
qed

end
