(* ===== verification/Smart_Link.thy ===== *)
theory Smart_Link
  imports Config_Import
begin

text \<open>
  The decoder of RocketTunnel \<^verbatim>\<open>/i/\<close> links (\<^verbatim>\<open>crates/config/src/smart_link.rs\<close>): strict percent
  decoding, the masked envelope, and the MessagePack reader with its depth and size limits. The URL and
  base64 parsers and the inflater are other crates, fields of \<open>smart_env\<close>.
\<close>

definition MAX_LINK_BYTES :: nat where "MAX_LINK_BYTES = 16 * 1024"
definition MAX_DECODED_BYTES :: nat where "MAX_DECODED_BYTES = 1024 * 1024"
definition MAX_DEPTH :: nat where "MAX_DEPTH = 32"
definition MASK :: "u8 list" where "MASK = [58, 127, 178, 217, 76, 133, 225, 98]"

record 'json smart_env = "'json import_env" +
  b64_no_pad :: "string \<Rightarrow> string + bytes"
  zlib_read :: "nat \<Rightarrow> bytes \<Rightarrow> string + bytes"

record smart_host =
  sh_host :: string
  sh_port :: u16
  sh_flag :: u8
  sh_delay :: u16

record smart_config =
  sc_username :: string
  sc_password :: string
  sc_path :: string
  sc_hosts :: "smart_host list"

definition zone_hosts :: "smart_config \<Rightarrow> (smart_host \<times> bool) list" where
  "zone_hosts self =
     concat (map (\<lambda>h. (if sh_flag h AND 0x11 = 0x11 then [(h, False)] else [])
                    @ (if sh_flag h AND 0x12 = 0x12 then [(h, True)] else [])) (sc_hosts self))"

definition import_error :: "string \<Rightarrow> config_error" where
  "import_error message = Import (''RocketTunnel Smart Config: '' @ message)"

subsection \<open>Percent decoding\<close>

definition hex_byte :: "u8 \<Rightarrow> nat option" where
  "hex_byte b = hex_val (char_of_byte b)"

fun decode_percent_bytes :: "bytes \<Rightarrow> config_error + bytes" where
  "decode_percent_bytes [] = Inr []"
| "decode_percent_bytes (b # bs) =
     (if b = 0x25
      then case bs of
             [] \<Rightarrow> Inl (import_error ''invalid link encoding'')
           | h # bs1 \<Rightarrow>
               (case hex_byte h of
                  None \<Rightarrow> Inl (import_error ''invalid link encoding'')
                | Some hi \<Rightarrow>
                    (case bs1 of
                       [] \<Rightarrow> Inl (import_error ''invalid link encoding'')
                     | l # bs2 \<Rightarrow>
                         (case hex_byte l of
                            None \<Rightarrow> Inl (import_error ''invalid link encoding'')
                          | Some lo \<Rightarrow>
                              map_sum id (\<lambda>out. word_of_nat (16 * hi + lo) # out) (decode_percent_bytes bs2))))
      else map_sum id (\<lambda>out. b # out) (decode_percent_bytes bs))"

definition decode_percent :: "string \<Rightarrow> config_error + string" where
  "decode_percent s =
     and_then (decode_percent_bytes (as_bytes s)) (\<lambda>out. ok_or (import_error ''link is not UTF-8'') (from_utf8 out))"

subsection \<open>The MessagePack reader\<close>

datatype packed =
    PInt int
  | PStr string
  | PBytes bytes
  | PArray "packed list"
  | PMap "(string \<times> packed) list"
  | POther

fun packed_get :: "packed \<Rightarrow> string \<Rightarrow> config_error + packed" where
  "packed_get (PMap entries) key =
     ok_or (import_error ''missing Smart Config field'') (map_option snd (find (\<lambda>(name, _). name = key) entries))"
| "packed_get _ key = Inl (import_error ''expected Smart Config object'')"

fun packed_as_str :: "packed \<Rightarrow> config_error + string" where
  "packed_as_str (PStr value) = Inr value"
| "packed_as_str _ = Inl (import_error ''expected Smart Config string'')"

fun packed_as_int :: "packed \<Rightarrow> config_error + int" where
  "packed_as_int (PInt value) = Inr value"
| "packed_as_int _ = Inl (import_error ''expected Smart Config integer'')"

fun packed_as_array :: "packed \<Rightarrow> config_error + packed list" where
  "packed_as_array (PArray values) = Inr values"
| "packed_as_array _ = Inl (import_error ''expected Smart Config array'')"

record packed_parser =
  pk_input :: bytes
  pk_position :: nat

text \<open>A parser step returns its value and the parser behind it; \<^verbatim>\<open>usize\<close> has 64 bits.\<close>

definition pk_take :: "nat \<Rightarrow> packed_parser \<Rightarrow> config_error + bytes \<times> packed_parser" where
  "pk_take count p =
     (let end' = pk_position p + count in
      if 2 ^ 64 \<le> end' then Inl (import_error ''invalid MessagePack length'')
      else if length (pk_input p) < end' then Inl (import_error ''truncated MessagePack payload'')
      else Inr (take count (drop (pk_position p) (pk_input p)), p\<lparr>pk_position := end'\<rparr>))"

definition pk_byte :: "packed_parser \<Rightarrow> config_error + u8 \<times> packed_parser" where
  "pk_byte p = and_then (pk_take 1 p) (\<lambda>(bs, p'). Inr (bs ! 0, p'))"

text \<open>The sources only read numbers of at most four bytes, so the \<^verbatim>\<open>i64\<close> accumulator never overflows.\<close>

definition pk_number :: "nat \<Rightarrow> packed_parser \<Rightarrow> config_error + int \<times> packed_parser" where
  "pk_number count p =
     and_then (pk_take count p) (\<lambda>(bs, p'). Inr (foldl (\<lambda>value b. 256 * value + int (unat b)) 0 bs, p'))"

definition pk_string :: "nat \<Rightarrow> packed_parser \<Rightarrow> config_error + packed \<times> packed_parser" where
  "pk_string count p =
     and_then (pk_take count p) (\<lambda>(bs, p').
       case from_utf8 bs of
         None \<Rightarrow> Inl (import_error ''invalid MessagePack UTF-8'')
       | Some text \<Rightarrow> Inr (PStr text, p'))"

text \<open>The loops of \<^verbatim>\<open>array\<close> and \<^verbatim>\<open>map\<close>, over the reader for one nesting level more.\<close>

fun pk_values :: "(packed_parser \<Rightarrow> config_error + packed \<times> packed_parser) \<Rightarrow> nat \<Rightarrow> packed_parser
    \<Rightarrow> config_error + packed list \<times> packed_parser" where
  "pk_values rd 0 p = Inr ([], p)"
| "pk_values rd (Suc n) p =
     and_then (rd p) (\<lambda>(v, p1). and_then (pk_values rd n p1) (\<lambda>(vs, p2). Inr (v # vs, p2)))"

fun pk_entries :: "(packed_parser \<Rightarrow> config_error + packed \<times> packed_parser) \<Rightarrow> nat \<Rightarrow> packed_parser
    \<Rightarrow> config_error + (string \<times> packed) list \<times> packed_parser" where
  "pk_entries rd 0 p = Inr ([], p)"
| "pk_entries rd (Suc n) p =
     and_then (rd p) (\<lambda>(k, p1).
       case k of
         PStr key \<Rightarrow>
           and_then (rd p1) (\<lambda>(v, p2). and_then (pk_entries rd n p2) (\<lambda>(es, p3). Inr ((key, v) # es, p3)))
       | _ \<Rightarrow> Inl (import_error ''invalid MessagePack map key''))"

definition pk_array :: "(packed_parser \<Rightarrow> config_error + packed \<times> packed_parser) \<Rightarrow> nat \<Rightarrow> packed_parser
    \<Rightarrow> config_error + packed \<times> packed_parser" where
  "pk_array rd count p =
     (if 256 < count then Inl (import_error ''MessagePack array is too large'')
      else and_then (pk_values rd count p) (\<lambda>(vs, p'). Inr (PArray vs, p')))"

definition pk_map :: "(packed_parser \<Rightarrow> config_error + packed \<times> packed_parser) \<Rightarrow> nat \<Rightarrow> packed_parser
    \<Rightarrow> config_error + packed \<times> packed_parser" where
  "pk_map rd count p =
     (if 256 < count then Inl (import_error ''MessagePack object is too large'')
      else and_then (pk_entries rd count p) (\<lambda>(es, p'). Inr (PMap es, p')))"

definition pk_bin :: "nat \<Rightarrow> packed_parser \<Rightarrow> config_error + packed \<times> packed_parser" where
  "pk_bin count p = and_then (pk_take count p) (\<lambda>(bs, p'). Inr (PBytes bs, p'))"

definition pk_int :: "nat \<Rightarrow> packed_parser \<Rightarrow> config_error + packed \<times> packed_parser" where
  "pk_int count p = and_then (pk_number count p) (\<lambda>(n, p'). Inr (PInt n, p'))"

text \<open>The extension \<^verbatim>\<open>PackedUint8/16\<close>: a kind, one byte that is skipped, and a \<^verbatim>\<open>bin\<close> value.\<close>

definition pk_ext :: "(packed_parser \<Rightarrow> config_error + packed \<times> packed_parser) \<Rightarrow> packed_parser
    \<Rightarrow> config_error + packed \<times> packed_parser" where
  "pk_ext rd p =
     and_then (pk_byte p) (\<lambda>(kind, p1).
     and_then (pk_take 1 p1) (\<lambda>(_, p2).
     and_then (rd p2) (\<lambda>(v, p3).
       case v of
         PBytes bs \<Rightarrow>
           (if kind = 16 \<and> length bs = 1 then Inr (PInt (int (unat (bs ! 0))), p3)
            else if kind = 17 \<and> length bs = 2 then Inr (PInt (int (of_be [bs ! 0, bs ! 1])), p3)
            else Inl (import_error ''invalid packed integer''))
       | _ \<Rightarrow> Inl (import_error ''invalid packed integer''))))"

definition pk_tag :: "(packed_parser \<Rightarrow> config_error + packed \<times> packed_parser) \<Rightarrow> nat \<Rightarrow> packed_parser
    \<Rightarrow> config_error + packed \<times> packed_parser" where
  "pk_tag rd t p =
     (if t \<le> 0x7f then Inr (PInt (int t), p)
      else if 0xe0 \<le> t then Inr (PInt (int t - 256), p)
      else if t \<le> 0x8f then pk_map rd (t mod 16) p
      else if t \<le> 0x9f then pk_array rd (t mod 16) p
      else if t \<le> 0xbf then pk_string (t mod 32) p
      else if t = 0xc0 \<or> t = 0xc2 \<or> t = 0xc3 then Inr (POther, p)
      else if t = 0xc4 then and_then (pk_byte p) (\<lambda>(n, p'). pk_bin (unat n) p')
      else if t = 0xc5 then and_then (pk_number 2 p) (\<lambda>(n, p'). pk_bin (nat n) p')
      else if t = 0xcc \<or> t = 0xd0 then pk_int 1 p
      else if t = 0xcd \<or> t = 0xd1 then pk_int 2 p
      else if t = 0xce \<or> t = 0xd2 then pk_int 4 p
      else if t = 0xd9 then and_then (pk_byte p) (\<lambda>(n, p'). pk_string (unat n) p')
      else if t = 0xda then and_then (pk_number 2 p) (\<lambda>(n, p'). pk_string (nat n) p')
      else if t = 0xdc then and_then (pk_number 2 p) (\<lambda>(n, p'). pk_array rd (nat n) p')
      else if t = 0xde then and_then (pk_number 2 p) (\<lambda>(n, p'). pk_map rd (nat n) p')
      else if t = 0xd4 then pk_ext rd p
      else Inl (import_error ''unsupported MessagePack tag''))"

function pk_read :: "nat \<Rightarrow> packed_parser \<Rightarrow> config_error + packed \<times> packed_parser" where
  "pk_read depth p =
     (if MAX_DEPTH < depth then Inl (import_error ''MessagePack nesting is too deep'')
      else and_then (pk_byte p) (\<lambda>(tag, p'). pk_tag (pk_read (depth + 1)) (unat tag) p'))"
  by auto
termination by (relation "measure (\<lambda>(depth, p). MAX_DEPTH + 1 - depth)") (auto simp: MAX_DEPTH_def)

declare pk_read.simps [simp del]

subsection \<open>Decoding a link\<close>

fun collect_results :: "('a \<Rightarrow> 'e + 'b) \<Rightarrow> 'a list \<Rightarrow> 'e + 'b list" where
  "collect_results f [] = Inr []"
| "collect_results f (x # xs) = and_then (f x) (\<lambda>y. and_then (collect_results f xs) (\<lambda>ys. Inr (y # ys)))"

definition int_to_word :: "string \<Rightarrow> int \<Rightarrow> config_error + 'a::len word" where
  "int_to_word msg n =
     (if 0 \<le> n \<and> n < 2 ^ LENGTH('a) then Inr (word_of_int n) else Inl (import_error msg))"

definition bad_host_char :: "char \<Rightarrow> bool" where
  "bad_host_char c \<longleftrightarrow>
     (of_char c :: nat) < 32 \<or> (of_char c :: nat) = 127 \<or> c = CHR '' '' \<or> c \<in> {CHR ''/'', CHR 0x5C, CHR ''@'', CHR ''?'', CHR ''#''}"

definition smart_host_of :: "packed \<Rightarrow> config_error + smart_host" where
  "smart_host_of host =
     and_then (packed_get host ''0'') (\<lambda>v0. and_then (packed_as_str v0) (\<lambda>name.
     and_then (packed_get host ''1'') (\<lambda>v1. and_then (packed_as_int v1) (\<lambda>n1.
     and_then (int_to_word ''invalid Smart Config port'' n1) (\<lambda>port.
     and_then (packed_get host ''2'') (\<lambda>v2. and_then (packed_as_int v2) (\<lambda>n2.
     and_then (int_to_word ''invalid host flags'' n2) (\<lambda>flag.
     and_then (packed_get host ''3'') (\<lambda>v3. and_then (packed_as_int v3) (\<lambda>n3.
     and_then (int_to_word ''invalid host delay'' n3) (\<lambda>delay.
       if name = [] \<or> 253 < length name \<or> list_ex bad_host_char name \<or> port = 0
       then Inl (import_error ''invalid Smart Config host'')
       else Inr \<lparr> sh_host = name, sh_port = port, sh_flag = flag, sh_delay = delay \<rparr>)))))))))))"

definition smart_config_of :: "packed \<Rightarrow> config_error + smart_config" where
  "smart_config_of root =
     and_then (packed_as_array root) (\<lambda>configs.
     and_then (ok_or (import_error ''no Smart Config in link'')
         (find (\<lambda>item. and_then (packed_get item ''0'') packed_as_str = Inr ''smart'') configs)) (\<lambda>config.
     and_then (packed_get config ''13'') (\<lambda>v13. and_then (packed_as_int v13) (\<lambda>version.
       if version \<noteq> 1 then Inl (import_error ''unsupported Smart Config version'')
       else
         and_then (packed_get config ''14'') (\<lambda>v14. and_then (packed_as_array v14) (\<lambda>hs.
         and_then (collect_results smart_host_of hs) (\<lambda>hosts.
           if hosts = [] \<or> 64 < length hosts then Inl (import_error ''invalid Smart Config host count'')
           else
             and_then (packed_get config ''16'') (\<lambda>v16. and_then (packed_as_str v16) (\<lambda>path.
               if \<not> prefix ''/'' path \<or> 2048 < length path \<or> CR \<in> set path \<or> LF \<in> set path
               then Inl (import_error ''invalid Smart Config path'')
               else
                 and_then (packed_get config ''4'') (\<lambda>v4. and_then (packed_as_str v4) (\<lambda>username.
                 and_then (packed_get config ''15'') (\<lambda>v15. and_then (packed_as_str v15) (\<lambda>password.
                   if 4096 < length username \<or> 4096 < length password
                   then Inl (import_error ''Smart Config credentials are too long'')
                   else Inr \<lparr> sc_username = username, sc_password = password, sc_path = path, sc_hosts = hosts \<rparr>)))))))))))))"

text \<open>Removing the mask: every byte is combined with the mask and the shifted seed of its index.\<close>

definition seed_mask :: "u8 \<Rightarrow> nat \<Rightarrow> u8" where
  "seed_mask seed i = (MASK ! (i mod 8)) XOR (push_bit (i mod 8) seed)"

definition unmask :: "u8 \<Rightarrow> bytes \<Rightarrow> bytes" where
  "unmask seed bs = map (\<lambda>i. (bs ! i) XOR seed_mask seed i) [0..<length bs]"

definition unpack_envelope :: "('json, 'a) smart_env_scheme \<Rightarrow> bytes \<Rightarrow> config_error + bytes" where
  "unpack_envelope env encoded =
     (if length encoded < 3 \<or> MAX_DECODED_BYTES < length encoded
      then Inl (import_error ''invalid payload length'')
      else let flags = encoded ! 0 in
        if drop_bit 2 flags \<noteq> 1 then Inl (import_error ''unsupported envelope version'')
        else let body = (if flags AND 2 \<noteq> 0 then unmask (encoded ! 1) (drop 2 encoded) else drop 2 encoded) in
          if flags AND 1 \<noteq> 0
          then and_then (map_err (\<lambda>_. import_error ''invalid compressed payload'')
                   (zlib_read env (MAX_DECODED_BYTES + 1) body)) (\<lambda>output.
                 if MAX_DECODED_BYTES < length output then Inl (import_error ''payload is too large'') else Inr output)
          else Inr body)"

definition decode_token :: "('json, 'a) smart_env_scheme \<Rightarrow> string \<Rightarrow> config_error + bytes" where
  "decode_token env token =
     map_err (\<lambda>_. import_error ''invalid base64 payload'')
       (case b64_standard env token of Inr bs \<Rightarrow> Inr bs | Inl _ \<Rightarrow> b64_no_pad env token)"

definition parse_payload :: "bytes \<Rightarrow> config_error + smart_config" where
  "parse_payload unpacked =
     and_then (pk_read 0 \<lparr> pk_input = unpacked, pk_position = 0 \<rparr>) (\<lambda>(root, p).
       if pk_position p \<noteq> length unpacked then Inl (import_error ''unexpected trailing payload'')
       else smart_config_of root)"

definition decode_rocket_smart_link :: "('json, 'a) smart_env_scheme \<Rightarrow> string \<Rightarrow> config_error + smart_config" where
  "decode_rocket_smart_link env link =
     (if MAX_LINK_BYTES < length link then Inl (import_error ''link is too long'')
      else
        and_then (map_err (\<lambda>_. import_error ''invalid URL'') (url_parse env (trim link))) (\<lambda>u.
          if url_scheme u \<notin> {''http'', ''https''} \<or> url_host_str u = None
          then Inl (import_error ''expected an HTTP(S) import URL'')
          else
            and_then (ok_or (import_error ''expected a /i/ Smart Config link'')
                (case strip_prefix ''/i/'' (url_path u) of None \<Rightarrow> None | Some t \<Rightarrow> if t = [] then None else Some t))
              (\<lambda>t. and_then (decode_percent t) (\<lambda>token.
                 and_then (decode_token env token) (\<lambda>encoded.
                 and_then (unpack_envelope env encoded) parse_payload)))))"

subsection \<open>The two percent decoders\<close>

lemma hex_byte_ascii: "hex_byte b = Some d \<Longrightarrow> d < 16 \<and> (of_char (char_of_byte b) :: nat) < 128"
  by (auto simp: hex_byte_def Let_def split: if_splits)

lemma map_sum_eq_Inr [simp]: "map_sum f g r = Inr y \<longleftrightarrow> (\<exists>x. r = Inr x \<and> y = g x)"
  by (cases r) auto

lemma decode_percent_bytes_lenient:
  "decode_percent_bytes bs = Inr out \<Longrightarrow> percent_bytes bs = out"
proof (induction bs arbitrary: out rule: decode_percent_bytes.induct)
  case (2 b bs)
  show ?case
  proof (cases "b = 0x25")
    case True
    then obtain h hi l lo bs2 out2 where d: "bs = h # l # bs2" "hex_byte h = Some hi" "hex_byte l = Some lo"
      "decode_percent_bytes bs2 = Inr out2" "out = word_of_nat (16 * hi + lo) # out2"
      using "2.prems" by (auto split: list.splits option.splits)
    have "percent_bytes bs2 = out2" using "2.IH"(1) True d by simp
    then show ?thesis
      using percent_bytes_escape [of "char_of_byte h" hi "char_of_byte l" lo bs2] d True
        hex_byte_ascii [OF d(2)] hex_byte_ascii [OF d(3)] by (simp add: hex_byte_def)
  next
    case False
    then show ?thesis using "2.prems" "2.IH"(2)
      by (cases "decode_percent_bytes bs") (auto simp: percent_bytes_other)
  qed
qed simp

text \<open>
  The two percent decoders of the crate agree wherever the strict one accepts: when
  \<^verbatim>\<open>decode_percent\<close> returns a string, \<^verbatim>\<open>percent_decode\<close> returns the same string. The lenient one also
  accepts what the strict one refuses, such as a sign in place of a digit.
\<close>

theorem percent_decoders_agree:
  "(case decode_percent s of Inl e \<Rightarrow> True | Inr t \<Rightarrow> percent_decode s = t)
   \<and> decode_percent ''%+f'' = Inl (import_error ''invalid link encoding'') \<and> percent_decode ''%+f'' = [CHR 0x0F]"
proof (intro conjI)
  show "case decode_percent s of Inl e \<Rightarrow> True | Inr t \<Rightarrow> percent_decode s = t"
  proof (cases "decode_percent s")
    case (Inr t)
    then obtain out where out: "decode_percent_bytes (as_bytes s) = Inr out" "from_utf8 out = Some t"
      by (auto simp: decode_percent_def and_then_eq_Inr)
    then have "valid_utf8 out" by (auto simp: from_utf8_def split: if_splits)
    then have "from_utf8_lossy out = t" using from_utf8_lossy_valid out(2) by simp
    then show ?thesis using decode_percent_bytes_lenient [OF out(1)] Inr by (simp add: percent_decode_def)
  qed simp
  have b: "as_bytes ''%+f'' = [0x25, 0x2b, 0x66]" by (simp add: as_bytes_def byte_of_def)
  then show "decode_percent ''%+f'' = Inl (import_error ''invalid link encoding'')"
    by (simp add: decode_percent_def hex_byte_def char_of_byte_def Let_def)
  have "from_utf8 [0x2b, 0x66] = Some ''+f''"
    using from_utf8_ascii [of "''+f''"] by (simp add: as_bytes_def byte_of_def)
  then have "percent_bytes (as_bytes ''%+f'') = [15]"
    unfolding b by (subst percent_bytes.simps) (simp add: u8_from_hex_def Let_def)
  moreover have "from_utf8_lossy [15] = [CHR 0x0F]"
    using from_utf8_lossy_ascii [of "[CHR 0x0F]"] by (simp add: as_bytes_def byte_of_def)
  ultimately show "percent_decode ''%+f'' = [CHR 0x0F]" by (simp add: percent_decode_def)
qed

subsection \<open>Limits of the reader\<close>

text \<open>The values that fit \<open>k\<close> levels of nesting and the size limits of the format.\<close>

fun packed_fits :: "nat \<Rightarrow> packed \<Rightarrow> bool" where
  "packed_fits 0 v = False"
| "packed_fits (Suc k) (PInt n) = (- 32 \<le> n \<and> n < 2 ^ 32)"
| "packed_fits (Suc k) (PStr t) = (length t < 65536 \<and> valid_utf8 (as_bytes t))"
| "packed_fits (Suc k) (PBytes bs) = (length bs < 65536)"
| "packed_fits (Suc k) (PArray vs) = (length vs \<le> 256 \<and> list_all (packed_fits k) vs)"
| "packed_fits (Suc k) (PMap es) =
     (length es \<le> 256 \<and> list_all (\<lambda>e. packed_fits k (PStr (fst e)) \<and> packed_fits k (snd e)) es)"
| "packed_fits (Suc k) POther = True"

definition moves :: "packed_parser \<Rightarrow> packed_parser \<Rightarrow> bool" where
  "moves p q \<longleftrightarrow> pk_input q = pk_input p \<and> pk_position p \<le> pk_position q
     \<and> (pk_position p \<le> length (pk_input p) \<longrightarrow> pk_position q \<le> length (pk_input q))"

lemma moves_refl [simp]: "moves p p"
  by (simp add: moves_def)

lemma moves_trans: "moves p q \<Longrightarrow> moves q r \<Longrightarrow> moves p r"
  by (auto simp: moves_def)

lemma pk_take_Inr:
  "pk_take n p = Inr (bs, q) \<Longrightarrow> length bs = n \<and> moves p q \<and> pk_position q = pk_position p + n \<and> pk_position q \<le> length (pk_input q)"
  by (auto simp: pk_take_def moves_def Let_def split: if_splits)

lemma pk_byte_Inr:
  "pk_byte p = Inr (b, q) \<Longrightarrow> moves p q \<and> pk_position q = pk_position p + 1 \<and> pk_position q \<le> length (pk_input q)"
  by (auto simp: pk_byte_def and_then_eq_Inr dest: pk_take_Inr)

lemma foldl_be: "foldl (\<lambda>value b. 256 * value + uint b) 0 bs = int (of_be bs)"
proof (induction bs rule: rev_induct)
  case (snoc b bs)
  then show ?case by (simp add: of_be_def)
qed (simp add: of_be_def)

lemma pk_number_Inr: "pk_number n p = Inr (v, q) \<Longrightarrow> moves p q \<and> 0 \<le> v \<and> v < 256 ^ n"
proof -
  assume "pk_number n p = Inr (v, q)"
  then obtain bs where "pk_take n p = Inr (bs, q)" and v: "v = int (of_be bs)"
    by (auto simp: pk_number_def and_then_eq_Inr foldl_be)
  then show ?thesis using of_be_less [of bs] by (auto dest!: pk_take_Inr)
qed

lemma pk_number_2: "pk_number 2 p = Inr (v, q) \<Longrightarrow> moves p q \<and> nat v < 65536"
  by (auto dest!: pk_number_Inr)

lemma pk_string_Inr: "pk_string n p = Inr (v, q) \<Longrightarrow> n < 65536 \<Longrightarrow> packed_fits (Suc k) v \<and> moves p q"
  by (auto simp: pk_string_def and_then_eq_Inr from_utf8_def dest!: pk_take_Inr split: option.splits if_splits)

lemma pk_bin_Inr: "pk_bin n p = Inr (v, q) \<Longrightarrow> n < 65536 \<Longrightarrow> packed_fits (Suc k) v \<and> moves p q"
  by (auto simp: pk_bin_def and_then_eq_Inr dest!: pk_take_Inr)

lemma pk_int_Inr: "pk_int n p = Inr (v, q) \<Longrightarrow> n \<le> 4 \<Longrightarrow> packed_fits (Suc k) v \<and> moves p q"
proof -
  assume "pk_int n p = Inr (v, q)" and n: "n \<le> 4"
  then obtain x where x: "pk_number n p = Inr (x, q)" "v = PInt x" by (auto simp: pk_int_def and_then_eq_Inr)
  have "(256 :: int) ^ n \<le> 256 ^ 4" using n by (rule power_increasing) simp
  then show ?thesis using pk_number_Inr [OF x(1)] x(2) by simp
qed

lemma uint_u8: "0 \<le> uint (w :: u8) \<and> uint w < 256"
  using unsigned_less [where 'a = int, of w] by (simp del: unsigned_less)

lemma unat_u8: "unat (w :: u8) < 256"
  using unsigned_less [where 'a = nat, of w] by (simp del: unsigned_less)

definition yields :: "nat \<Rightarrow> packed_parser \<Rightarrow> config_error + packed \<times> packed_parser \<Rightarrow> bool" where
  "yields k p r \<longleftrightarrow> (\<forall>v q. r = Inr (v, q) \<longrightarrow> packed_fits k v \<and> moves p q)"

lemma yields_if: "(c \<Longrightarrow> yields k p a) \<Longrightarrow> (\<not> c \<Longrightarrow> yields k p b) \<Longrightarrow> yields k p (if c then a else b)"
  by simp

lemma yields_Inl: "yields k p (Inl e)"
  by (simp add: yields_def)

lemma yields_Inr: "packed_fits k v \<Longrightarrow> yields k p (Inr (v, p))"
  by (simp add: yields_def)

lemma yields_byte: "(\<And>n q. yields k q (f n q)) \<Longrightarrow> yields k p (and_then (pk_byte p) (\<lambda>(n, q). f n q))"
  using moves_trans by (fastforce simp: yields_def and_then_eq_Inr dest!: pk_byte_Inr)

lemma yields_number2:
  "(\<And>n q. nat n < 65536 \<Longrightarrow> yields k q (f n q)) \<Longrightarrow> yields k p (and_then (pk_number 2 p) (\<lambda>(n, q). f n q))"
  using moves_trans by (fastforce simp: yields_def and_then_eq_Inr dest!: pk_number_2)

text \<open>What the containers need of the reader for the values inside them.\<close>

locale packed_reader =
  fixes k :: nat and rd :: "packed_parser \<Rightarrow> config_error + packed \<times> packed_parser"
  assumes rd_fits: "rd p = Inr (v, q) \<Longrightarrow> packed_fits k v"
    and rd_moves: "rd p = Inr (v, q) \<Longrightarrow> moves p q"
begin

lemma values_fit: "pk_values rd n p = Inr (vs, q) \<Longrightarrow> length vs = n \<and> list_all (packed_fits k) vs \<and> moves p q"
proof (induction n arbitrary: p vs)
  case (Suc n)
  then obtain v p1 ws where "rd p = Inr (v, p1)" "pk_values rd n p1 = Inr (ws, q)" "vs = v # ws"
    by (auto simp: and_then_eq_Inr)
  then show ?case using Suc.IH [of p1 ws] rd_fits rd_moves moves_trans by fastforce
qed simp

lemma entries_fit:
  "pk_entries rd n p = Inr (es, q) \<Longrightarrow>
     length es = n \<and> list_all (\<lambda>e. packed_fits k (PStr (fst e)) \<and> packed_fits k (snd e)) es \<and> moves p q"
proof (induction n arbitrary: p es)
  case (Suc n)
  then obtain kv p1 where kv: "rd p = Inr (kv, p1)" by (cases "rd p") auto
  then obtain t v p2 fs where r: "rd p = Inr (PStr t, p1)" "rd p1 = Inr (v, p2)"
    "pk_entries rd n p2 = Inr (fs, q)" "es = (t, v) # fs"
    using Suc.prems by (cases kv) (auto simp: and_then_eq_Inr)
  have "moves p q" using Suc.IH [OF r(3)] rd_moves r(1,2) moves_trans by blast
  then show ?case using Suc.IH [OF r(3)] rd_fits r by auto
qed simp

lemma array_fits: "pk_array rd n p = Inr (v, q) \<Longrightarrow> packed_fits (Suc k) v \<and> moves p q"
  by (auto simp: pk_array_def and_then_eq_Inr dest: values_fit split: if_splits)

lemma map_fits: "pk_map rd n p = Inr (v, q) \<Longrightarrow> packed_fits (Suc k) v \<and> moves p q"
  by (auto simp: pk_map_def and_then_eq_Inr dest: entries_fit split: if_splits)

lemma ext_fits:
  assumes "pk_ext rd p = Inr (v, q)" shows "packed_fits (Suc k) v \<and> moves p q"
proof -
  obtain kind p1 bs1 p2 w p3 where w: "pk_byte p = Inr (kind, p1)" "pk_take 1 p1 = Inr (bs1, p2)" "rd p2 = Inr (w, p3)"
    using assms by (auto simp: pk_ext_def and_then_eq_Inr)
  then obtain bs where r: "pk_byte p = Inr (kind, p1)" "pk_take 1 p1 = Inr (bs1, p2)" "rd p2 = Inr (PBytes bs, q)"
    and v: "v = PInt (int (unat (bs ! 0))) \<or> v = PInt (int (of_be [bs ! 0, bs ! 1]))"
    using assms by (cases w) (auto simp: pk_ext_def split: if_splits)
  have "moves p q" using pk_byte_Inr [OF r(1)] pk_take_Inr [OF r(2)] rd_moves [OF r(3)] moves_trans by blast
  moreover have "- 32 \<le> uint (bs ! 0)" "uint (bs ! 0) < 4294967296"
    using uint_u8 [of "bs ! 0"] by linarith+
  moreover have "of_be [bs ! 0, bs ! 1] < 65536" using of_be_less [of "[bs ! 0, bs ! 1]"] by simp
  ultimately show ?thesis using v by auto
qed

lemma tag_fits:
  assumes t: "t < 256" shows "yields (Suc k) p (pk_tag rd t p)"
proof -
  have b: "unat (n :: u8) < 65536" for n using unat_u8 [of n] by linarith
  have m: "t mod 32 < 65536" using mod_less_divisor [of 32 t] by linarith
  have s: "yields (Suc k) q (pk_string n q)" "yields (Suc k) q (pk_bin n q)" if "n < 65536" for n q
    unfolding yields_def using pk_string_Inr [OF _ that] pk_bin_Inr [OF _ that] by blast+
  have i: "yields (Suc k) p (pk_int 1 p)" "yields (Suc k) p (pk_int 2 p)" "yields (Suc k) p (pk_int 4 p)"
    unfolding yields_def using pk_int_Inr by force+
  have c: "yields (Suc k) q (pk_array rd n q)" "yields (Suc k) q (pk_map rd n q)" "yields (Suc k) q (pk_ext rd q)" for n q
    unfolding yields_def using array_fits map_fits ext_fits by blast+
  show ?thesis
    unfolding pk_tag_def
    by (intro yields_if yields_Inl yields_byte yields_number2 s c i b m) (use t in \<open>simp_all add: yields_Inr\<close>)
qed

end

lemma pk_read_packed_reader: "packed_reader (MAX_DEPTH + 1 - depth) (pk_read depth)"
proof (induction "MAX_DEPTH + 1 - depth" arbitrary: depth)
  case 0
  then show ?case by unfold_locales (auto simp: pk_read.simps)
next
  case (Suc k)
  then have k: "packed_reader k (pk_read (depth + 1))" by (metis Suc_eq_plus1 add_diff_cancel_right' diff_Suc_Suc diff_diff_left)
  have "packed_fits (Suc k) v \<and> moves p q" if "pk_read depth p = Inr (v, q)" for p v q
  proof -
    from that obtain tag p' where "pk_byte p = Inr (tag, p')" "pk_tag (pk_read (depth + 1)) (unat tag) p' = Inr (v, q)"
      by (subst (asm) pk_read.simps) (auto simp: and_then_eq_Inr split: if_splits)
    then show ?thesis
      using packed_reader.tag_fits [OF k unat_u8, of p' tag] pk_byte_Inr moves_trans unfolding yields_def by blast
  qed
  then show ?case using Suc.hyps(2) by unfold_locales metis+
qed

interpretation pk: packed_reader "MAX_DEPTH + 1 - depth" "pk_read depth" for depth
  by (rule pk_read_packed_reader)

text \<open>
  C32. The MessagePack reader is bounded whatever bytes it is given: every value it returns fits
  the nesting limit (counted from the depth it started at) and the size limits, it never reads past the input,
  and it always consumes at least one byte.
\<close>

theorem pk_read_bounded:
  "case pk_read depth p of
     Inl e \<Rightarrow> True
   | Inr (v, q) \<Rightarrow> packed_fits (MAX_DEPTH + 1 - depth) v \<and> pk_input q = pk_input p
                 \<and> pk_position p < pk_position q \<and> pk_position q \<le> length (pk_input q)"
proof (cases "pk_read depth p")
  case (Inr r)
  then obtain v q where r: "pk_read depth p = Inr (v, q)" by (cases r) auto
  then obtain tag p' where t: "pk_byte p = Inr (tag, p')" "pk_tag (pk_read (depth + 1)) (unat tag) p' = Inr (v, q)"
    by (subst (asm) pk_read.simps) (auto simp: and_then_eq_Inr split: if_splits)
  then have "moves p' q" using pk.tag_fits [OF unat_u8, of "depth + 1" p' tag] unfolding yields_def by blast
  then show ?thesis using pk_byte_Inr [OF t(1)] pk.rd_fits [OF r] r by (auto simp: moves_def)
qed simp

subsection \<open>Every fitting value is read back\<close>

text \<open>A reference encoder, with the shortest header of each kind.\<close>

definition len_header :: "nat \<Rightarrow> nat \<Rightarrow> u8 \<Rightarrow> nat \<Rightarrow> bytes" where
  "len_header base small long n = (if n < small then [word_of_nat (base + n)] else long # to_be 2 n)"

definition pack_str :: "string \<Rightarrow> bytes" where
  "pack_str t = len_header 0xa0 32 0xda (length t) @ as_bytes t"

fun pack :: "packed \<Rightarrow> bytes" where
  "pack (PInt n) =
     (if n < 0 then [word_of_int n] else if n < 128 then [word_of_int n] else 0xce # to_be 4 (nat n))"
| "pack (PStr t) = pack_str t"
| "pack (PBytes bs) = 0xc5 # to_be 2 (length bs) @ bs"
| "pack (PArray vs) = len_header 0x90 16 0xdc (length vs) @ concat (map pack vs)"
| "pack (PMap es) = len_header 0x80 16 0xde (length es) @ concat (map (\<lambda>(k, v). pack_str k @ pack v) es)"
| "pack POther = [0xc0]"

definition parser_at :: "bytes \<Rightarrow> bytes \<Rightarrow> packed_parser" where
  "parser_at pre rest = \<lparr> pk_input = pre @ rest, pk_position = length pre \<rparr>"

definition reads :: "(packed_parser \<Rightarrow> config_error + 'v \<times> packed_parser) \<Rightarrow> 'v \<Rightarrow> bytes \<Rightarrow> bool" where
  "reads rd v bs \<longleftrightarrow>
     (\<forall>pre rest. length (pre @ bs @ rest) < 2 ^ 64 \<longrightarrow> rd (parser_at pre (bs @ rest)) = Inr (v, parser_at (pre @ bs) rest))"

lemma readsD:
  "reads rd v bs \<Longrightarrow> length (pre @ bs @ rest) < 2 ^ 64 \<Longrightarrow> rd (parser_at pre (bs @ rest)) = Inr (v, parser_at (pre @ bs) rest)"
  by (simp add: reads_def)

lemma reads_bind:
  assumes "reads r1 x a" and "reads (f x) y b"
  shows "reads (\<lambda>p. and_then (r1 p) (\<lambda>(x, q). f x q)) y (a @ b)"
  unfolding reads_def
proof (intro allI impI)
  fix pre rest :: bytes
  assume l: "length (pre @ (a @ b) @ rest) < 2 ^ 64"
  have "r1 (parser_at pre (a @ b @ rest)) = Inr (x, parser_at (pre @ a) (b @ rest))"
    by (rule readsD [OF assms(1)]) (use l in simp)
  moreover have "f x (parser_at (pre @ a) (b @ rest)) = Inr (y, parser_at ((pre @ a) @ b) rest)"
    by (rule readsD [OF assms(2)]) (use l in simp)
  ultimately show "and_then (r1 (parser_at pre ((a @ b) @ rest))) (\<lambda>(x, q). f x q) = Inr (y, parser_at (pre @ a @ b) rest)"
    by simp
qed

lemma reads_return: "reads (\<lambda>p. Inr (v, p)) v []"
  by (simp add: reads_def)

lemma reads_map: "reads r x a \<Longrightarrow> reads (\<lambda>p. and_then (r p) (\<lambda>(x, q). Inr (g x, q))) (g x) a"
  using reads_bind [of r x a "\<lambda>x q. Inr (g x, q)" "g x" "[]"] reads_return [of "g x"] by simp

lemma reads_take: "reads (pk_take (length bs)) bs bs"
  by (auto simp: reads_def pk_take_def parser_at_def Let_def)

lemma reads_byte: "reads pk_byte b [b]"
  using reads_map [OF reads_take [of "[b]"], of "\<lambda>bs. bs ! 0"] unfolding pk_byte_def by simp

lemma reads_number: "n < 256 ^ c \<Longrightarrow> reads (pk_number c) (int n) (to_be c n)"
  using reads_map [OF reads_take [of "to_be c n"], of "foldl (\<lambda>value b. 256 * value + int (unat b)) 0"]
  unfolding pk_number_def by (simp add: foldl_be)

lemma reads_string: "valid_utf8 (as_bytes t) \<Longrightarrow> reads (pk_string (length t)) (PStr t) (as_bytes t)"
  using reads_take [of "as_bytes t"] by (simp add: reads_def pk_string_def from_utf8_def)

lemma reads_values:
  "list_all (\<lambda>v. reads rd v (enc v)) vs \<Longrightarrow> reads (pk_values rd (length vs)) vs (concat (map enc vs))"
proof (induction vs)
  case (Cons v vs)
  then have "reads (\<lambda>p. and_then (pk_values rd (length vs) p) (\<lambda>(ws, q). Inr (v # ws, q))) (v # vs) (concat (map enc vs))"
    by (intro reads_map) simp
  then have "reads (\<lambda>p. and_then (rd p) (\<lambda>(v, q). and_then (pk_values rd (length vs) q) (\<lambda>(ws, q). Inr (v # ws, q))))
      (v # vs) (enc v @ concat (map enc vs))"
    using Cons.prems by (intro reads_bind [of rd v "enc v"]) simp_all
  then show ?case by (simp add: reads_def case_prod_beta)
qed (simp add: reads_def)

lemma reads_entries:
  "list_all (\<lambda>e. reads rd (PStr (fst e)) (pack_str (fst e)) \<and> reads rd (snd e) (enc (snd e))) es \<Longrightarrow>
     reads (pk_entries rd (length es)) es (concat (map (\<lambda>(k, v). pack_str k @ enc v) es))"
proof (induction es)
  case (Cons e es)
  let ?t = "fst e" and ?v = "snd e" and ?tl = "concat (map (\<lambda>(k, v). pack_str k @ enc v) es)"
  have "reads (\<lambda>p. and_then (pk_entries rd (length es) p) (\<lambda>(fs, q). Inr ((?t, ?v) # fs, q))) (e # es) ?tl"
    using Cons reads_map [of "pk_entries rd (length es)" es ?tl "\<lambda>fs. (?t, ?v) # fs"] by simp
  then have "reads (\<lambda>p. and_then (rd p) (\<lambda>(v, q). and_then (pk_entries rd (length es) q) (\<lambda>(fs, q). Inr ((?t, v) # fs, q))))
      (e # es) (enc ?v @ ?tl)"
    using Cons.prems by (intro reads_bind [of rd ?v "enc ?v"]) simp_all
  then have "reads (\<lambda>p. and_then (rd p) (\<lambda>(k, p1). case k of
         PStr key \<Rightarrow> and_then (rd p1) (\<lambda>(v, p2). and_then (pk_entries rd (length es) p2) (\<lambda>(es, p3). Inr ((key, v) # es, p3)))
       | _ \<Rightarrow> Inl (import_error ''invalid MessagePack map key''))) (e # es) (pack_str ?t @ enc ?v @ ?tl)"
    using Cons.prems by (intro reads_bind [of rd "PStr ?t" "pack_str ?t"]) simp_all
  moreover have "concat (map (\<lambda>(k, v). pack_str k @ enc v) (e # es)) = pack_str ?t @ enc ?v @ ?tl"
    by (cases e) simp
  ultimately show ?case by (simp only: reads_def list.size add_Suc_right add_0_right pk_entries.simps)
qed (simp add: reads_def)

lemma reads_tag:
  assumes "depth \<le> MAX_DEPTH" and "reads (pk_tag (pk_read (depth + 1)) (unat tag)) v body"
  shows "reads (pk_read depth) v (tag # body)"
proof -
  have "pk_read depth = (\<lambda>p. and_then (pk_byte p) (\<lambda>(tag, p'). pk_tag (pk_read (depth + 1)) (unat tag) p'))"
    using assms(1) by (intro ext) (subst pk_read.simps, simp)
  then show ?thesis using reads_bind [OF reads_byte, where f = "\<lambda>tag. pk_tag (pk_read (depth + 1)) (unat tag)", OF assms(2)] by simp
qed

lemma reads_len_header:
  assumes "depth \<le> MAX_DEPTH" and "n < 65536" and "base + small \<le> 256"
    and "\<And>m. m < small \<Longrightarrow> pk_tag (pk_read (depth + 1)) (base + m) = f m"
    and "pk_tag (pk_read (depth + 1)) (unat long) = (\<lambda>p. and_then (pk_number 2 p) (\<lambda>(c, p'). f (nat c) p'))"
    and "reads (f n) v body"
  shows "reads (pk_read depth) v (len_header base small long n @ body)"
proof (cases "n < small")
  case True
  then have "unat (word_of_nat (base + n) :: u8) = base + n" using assms(3) by (intro unat_word_of_nat) simp
  then have "reads (pk_read depth) v (word_of_nat (base + n) # body)"
    using assms(1,4,6) True by (intro reads_tag) simp_all
  then show ?thesis using True by (simp add: len_header_def)
next
  case False
  have "reads (pk_number 2) (int n) (to_be 2 n)" using assms(2) by (intro reads_number) simp
  then have "reads (\<lambda>p. and_then (pk_number 2 p) (\<lambda>(c, p'). f (nat c) p')) v (to_be 2 n @ body)"
    using assms(6) by (intro reads_bind [where x = "int n" and f = "\<lambda>c. f (nat c)"]) simp_all
  then show ?thesis using False assms(1,5) by (simp add: len_header_def reads_tag)
qed

lemma pk_tag_small:
  "m < 32 \<Longrightarrow> pk_tag rd (0xa0 + m) = pk_string m"
  "m < 16 \<Longrightarrow> pk_tag rd (0x90 + m) = pk_array rd m"
  "m < 16 \<Longrightarrow> pk_tag rd (0x80 + m) = pk_map rd m"
proof -
  have "(160 + m) mod 32 = m mod 32" "(144 + m) mod 16 = m mod 16" "(128 + m) mod 16 = m mod 16"
    using mod_mult_self2 [of m 32 5] mod_mult_self2 [of m 16 9] mod_mult_self2 [of m 16 8] by (simp_all add: add.commute)
  then show "m < 32 \<Longrightarrow> pk_tag rd (0xa0 + m) = pk_string m"
    "m < 16 \<Longrightarrow> pk_tag rd (0x90 + m) = pk_array rd m"
    "m < 16 \<Longrightarrow> pk_tag rd (0x80 + m) = pk_map rd m"
    by (simp_all add: pk_tag_def fun_eq_iff)
qed

lemma pk_tag_long:
  "pk_tag rd 0xda = (\<lambda>p. and_then (pk_number 2 p) (\<lambda>(n, p'). pk_string (nat n) p'))"
  "pk_tag rd 0xdc = (\<lambda>p. and_then (pk_number 2 p) (\<lambda>(n, p'). pk_array rd (nat n) p'))"
  "pk_tag rd 0xde = (\<lambda>p. and_then (pk_number 2 p) (\<lambda>(n, p'). pk_map rd (nat n) p'))"
  "pk_tag rd 0xc5 = (\<lambda>p. and_then (pk_number 2 p) (\<lambda>(n, p'). pk_bin (nat n) p'))"
  "pk_tag rd 0xce = pk_int 4"
  "pk_tag rd 0xc0 = (\<lambda>p. Inr (POther, p))"
  by (simp_all add: pk_tag_def fun_eq_iff)

lemma reads_pack_str:
  assumes "depth \<le> MAX_DEPTH" and "length t < 65536" and "valid_utf8 (as_bytes t)"
  shows "reads (pk_read depth) (PStr t) (pack_str t)"
  unfolding pack_str_def
  by (rule reads_len_header [OF assms(1,2), where f = pk_string]) (use assms(3) in \<open>simp_all add: pk_tag_small pk_tag_long reads_string\<close>)

lemma pk_tag_fixint:
  "t < 128 \<Longrightarrow> pk_tag rd t = (\<lambda>p. Inr (PInt (int t), p))"
  "224 \<le> t \<Longrightarrow> pk_tag rd t = (\<lambda>p. Inr (PInt (int t - 256), p))"
  by (simp_all add: pk_tag_def fun_eq_iff)

lemma unat_word_of_int: "unat (word_of_int n :: u8) = nat (n mod 256)"
  by (simp add: unat_eq_nat_uint uint_word_of_int)

lemma reads_pack_int:
  assumes "depth \<le> MAX_DEPTH" and "- 32 \<le> n" and "n < 2 ^ 32"
  shows "reads (pk_read depth) (PInt n) (pack (PInt n))"
proof -
  consider "n < 0" | "0 \<le> n" "n < 128" | "128 \<le> n" by linarith
  then show ?thesis
  proof cases
    case 1
    have "n mod 256 = (n + 256) mod 256" by simp
    also have "\<dots> = n + 256" using 1 assms(2) by (intro mod_pos_pos_trivial) simp_all
    finally have "unat (word_of_int n :: u8) = nat (n + 256)" by (simp add: unat_word_of_int)
    then have "pk_tag rd (unat (word_of_int n :: u8)) = (\<lambda>p. Inr (PInt n, p))" for rd
      using 1 assms(2) pk_tag_fixint(2) [of "nat (n + 256)" rd] by simp
    then show ?thesis using 1 assms(1) by (simp add: reads_tag reads_return)
  next
    case 2
    then have "unat (word_of_int n :: u8) = nat n" by (simp add: unat_word_of_int mod_pos_pos_trivial)
    then have "pk_tag rd (unat (word_of_int n :: u8)) = (\<lambda>p. Inr (PInt n, p))" for rd
      using 2 pk_tag_fixint(1) [of "nat n" rd] by simp
    then show ?thesis using 2 assms(1) by (simp add: reads_tag reads_return)
  next
    case 3
    then have "reads (pk_number 4) (int (nat n)) (to_be 4 (nat n))" using assms(3) by (intro reads_number) (simp add: nat_less_iff)
    then have "reads (pk_int 4) (PInt n) (to_be 4 (nat n))"
      using reads_map [of "pk_number 4" n "to_be 4 (nat n)" PInt] 3 unfolding pk_int_def by simp
    then show ?thesis using 3 assms(1) by (simp add: reads_tag pk_tag_long)
  qed
qed

lemma reads_pack: "packed_fits k v \<Longrightarrow> MAX_DEPTH + 1 - depth = k \<Longrightarrow> reads (pk_read depth) v (pack v)"
proof (induction k arbitrary: v depth)
  case (Suc k)
  then have d: "depth \<le> MAX_DEPTH" and k: "MAX_DEPTH + 1 - (depth + 1) = k" by auto
  note IH = Suc.IH [OF _ k]
  show ?case
  proof (cases v)
    case (PArray vs)
    then have "reads (pk_values (pk_read (depth + 1)) (length vs)) vs (concat (map pack vs))"
      using Suc.prems(1) IH by (intro reads_values) (auto simp: list_all_iff)
    then have "reads (pk_array (pk_read (depth + 1)) (length vs)) v (concat (map pack vs))"
      using reads_map [of _ vs _ PArray] PArray Suc.prems(1) unfolding pk_array_def by simp
    then have "reads (pk_read depth) v (len_header 0x90 16 0xdc (length vs) @ concat (map pack vs))"
      using Suc.prems(1) PArray
      by (intro reads_len_header [OF d, where f = "pk_array (pk_read (depth + 1))"]) (simp_all add: pk_tag_small pk_tag_long)
    then show ?thesis using PArray by simp
  next
    case (PMap es)
    have str: "reads (pk_read (depth + 1)) (PStr t) (pack_str t)" if "packed_fits k (PStr t)" for t
      using IH [OF that] by simp
    have "reads (pk_entries (pk_read (depth + 1)) (length es)) es (concat (map (\<lambda>(k, v). pack_str k @ pack v) es))"
      using Suc.prems(1) PMap IH str by (intro reads_entries) (auto simp: list_all_iff)
    then have "reads (pk_map (pk_read (depth + 1)) (length es)) v (concat (map (\<lambda>(k, v). pack_str k @ pack v) es))"
      using reads_map [of _ es _ PMap] PMap Suc.prems(1) unfolding pk_map_def by simp
    then have "reads (pk_read depth) v (len_header 0x80 16 0xde (length es) @ concat (map (\<lambda>(k, v). pack_str k @ pack v) es))"
      using Suc.prems(1) PMap
      by (intro reads_len_header [OF d, where f = "pk_map (pk_read (depth + 1))"]) (simp_all add: pk_tag_small pk_tag_long)
    then show ?thesis using PMap by simp
  next
    case (PBytes bs)
    have "reads (pk_bin (length bs)) v bs"
      using reads_map [OF reads_take [of bs], of PBytes] PBytes unfolding pk_bin_def by simp
    moreover have "reads (pk_number 2) (int (length bs)) (to_be 2 (length bs))"
      using Suc.prems(1) PBytes by (intro reads_number) simp
    ultimately have "reads (\<lambda>p. and_then (pk_number 2 p) (\<lambda>(n, p'). pk_bin (nat n) p')) v (to_be 2 (length bs) @ bs)"
      by (intro reads_bind [where x = "int (length bs)" and f = "\<lambda>n. pk_bin (nat n)"]) simp_all
    then show ?thesis using PBytes d by (simp add: reads_tag pk_tag_long)
  next
    case POther
    then show ?thesis using d by (simp add: reads_tag pk_tag_long reads_return)
  qed (use Suc.prems(1) d reads_pack_int reads_pack_str in auto)
qed simp

lemma decode_percent_bytes_encode:
  "decode_percent_bytes (as_bytes (percent_encode s)) = Inr (as_bytes s)"
proof (induction s)
  case (Cons c s)
  let ?n = "of_char c :: nat"
  have "as_bytes (percent_encode (c # s))
      = 0x25 # byte_of (hex_char (?n div 16)) # byte_of (hex_char (?n mod 16)) # as_bytes (percent_encode s)"
    by (simp add: percent_encode_def as_bytes_Cons byte_of_percent)
  moreover have "hex_byte (byte_of (hex_char (?n div 16))) = Some (?n div 16)"
    "hex_byte (byte_of (hex_char (?n mod 16))) = Some (?n mod 16)"
    unfolding hex_byte_def char_of_byte_of by (rule hex_val_hex_char, rule char_hex_digits)+
  moreover have "word_of_nat (16 * (?n div 16) + ?n mod 16) = byte_of c" by (simp add: byte_of_def)
  ultimately show ?case using Cons by (simp add: as_bytes_Cons)
qed (simp add: percent_encode_def)

lemma pack_nonempty: "pack v \<noteq> []"
  by (cases v) (simp_all add: pack_str_def len_header_def)

lemma unmask_unmask [simp]: "unmask seed (unmask seed bs) = bs"
  by (rule nth_equalityI) (simp_all add: unmask_def xor.assoc)

lemma length_unmask [simp]: "length (unmask seed bs) = length bs"
  by (simp add: unmask_def)

text \<open>
  C33. A link made by the reference encoder is decoded to the configuration it was made from: MessagePack,
  mask with any seed, base64 and percent encoding are undone layer by layer, and the payload reaches the
  field checks unchanged.
\<close>

theorem smart_link_roundtrip:
  assumes "packed_fits (MAX_DEPTH + 1) root" and "length (pack root) < MAX_DECODED_BYTES - 2"
    and "b64_standard env token = Inr ([6, seed] @ unmask seed (pack root))" and "valid_utf8 (as_bytes token)" and "token \<noteq> []"
    and "url_parse env (trim link) = Inr u" and "url_scheme u = ''https''" and "url_host_str u = Some h"
    and "url_path u = ''/i/'' @ percent_encode token" and "length link \<le> MAX_LINK_BYTES"
  shows "decode_rocket_smart_link env link = smart_config_of root"
proof -
  have tok: "decode_percent (percent_encode token) = Inr token"
    using assms(4) by (simp add: decode_percent_def decode_percent_bytes_encode from_utf8_def)
  have ne: "percent_encode token \<noteq> []" using assms(5) by (cases token) (simp_all add: percent_encode_def)
  have rd: "reads (pk_read 0) root (pack root)" using reads_pack [OF assms(1)] by simp
  moreover have "pack root \<noteq> []" by (rule pack_nonempty)
  moreover have "length (pack root) < 2 ^ 64" using assms(2) by (simp add: MAX_DECODED_BYTES_def)
  ultimately have payload: "parse_payload (pack root) = smart_config_of root"
    using readsD [OF rd, of "[]" "[]"] by (simp add: parse_payload_def parser_at_def)
  have env: "unpack_envelope env ([6, seed] @ unmask seed (pack root)) = Inr (pack root)"
    using assms(2) \<open>pack root \<noteq> []\<close> by (cases "pack root") (simp_all add: unpack_envelope_def)
  show ?thesis
    using assms(3,6-10) tok ne payload env
    by (simp add: decode_rocket_smart_link_def strip_prefix_def decode_token_def)
qed

text \<open>What the field checks let through.\<close>

fun smart_host_ok :: "smart_host \<Rightarrow> bool" where
  "smart_host_ok h \<longleftrightarrow>
     sh_host h \<noteq> [] \<and> length (sh_host h) \<le> 253 \<and> \<not> list_ex bad_host_char (sh_host h) \<and> sh_port h \<noteq> 0"

definition smart_config_ok :: "smart_config \<Rightarrow> bool" where
  "smart_config_ok c \<longleftrightarrow>
     sc_hosts c \<noteq> [] \<and> length (sc_hosts c) \<le> 64 \<and> list_all smart_host_ok (sc_hosts c)
   \<and> prefix ''/'' (sc_path c) \<and> length (sc_path c) \<le> 2048 \<and> CR \<notin> set (sc_path c) \<and> LF \<notin> set (sc_path c)
   \<and> length (sc_username c) \<le> 4096 \<and> length (sc_password c) \<le> 4096"

lemma smart_host_of_ok: "smart_host_of v = Inr h \<Longrightarrow> smart_host_ok h"
  by (auto simp: smart_host_of_def and_then_eq_Inr split: if_splits)

lemma collect_results_ok: "collect_results f xs = Inr ys \<Longrightarrow> (\<And>x y. f x = Inr y \<Longrightarrow> P y) \<Longrightarrow> list_all P ys"
  by (induction xs arbitrary: ys) (auto simp: and_then_eq_Inr)

lemma smart_config_of_ok: "smart_config_of v = Inr c \<Longrightarrow> smart_config_ok c"
  using collect_results_ok [of smart_host_of _ _ smart_host_ok] smart_host_of_ok
  by (auto simp: smart_config_of_def smart_config_ok_def and_then_eq_Inr split: if_splits)

text \<open>
  C34. A decoded Smart Config is safe to use, whatever the link holds: between 1 and 64 hosts, each with a
  non-empty name of at most 253 bytes without control characters, white space or URL delimiters and a non-zero port; a
  request path of at most 2048 bytes that starts with a slash and cannot break the request line; credentials
  of at most 4096 bytes. The hosts offered for zones are hosts of the link.
\<close>

theorem smart_link_yields_safe_config:
  "case decode_rocket_smart_link env link of
     Inl e \<Rightarrow> True
   | Inr c \<Rightarrow> smart_config_ok c \<and> fst ` set (zone_hosts c) \<subseteq> set (sc_hosts c)"
proof (cases "decode_rocket_smart_link env link")
  case (Inr c)
  then obtain v where "smart_config_of v = Inr c"
    by (auto simp: decode_rocket_smart_link_def parse_payload_def and_then_eq_Inr split: if_splits)
  then show ?thesis using Inr smart_config_of_ok by (auto simp: zone_hosts_def split: if_splits)
qed simp

definition example_packed :: packed where
  "example_packed = PArray [PMap [(''0'', PStr ''smart''), (''13'', PInt 1),
     (''14'', PArray [PMap [(''0'', PStr ''h''), (''1'', PInt 80), (''2'', PInt 17), (''3'', PInt 0)]]),
     (''16'', PStr ''/''), (''4'', PStr ''u''), (''15'', PStr ''p'')]]"

definition example_smart_env :: "nat smart_env" where
  "example_smart_env = import_env.extend
     (example_import_env\<lparr>
        url_parse := (\<lambda>_. Inr \<lparr> url_scheme = ''https'', url_username = [], url_password = None, url_host_str = Some ''x'',
          url_port = None, url_path = ''/i/'' @ percent_encode ''t'', url_fragment = None, url_query_pairs = [] \<rparr>),
        b64_standard := (\<lambda>_. Inr ([6, 19] @ unmask 19 (pack example_packed)))\<rparr>)
     \<lparr> b64_no_pad = (\<lambda>_. Inl []), zlib_read = (\<lambda>_ _. Inl []) \<rparr>"

theorem smart_link_roundtrip_witness:
  "decode_rocket_smart_link example_smart_env ''L'' =
     Inr \<lparr> sc_username = ''u'', sc_password = ''p'', sc_path = ''/'',
       sc_hosts = [\<lparr> sh_host = ''h'', sh_port = 80, sh_flag = 17, sh_delay = 0 \<rparr>] \<rparr>"
proof -
  have u: "valid_utf8 (as_bytes t)" if "list_all (\<lambda>c. (of_char c :: nat) < 128) t" for t
    using that by (intro valid_utf8_ascii) (auto simp: list_all_iff as_bytes_def byte_of_def unat_of_nat)
  have "packed_fits (Suc (Suc (Suc (Suc (Suc k))))) example_packed" for k by (simp add: example_packed_def u)
  from this [of 28] have fits: "packed_fits (MAX_DEPTH + 1) example_packed" by (simp add: MAX_DEPTH_def)
  have len: "length (pack example_packed) < MAX_DECODED_BYTES - 2"
    by (simp add: example_packed_def MAX_DECODED_BYTES_def pack_str_def len_header_def)
  have e: "b64_standard example_smart_env ''t'' = Inr ([6, 19] @ unmask 19 (pack example_packed))"
    "url_parse example_smart_env (trim ''L'') = Inr \<lparr> url_scheme = ''https'', url_username = [], url_password = None,
       url_host_str = Some ''x'', url_port = None, url_path = ''/i/'' @ percent_encode ''t'', url_fragment = None, url_query_pairs = [] \<rparr>"
    by (simp_all add: example_smart_env_def import_env.defs example_import_env_def)
  have "decode_rocket_smart_link example_smart_env ''L'' = smart_config_of example_packed"
    by (rule smart_link_roundtrip [OF fits len e(1) _ _ e(2)]) (simp_all add: u MAX_LINK_BYTES_def)
  also have "\<dots> = Inr \<lparr> sc_username = ''u'', sc_password = ''p'', sc_path = ''/'',
       sc_hosts = [\<lparr> sh_host = ''h'', sh_port = 80, sh_flag = 17, sh_delay = 0 \<rparr>] \<rparr>"
    by (simp add: smart_config_of_def example_packed_def smart_host_of_def int_to_word_def bad_host_char_def)
  finally show ?thesis .
qed

end
