(* ===== verification/Config_Db.thy ===== *)
theory Config_Db
  imports Smart_Link "HOL-Library.Char_ord" "HOL-Library.List_Lexorder"
begin

text \<open>
  The profile database (\<^verbatim>\<open>crates/config/src/db.rs\<close>). SQLite is another crate: a table is the list of its rows, and each
  statement is the change it makes to them. \<open>db_fault\<close> is the error every statement returns while the database is
  unusable. JSON texts are made and read by the parameters of \<open>db_env\<close>.
\<close>

record 'json db_env = "'json smart_env" +
  cfg_to_json :: "connection_config \<Rightarrow> string + string"
  cfg_of_json :: "string \<Rightarrow> string + connection_config"
  settings_to_json :: "app_settings \<Rightarrow> string + string"
  settings_of_json :: "string \<Rightarrow> string + app_settings"
  to_rfc3339 :: "timestamp \<Rightarrow> string"

record profile_row =
  pr_id :: string
  pr_name :: string
  pr_json :: string
  pr_created_at :: string
  pr_updated_at :: string

record config_db =
  db_version :: "string option"
  db_profiles :: "profile_row list"
  db_settings :: "string option"
  db_fault :: "string option"

definition statement :: "config_db \<Rightarrow> config_error + unit" where
  "statement db = (case db_fault db of None \<Rightarrow> Inr () | Some e \<Rightarrow> Inl (DbError e))"

definition migrate :: "('json, 'a) db_env_scheme \<Rightarrow> config_db \<Rightarrow> (config_error + unit) \<times> config_db" where
  "migrate env db =
     (case statement db of
        Inl e \<Rightarrow> (Inl e, db)
      | Inr _ \<Rightarrow>
          (case db_version db of
             Some _ \<Rightarrow> (Inr (), db)
           | None \<Rightarrow>
               (let db1 = db\<lparr>db_version := Some (show_nat CONFIG_VERSION)\<rparr> in
                case settings_to_json env default_app_settings of
                  Inl e \<Rightarrow> (Inl (JsonError e), db1)
                | Inr json \<Rightarrow>
                    (case db_settings db1 of
                       Some _ \<Rightarrow> (Inl (DbError ''UNIQUE constraint failed: app_settings.id''), db1)
                     | None \<Rightarrow> (Inr (), db1\<lparr>db_settings := Some json\<rparr>)))))"

fun decode_rows :: "('json, 'a) db_env_scheme \<Rightarrow> profile_row list \<Rightarrow> config_error + connection_config list" where
  "decode_rows env [] = Inr []"
| "decode_rows env (r # rs) =
     and_then (map_err JsonError (cfg_of_json env (pr_json r))) (\<lambda>c.
     and_then (decode_rows env rs) (\<lambda>cs. Inr (c # cs)))"

definition list_profiles :: "('json, 'a) db_env_scheme \<Rightarrow> config_db \<Rightarrow> config_error + connection_config list" where
  "list_profiles env db =
     and_then (statement db) (\<lambda>_. decode_rows env (sort_key (\<lambda>r. to_ascii_lowercase (pr_name r)) (db_profiles db)))"

definition row_of :: "string \<Rightarrow> config_db \<Rightarrow> profile_row option" where
  "row_of key db = find (\<lambda>r. pr_id r = key) (db_profiles db)"

definition get_profile :: "('json, 'a) db_env_scheme \<Rightarrow> uuid \<Rightarrow> config_db \<Rightarrow> config_error + connection_config" where
  "get_profile env id' db =
     (case (if db_fault db = None then row_of (uuid_show env id') db else None) of
        None \<Rightarrow> Inl (NotFound (uuid_show env id'))
      | Some r \<Rightarrow> map_err JsonError (cfg_of_json env (pr_json r)))"

definition upsert_row :: "profile_row \<Rightarrow> profile_row list \<Rightarrow> profile_row list" where
  "upsert_row r rows =
     (if list_ex (\<lambda>q. pr_id q = pr_id r) rows
      then map (\<lambda>q. if pr_id q = pr_id r
                    then q\<lparr>pr_name := pr_name r, pr_json := pr_json r, pr_updated_at := pr_updated_at r\<rparr> else q) rows
      else rows @ [r])"

definition upsert_profile :: "('json, 'a) db_env_scheme \<Rightarrow> connection_config \<Rightarrow> config_db \<Rightarrow> (config_error + unit) \<times> config_db" where
  "upsert_profile env cfg db =
     (case validate_connection (to_config_env env) cfg of
        Inl e \<Rightarrow> (Inl e, db)
      | Inr _ \<Rightarrow>
          (case cfg_to_json env cfg of
             Inl e \<Rightarrow> (Inl (JsonError e), db)
           | Inr json \<Rightarrow>
               (case statement db of
                  Inl e \<Rightarrow> (Inl e, db)
                | Inr _ \<Rightarrow>
                    (Inr (), db\<lparr>db_profiles := upsert_row
                       \<lparr> pr_id = uuid_show env (cfg_id cfg), pr_name = cfg_name cfg, pr_json = json,
                         pr_created_at = to_rfc3339 env (cfg_created_at cfg),
                         pr_updated_at = to_rfc3339 env (cfg_updated_at cfg) \<rparr> (db_profiles db)\<rparr>))))"

definition db_delete_profile :: "('json, 'a) db_env_scheme \<Rightarrow> uuid \<Rightarrow> config_db \<Rightarrow> (config_error + unit) \<times> config_db" where
  "db_delete_profile env id' db =
     (case statement db of
        Inl e \<Rightarrow> (Inl e, db)
      | Inr _ \<Rightarrow>
          (let rest = filter (\<lambda>r. pr_id r \<noteq> uuid_show env id') (db_profiles db) in
           if length rest = length (db_profiles db) then (Inl (NotFound (uuid_show env id')), db)
           else (Inr (), db\<lparr>db_profiles := rest\<rparr>)))"

definition get_settings :: "('json, 'a) db_env_scheme \<Rightarrow> config_db \<Rightarrow> config_error + app_settings" where
  "get_settings env db =
     and_then (statement db) (\<lambda>_.
       case db_settings db of
         None \<Rightarrow> Inl (DbError ''Query returned no rows'')
       | Some json \<Rightarrow> map_err JsonError (settings_of_json env json))"

definition save_settings :: "('json, 'a) db_env_scheme \<Rightarrow> app_settings \<Rightarrow> config_db \<Rightarrow> (config_error + unit) \<times> config_db" where
  "save_settings env settings db =
     (case settings_to_json env settings of
        Inl e \<Rightarrow> (Inl (JsonError e), db)
      | Inr json \<Rightarrow>
          (case statement db of
             Inl e \<Rightarrow> (Inl e, db)
           | Inr _ \<Rightarrow> (Inr (), db\<lparr>db_settings := map_option (\<lambda>_. json) (db_settings db)\<rparr>)))"

definition import_json :: "('json, 'a) db_env_scheme \<Rightarrow> string \<Rightarrow> config_db \<Rightarrow> (config_error + connection_config) \<times> config_db" where
  "import_json env raw db =
     (case json_parse env raw of
        Inl e \<Rightarrow> (Inl (JsonError e), db)
      | Inr v \<Rightarrow>
          (let version = (case Option.bind (json_get env v ''version'') (json_as_u64 env) of None \<Rightarrow> 1 | Some n \<Rightarrow> n) in
           if CONFIG_VERSION < version then (Inl (Import (''unsupported config version '' @ show_nat version)), db)
           else case json_profile env (case json_get env v ''profile'' of Some p \<Rightarrow> p | None \<Rightarrow> v) of
                  Inl e \<Rightarrow> (Inl (JsonError e), db)
                | Inr p \<Rightarrow>
                    (let profile = p\<lparr>cfg_id := fresh_uuid env, cfg_updated_at := utc_now env\<rparr> in
                     case validate_connection (to_config_env env) profile of
                       Inl e \<Rightarrow> (Inl e, db)
                     | Inr _ \<Rightarrow>
                         (case upsert_profile env profile db of
                            (Inl e, db') \<Rightarrow> (Inl e, db')
                          | (Inr _, db') \<Rightarrow> (Inr profile, db')))))"

subsection \<open>What the database holds\<close>

definition json_ok :: "('json, 'a) db_env_scheme \<Rightarrow> bool" where
  "json_ok env \<longleftrightarrow> (\<forall>c s. cfg_to_json env c = Inr s \<longrightarrow> cfg_of_json env s = Inr c)"

definition row_ok :: "('json, 'a) db_env_scheme \<Rightarrow> profile_row \<Rightarrow> bool" where
  "row_ok env r \<longleftrightarrow>
     (case cfg_of_json env (pr_json r) of
        Inl _ \<Rightarrow> False
      | Inr c \<Rightarrow> valid_config (to_config_env env) c \<and> pr_id r = uuid_show env (cfg_id c) \<and> pr_name r = cfg_name c)"

definition db_ok :: "('json, 'a) db_env_scheme \<Rightarrow> config_db \<Rightarrow> bool" where
  "db_ok env db \<longleftrightarrow> distinct (map pr_id (db_profiles db)) \<and> list_all (row_ok env) (db_profiles db)"

lemma upsert_row_ids: "map pr_id (upsert_row r rows) = (if pr_id r \<in> pr_id ` set rows then map pr_id rows else map pr_id rows @ [pr_id r])"
  by (auto simp: upsert_row_def list_ex_iff comp_def intro: rev_image_eqI)

lemma find_upsert_row:
  "find (\<lambda>q. pr_id q = k) (upsert_row r rows) =
     (if k = pr_id r
      then Some (case find (\<lambda>q. pr_id q = k) rows of None \<Rightarrow> r
                 | Some q \<Rightarrow> q\<lparr>pr_name := pr_name r, pr_json := pr_json r, pr_updated_at := pr_updated_at r\<rparr>)
      else find (\<lambda>q. pr_id q = k) rows)"
proof -
  have m: "find (\<lambda>q. pr_id q = k) (map (\<lambda>q. if pr_id q = pr_id r
       then q\<lparr>pr_name := pr_name r, pr_json := pr_json r, pr_updated_at := pr_updated_at r\<rparr> else q) rows)
     = map_option (\<lambda>q. if pr_id q = pr_id r
       then q\<lparr>pr_name := pr_name r, pr_json := pr_json r, pr_updated_at := pr_updated_at r\<rparr> else q) (find (\<lambda>q. pr_id q = k) rows)" for k
    by (induction rows) auto
  have a: "find (\<lambda>q. pr_id q = k) (rows @ [r]) = (case find (\<lambda>q. pr_id q = k) rows of
      None \<Rightarrow> if pr_id r = k then Some r else None | Some q \<Rightarrow> Some q)" for k by (induction rows) auto
  have none: "find (\<lambda>q. pr_id q = k) rows = None \<longleftrightarrow> \<not> list_ex (\<lambda>q. pr_id q = k) rows" for k
    unfolding find_None_iff list_ex_iff by blast
  show ?thesis
  proof (cases "find (\<lambda>q. pr_id q = k) rows")
    case None
    then show ?thesis using none [of k] by (cases "k = pr_id r") (simp_all add: upsert_row_def m a)
  next
    case (Some q)
    then have "pr_id q = k" by (auto simp: find_Some_iff)
    then show ?thesis using Some none [of k] by (cases "k = pr_id r") (simp_all add: upsert_row_def m a)
  qed
qed

lemma row_ok_update:
  "row_ok env r \<Longrightarrow> pr_id q = pr_id r \<Longrightarrow>
     row_ok env (q\<lparr>pr_name := pr_name r, pr_json := pr_json r, pr_updated_at := pr_updated_at r\<rparr>)"
  by (auto simp: row_ok_def split: sum.splits)

definition profile_row_of :: "('json, 'a) db_env_scheme \<Rightarrow> connection_config \<Rightarrow> string \<Rightarrow> profile_row" where
  "profile_row_of env cfg json =
     \<lparr> pr_id = uuid_show env (cfg_id cfg), pr_name = cfg_name cfg, pr_json = json,
       pr_created_at = to_rfc3339 env (cfg_created_at cfg), pr_updated_at = to_rfc3339 env (cfg_updated_at cfg) \<rparr>"

lemma upsert_profile_Inr:
  "upsert_profile env cfg db = (Inr (), db') \<longleftrightarrow>
     valid_config (to_config_env env) cfg \<and> db_fault db = None
   \<and> (\<exists>json. cfg_to_json env cfg = Inr json
        \<and> db' = db\<lparr>db_profiles := upsert_row (profile_row_of env cfg json) (db_profiles db)\<rparr>)"
  by (auto simp: upsert_profile_def statement_def profile_row_of_def split: sum.splits option.splits)

lemma upsert_profile_Inl: "upsert_profile env cfg db = (Inl e, db') \<Longrightarrow> db' = db"
  by (auto simp: upsert_profile_def split: sum.splits)

lemma upsert_profile_ok:
  assumes "json_ok env" and "db_ok env db" and "upsert_profile env cfg db = (r, db')"
  shows "db_ok env db'"
proof (cases r)
  case (Inl e)
  then have "db' = db" using assms(3) upsert_profile_Inl by blast
  then show ?thesis using assms(2) by simp
next
  case (Inr u)
  then have "upsert_profile env cfg db = (Inr (), db')" using assms(3) by simp
  then obtain json where v: "valid_config (to_config_env env) cfg" "cfg_to_json env cfg = Inr json"
    and db': "db' = db\<lparr>db_profiles := upsert_row (profile_row_of env cfg json) (db_profiles db)\<rparr>"
    unfolding upsert_profile_Inr by blast
  let ?row = "profile_row_of env cfg json"
  have ok: "row_ok env ?row" using v assms(1) by (simp add: row_ok_def json_ok_def profile_row_of_def)
  have "list_all (row_ok env) (upsert_row ?row (db_profiles db))"
    using assms(2) ok row_ok_update [OF ok] by (auto simp: upsert_row_def db_ok_def list_all_iff)
  moreover have "distinct (map pr_id (upsert_row ?row (db_profiles db)))"
    using assms(2) by (auto simp: upsert_row_ids db_ok_def)
  ultimately show ?thesis by (simp add: db_ok_def db')
qed

lemma upsert_profile_get:
  assumes "json_ok env" and "upsert_profile env cfg db = (Inr (), db')"
  shows "get_profile env i db' = (if uuid_show env i = uuid_show env (cfg_id cfg) then Inr cfg else get_profile env i db)"
    and "valid_config (to_config_env env) cfg"
proof -
  obtain json where v: "valid_config (to_config_env env) cfg" "cfg_to_json env cfg = Inr json" and f: "db_fault db = None"
    and db': "db' = db\<lparr>db_profiles := upsert_row (profile_row_of env cfg json) (db_profiles db)\<rparr>"
    using assms(2) unfolding upsert_profile_Inr by blast
  have j: "cfg_of_json env json = Inr cfg" using v(2) assms(1) by (simp add: json_ok_def)
  show "valid_config (to_config_env env) cfg" by (rule v(1))
  show "get_profile env i db' = (if uuid_show env i = uuid_show env (cfg_id cfg) then Inr cfg else get_profile env i db)"
    using f j by (auto simp: get_profile_def row_of_def db' find_upsert_row profile_row_of_def split: option.splits)
qed

lemma db_delete_ok: "db_ok env db \<Longrightarrow> db_delete_profile env i db = (r, db') \<Longrightarrow> db_ok env db'"
  by (auto simp: db_delete_profile_def db_ok_def Let_def list_all_iff distinct_map_filter split: sum.splits if_splits)

lemma get_profile_valid:
  assumes "db_ok env db" and "get_profile env i db = Inr cfg"
  shows "valid_config (to_config_env env) cfg" and "uuid_show env (cfg_id cfg) = uuid_show env i"
proof -
  obtain r where r: "row_of (uuid_show env i) db = Some r" "cfg_of_json env (pr_json r) = Inr cfg"
    using assms(2) by (auto simp: get_profile_def map_err_eq_Inr split: option.splits if_splits)
  then have "r \<in> set (db_profiles db)" "pr_id r = uuid_show env i" by (auto simp: row_of_def find_Some_iff)
  then have "row_ok env r" using assms(1) by (simp add: db_ok_def list_all_iff)
  then show "valid_config (to_config_env env) cfg" "uuid_show env (cfg_id cfg) = uuid_show env i"
    using r(2) \<open>pr_id r = uuid_show env i\<close> by (simp_all add: row_ok_def)
qed

lemma decode_rows_ok: "list_all (row_ok env) rows \<Longrightarrow> \<exists>cs. decode_rows env rows = Inr cs \<and> length cs = length rows \<and> list_all (valid_config (to_config_env env)) cs"
  by (induction rows) (auto simp: row_ok_def split: sum.splits)

end
