(* ===== verification/Os.thy ===== *)
theory Os
  imports Rust_Net
begin

text \<open>
  What the privileged side asks of the operating system: running \<^verbatim>\<open>ip\<close>, \<^verbatim>\<open>nft\<close> and \<^verbatim>\<open>resolvectl\<close>,
  creating the TUN device and keeping the journal file. These are other programs and the kernel, so they are
  the fields of the record \<open>sys\<close> over an arbitrary state \<open>'w\<close> of the machine; what the code relies on is
  stated where it is used. Actions are state transformers that return a result.
\<close>

record proc_output =
  out_success :: bool
  out_stdout :: bytes
  out_stderr :: bytes

record 'w sys =
  exec :: "string \<Rightarrow> string list \<Rightarrow> bytes \<Rightarrow> 'w \<Rightarrow> (string + proc_output) \<times> 'w"
  path_exists :: "string \<Rightarrow> bool"
  open_tun :: "string \<Rightarrow> 'w \<Rightarrow> (string + nat) \<times> 'w"
  fs_read :: "string \<Rightarrow> 'w \<Rightarrow> bytes option"
  fs_write :: "string \<Rightarrow> bytes \<Rightarrow> 'w \<Rightarrow> (string + unit) \<times> 'w"
  fs_rename :: "string \<Rightarrow> string \<Rightarrow> 'w \<Rightarrow> (string + unit) \<times> 'w"
  fs_remove :: "string \<Rightarrow> 'w \<Rightarrow> (string + unit) \<times> 'w"

type_synonym ('w, 'e, 'a) act = "'w \<Rightarrow> ('e + 'a) \<times> 'w"

definition act_bind :: "('w, 'e, 'a) act \<Rightarrow> ('a \<Rightarrow> ('w, 'e, 'b) act) \<Rightarrow> ('w, 'e, 'b) act" where
  "act_bind m f w = (case m w of (Inl e, w') \<Rightarrow> (Inl e, w') | (Inr x, w') \<Rightarrow> f x w')"

definition act_return :: "'a \<Rightarrow> ('w, 'e, 'a) act" where
  "act_return x w = (Inr x, w)"

definition act_fail :: "'e \<Rightarrow> ('w, 'e, 'a) act" where
  "act_fail e w = (Inl e, w)"

lemma act_bind_return [simp]: "act_bind (act_return x) f w = f x w"
  by (simp add: act_bind_def act_return_def)

lemma act_bind_fail [simp]: "act_bind (act_fail e) f w = (Inl e, w)"
  by (simp add: act_bind_def act_fail_def)

lemma act_bind_Inr: "act_bind m f w = (Inr y, v) \<longleftrightarrow> (\<exists>x u. m w = (Inr x, u) \<and> f x u = (Inr y, v))"
  by (auto simp: act_bind_def split: prod.splits sum.splits)

lemma act_bind_Inl:
  "act_bind m f w = (Inl e, v) \<longleftrightarrow> m w = (Inl e, v) \<or> (\<exists>x u. m w = (Inr x, u) \<and> f x u = (Inl e, v))"
  by (auto simp: act_bind_def split: prod.splits sum.splits)

definition str_contains :: "string \<Rightarrow> string \<Rightarrow> bool" where
  "str_contains pat s \<longleftrightarrow> find_sub pat s \<noteq> None"

fun join_with :: "string \<Rightarrow> string list \<Rightarrow> string" where
  "join_with sep [] = []"
| "join_with sep [s] = s"
| "join_with sep (s # t # ts) = s @ sep @ join_with sep (t # ts)"

fun first_existing :: "('w, 'a) sys_scheme \<Rightarrow> string list \<Rightarrow> string \<Rightarrow> string" where
  "first_existing sys [] dflt = dflt"
| "first_existing sys (p # ps) dflt = (if path_exists sys p then p else first_existing sys ps dflt)"

end
