(* ===== verification/Secrets.thy ===== *)
theory Secrets
  imports Os Config_Model "HOL-Library.Countable"
begin

text \<open>
  \<^verbatim>\<open>crates/secrets\<close>: the encrypted vault file and the store of secrets over it. AES-256-GCM, SHA-256, JSON, random
  numbers and the file system are not part of the repository: they are the fields of \<open>vault_env\<close> over the state \<open>'w\<close> of
  the machine, and \<open>codec_ok\<close> and \<open>disk_ok\<close> say what is relied on. File permissions and zeroing of memory are not modelled.
\<close>

datatype secrets_error =
    SecNotFound string
  | InvalidRef
  | Crypto string
  | SecIo string
  | SecSerde string
  | Backend string

record 'w vault_env = "'w sys" +
  gcm_encrypt :: "bytes \<Rightarrow> bytes \<Rightarrow> bytes \<Rightarrow> string + bytes"
  gcm_decrypt :: "bytes \<Rightarrow> bytes \<Rightarrow> bytes \<Rightarrow> string + bytes"
  sha256 :: "bytes \<Rightarrow> bytes"
  vault_to_json :: "(string, string) table \<Rightarrow> string + bytes"
  vault_of_json :: "bytes \<Rightarrow> string + (string, string) table"
  draw_nonce :: "'w \<Rightarrow> bytes \<times> 'w"
  draw_uuid :: "'w \<Rightarrow> string \<times> 'w"
  exists_at :: "string \<Rightarrow> 'w \<Rightarrow> bool"
  create_dir_all :: "string \<Rightarrow> 'w \<Rightarrow> (string + unit) \<times> 'w"
  read_error :: "string \<Rightarrow> 'w \<Rightarrow> string"

definition FILE_MAGIC :: bytes where "FILE_MAGIC = as_bytes ''EASYSEC1''"
definition NONCE_LEN :: nat where "NONCE_LEN = 12"

record file_store =
  vs_path :: string
  vs_key :: bytes

definition derive_key :: "('w, 'a) vault_env_scheme \<Rightarrow> bytes \<Rightarrow> bytes" where
  "derive_key env binding = sha256 env (as_bytes ''easy-connection-secrets-v1'' @ binding)"

text \<open>\<^verbatim>\<open>Path::with_extension\<close> and \<^verbatim>\<open>Path::parent\<close> on a path with a file name.\<close>

definition file_name :: "string \<Rightarrow> string" where
  "file_name p = rev (takeWhile (\<lambda>c. c \<noteq> CHR ''/'') (rev p))"

definition parent_dir :: "string \<Rightarrow> string" where
  "parent_dir p = take (length p - length (file_name p) - 1) p"

definition file_stem :: "string \<Rightarrow> string" where
  "file_stem n =
     (let ext = takeWhile (\<lambda>c. c \<noteq> CHR ''.'') (rev n) in
      if length n \<le> Suc (length ext) then n else take (length n - length ext - 1) n)"

definition with_extension :: "string \<Rightarrow> string \<Rightarrow> string" where
  "with_extension p ext = take (length p - length (file_name p)) p @ file_stem (file_name p) @ ''.'' @ ext"

subsection \<open>The vault file\<close>

definition vault_load :: "('w, 'a) vault_env_scheme \<Rightarrow> file_store \<Rightarrow> 'w \<Rightarrow> secrets_error + (string, string) table" where
  "vault_load env st w =
     (case fs_read env (vs_path st) w of
        None \<Rightarrow> Inl (SecIo (read_error env (vs_path st) w))
      | Some buf \<Rightarrow>
          if length buf < length FILE_MAGIC + NONCE_LEN + 16 then Inl (Crypto ''vault file truncated'')
          else if take 8 buf \<noteq> FILE_MAGIC then Inl (Crypto ''invalid vault magic'')
          else (case gcm_decrypt env (vs_key st) (take NONCE_LEN (drop 8 buf)) (drop (8 + NONCE_LEN) buf) of
                  Inl e \<Rightarrow> Inl (Crypto (''decrypt failed: '' @ e))
                | Inr plaintext \<Rightarrow> map_err SecSerde (vault_of_json env plaintext)))"

definition vault_persist :: "('w, 'a) vault_env_scheme \<Rightarrow> file_store \<Rightarrow> (string, string) table \<Rightarrow> ('w, secrets_error, unit) act" where
  "vault_persist env st vault w =
     (case vault_to_json env vault of
        Inl e \<Rightarrow> (Inl (SecSerde e), w)
      | Inr plaintext \<Rightarrow>
          (let (nonce, w1) = draw_nonce env w in
           case gcm_encrypt env (vs_key st) nonce plaintext of
             Inl e \<Rightarrow> (Inl (Crypto (''encrypt failed: '' @ e)), w1)
           | Inr ciphertext \<Rightarrow>
               (let tmp = with_extension (vs_path st) ''tmp'' in
                case fs_write env tmp (FILE_MAGIC @ nonce @ ciphertext) w1 of
                  (Inl e, w2) \<Rightarrow> (Inl (SecIo e), w2)
                | (Inr _, w2) \<Rightarrow>
                    (case fs_rename env tmp (vs_path st) w2 of
                       (Inl e, w3) \<Rightarrow> (Inl (SecIo e), w3)
                     | (Inr _, w3) \<Rightarrow> (Inr (), w3)))))"

definition vault_open :: "('w, 'a) vault_env_scheme \<Rightarrow> string \<Rightarrow> bytes \<Rightarrow> ('w, secrets_error, file_store) act" where
  "vault_open env path machine_binding w =
     (case create_dir_all env (parent_dir path) w of
        (Inl e, w1) \<Rightarrow> (Inl (SecIo e), w1)
      | (Inr _, w1) \<Rightarrow>
          (let store = \<lparr> vs_path = path, vs_key = derive_key env machine_binding \<rparr> in
           if exists_at env path w1 then (Inr store, w1)
           else (case vault_persist env store [] w1 of
                   (Inl e, w2) \<Rightarrow> (Inl e, w2)
                 | (Inr _, w2) \<Rightarrow> (Inr store, w2))))"

definition vault_put :: "('w, 'a) vault_env_scheme \<Rightarrow> file_store \<Rightarrow> string \<Rightarrow> string \<Rightarrow> ('w, secrets_error, unit) act" where
  "vault_put env st id' v w =
     (case vault_load env st w of
        Inl e \<Rightarrow> (Inl e, w)
      | Inr vault \<Rightarrow> vault_persist env st (tput id' v vault) w)"

definition vault_get :: "('w, 'a) vault_env_scheme \<Rightarrow> file_store \<Rightarrow> string \<Rightarrow> 'w \<Rightarrow> secrets_error + string" where
  "vault_get env st id' w =
     (case vault_load env st w of
        Inl e \<Rightarrow> Inl e
      | Inr vault \<Rightarrow> (case tget id' vault of None \<Rightarrow> Inl (SecNotFound id') | Some v \<Rightarrow> Inr v))"

definition vault_delete :: "('w, 'a) vault_env_scheme \<Rightarrow> file_store \<Rightarrow> string \<Rightarrow> ('w, secrets_error, unit) act" where
  "vault_delete env st id' w =
     (case vault_load env st w of
        Inl e \<Rightarrow> (Inl e, w)
      | Inr vault \<Rightarrow> vault_persist env st (tdel id' vault) w)"

subsection \<open>The store\<close>

definition machine_binding :: "('w, 'a) vault_env_scheme \<Rightarrow> string \<Rightarrow> 'w \<Rightarrow> bytes" where
  "machine_binding env config_dir w =
     as_bytes ''easy-connection'' @ as_bytes config_dir
     @ (case Option.bind (fs_read env ''/etc/machine-id'' w) (\<lambda>b. if valid_utf8 b then Some b else None) of
          Some b \<Rightarrow> as_bytes (trim (str_of_bytes b))
        | None \<Rightarrow>
            (case Option.bind (fs_read env ''/etc/hostname'' w) (\<lambda>b. if valid_utf8 b then Some b else None) of
               Some b \<Rightarrow> as_bytes (trim (str_of_bytes b))
             | None \<Rightarrow> as_bytes ''unknown''))"

definition new_ref :: "('w, 'a) vault_env_scheme \<Rightarrow> 'w \<Rightarrow> secret_ref \<times> 'w" where
  "new_ref env w = (let (u, w1) = draw_uuid env w in (\<lparr> ref_id = ''sec_'' @ u \<rparr>, w1))"

definition put_secret :: "('w, 'a) vault_env_scheme \<Rightarrow> file_store \<Rightarrow> string \<Rightarrow> ('w, secrets_error, secret_ref) act" where
  "put_secret env st v w =
     (let (reference, w1) = new_ref env w in
      case vault_put env st (ref_id reference) v w1 of
        (Inl e, w2) \<Rightarrow> (Inl e, w2)
      | (Inr _, w2) \<Rightarrow> (Inr reference, w2))"

definition update_secret :: "('w, 'a) vault_env_scheme \<Rightarrow> file_store \<Rightarrow> secret_ref \<Rightarrow> string \<Rightarrow> ('w, secrets_error, unit) act" where
  "update_secret env st reference v w =
     (if ref_id reference = [] \<or> \<not> prefix ''sec_'' (ref_id reference) then (Inl InvalidRef, w)
      else vault_put env st (ref_id reference) v w)"

definition get_secret :: "('w, 'a) vault_env_scheme \<Rightarrow> file_store \<Rightarrow> secret_ref \<Rightarrow> 'w \<Rightarrow> secrets_error + string" where
  "get_secret env st reference w =
     (if ref_id reference = [] then Inl InvalidRef else vault_get env st (ref_id reference) w)"

definition delete_secret :: "('w, 'a) vault_env_scheme \<Rightarrow> file_store \<Rightarrow> secret_ref \<Rightarrow> ('w, secrets_error, unit) act" where
  "delete_secret env st reference = vault_delete env st (ref_id reference)"

subsection \<open>The vault is a map on disk\<close>

abbreviation tget' :: "(string, string) table \<Rightarrow> string \<Rightarrow> string option" where
  "tget' t \<equiv> \<lambda>k. tget k t"

text \<open>
  What the vault relies on: decryption inverts encryption and adds 16 bytes, JSON keeps the entries, a nonce has twelve
  bytes, writing or renaming one file leaves the others alone, and a failed write or rename leaves the target alone.
\<close>

definition codec_ok :: "('w, 'a) vault_env_scheme \<Rightarrow> bool" where
  "codec_ok env \<longleftrightarrow>
     (\<forall>k n p c. length n = NONCE_LEN \<longrightarrow> gcm_encrypt env k n p = Inr c \<longrightarrow> length c = length p + 16 \<and> gcm_decrypt env k n c = Inr p)
   \<and> (\<forall>t b. twf t \<longrightarrow> vault_to_json env t = Inr b \<longrightarrow> (\<exists>t'. vault_of_json env b = Inr t' \<and> tget' t' = tget' t))
   \<and> (\<forall>b t. vault_of_json env b = Inr t \<longrightarrow> twf t)"

definition disk_ok :: "('w, 'a) vault_env_scheme \<Rightarrow> bool" where
  "disk_ok env \<longleftrightarrow>
     (\<forall>w. length (fst (draw_nonce env w)) = NONCE_LEN)
   \<and> (\<forall>p w. fs_read env p (snd (draw_nonce env w)) = fs_read env p w)
   \<and> (\<forall>p w. fs_read env p (snd (draw_uuid env w)) = fs_read env p w)
   \<and> (\<forall>p d w. fs_read env p (snd (create_dir_all env d w)) = fs_read env p w)
   \<and> (\<forall>p w. fs_read env p w \<noteq> None \<longrightarrow> exists_at env p w)
   \<and> (\<forall>p q b w. q \<noteq> p \<longrightarrow> fs_read env q (snd (fs_write env p b w)) = fs_read env q w)
   \<and> (\<forall>p b w. is_ok (fst (fs_write env p b w)) \<longrightarrow> fs_read env p (snd (fs_write env p b w)) = Some b)
   \<and> (\<forall>p q w. is_ok (fst (fs_rename env p q w)) \<longrightarrow> fs_read env q (snd (fs_rename env p q w)) = fs_read env p w)
   \<and> (\<forall>p q w. \<not> is_ok (fst (fs_rename env p q w)) \<longrightarrow> fs_read env q (snd (fs_rename env p q w)) = fs_read env q w)"

definition vault_view :: "('w, 'a) vault_env_scheme \<Rightarrow> file_store \<Rightarrow> 'w \<Rightarrow> (string \<Rightarrow> string option) option" where
  "vault_view env st w = (case vault_load env st w of Inl _ \<Rightarrow> None | Inr t \<Rightarrow> Some (tget' t))"

lemma vault_view_read:
  "fs_read env (vs_path st) w' = fs_read env (vs_path st) w \<Longrightarrow> vault_view env st w' = vault_view env st w"
  unfolding vault_view_def vault_load_def by (simp split: option.splits sum.splits)

lemma vault_view_file:
  assumes "codec_ok env" and "twf t" and "vault_to_json env t = Inr p" and "length nonce = NONCE_LEN"
    and "gcm_encrypt env (vs_key st) nonce p = Inr c" and "fs_read env (vs_path st) w = Some (FILE_MAGIC @ nonce @ c)"
  shows "vault_view env st w = Some (tget' t)"
proof -
  have c: "length c = length p + 16" "gcm_decrypt env (vs_key st) nonce c = Inr p"
    using assms(1,4,5) unfolding codec_ok_def by blast+
  obtain t' where t': "vault_of_json env p = Inr t'" "tget' t' = tget' t" using assms(1-3) unfolding codec_ok_def by blast
  have m: "length FILE_MAGIC = 8" by (simp add: FILE_MAGIC_def)
  then show ?thesis using assms(4,6) c t'
    by (simp add: vault_view_def vault_load_def NONCE_LEN_def flip: append_assoc)
qed

lemma vault_persist_view:
  assumes "codec_ok env" and d: "disk_ok env" and "twf t" and tmp: "with_extension (vs_path st) ''tmp'' \<noteq> vs_path st"
    and p: "vault_persist env st t w = (r, w')"
  shows "vault_view env st w' = (if is_ok r then Some (tget' t) else vault_view env st w)"
proof (cases "vault_to_json env t")
  case (Inl e)
  then show ?thesis using p by (auto simp: vault_persist_def)
next
  case json: (Inr b)
  let ?tmp = "with_extension (vs_path st) ''tmp''" and ?path = "vs_path st"
  obtain nonce w1 where n: "draw_nonce env w = (nonce, w1)" by fastforce
  have n1: "length nonce = NONCE_LEN" "fs_read env ?path w1 = fs_read env ?path w"
    using d n unfolding disk_ok_def by (metis fst_conv snd_conv)+
  show ?thesis
  proof (cases "gcm_encrypt env (vs_key st) nonce b")
    case (Inl e)
    then show ?thesis using p json n vault_view_read [OF n1(2)] by (auto simp: vault_persist_def)
  next
    case enc: (Inr c)
    obtain x w2 where x: "fs_write env ?tmp (FILE_MAGIC @ nonce @ c) w1 = (x, w2)" by fastforce
    have x1: "fs_read env ?path w2 = fs_read env ?path w" "is_ok x \<Longrightarrow> fs_read env ?tmp w2 = Some (FILE_MAGIC @ nonce @ c)"
      using d x n1(2) tmp unfolding disk_ok_def by (metis fst_conv snd_conv)+
    obtain y w3 where y: "fs_rename env ?tmp ?path w2 = (y, w3)" by fastforce
    have y1: "is_ok y \<Longrightarrow> fs_read env ?path w3 = fs_read env ?tmp w2" "\<not> is_ok y \<Longrightarrow> fs_read env ?path w3 = fs_read env ?path w2"
      using d y unfolding disk_ok_def by (metis fst_conv snd_conv)+
    consider e where "x = Inl e" | e where "x = Inr ()" "y = Inl e" | "x = Inr ()" "y = Inr ()"
      by (cases x; cases y) auto
    then show ?thesis
    proof cases
      case 1
      then show ?thesis using p json n enc x vault_view_read [OF x1(1)] by (auto simp: vault_persist_def Let_def)
    next
      case 2
      then have "fs_read env ?path w3 = fs_read env ?path w" using y1 x1 by simp
      then show ?thesis using 2 p json n enc x y vault_view_read by (auto simp: vault_persist_def Let_def)
    next
      case 3
      then have "fs_read env ?path w3 = Some (FILE_MAGIC @ nonce @ c)" using y1 x1 by simp
      from vault_view_file [OF assms(1,3) json n1(1) enc this] show ?thesis
        using 3 p json n enc x y by (auto simp: vault_persist_def Let_def)
    qed
  qed
qed

lemma vault_view_load:
  "codec_ok env \<Longrightarrow> vault_view env st w = Some m \<Longrightarrow> \<exists>t. vault_load env st w = Inr t \<and> twf t \<and> tget' t = m"
  unfolding vault_view_def vault_load_def codec_ok_def
  by (auto split: sum.splits option.splits if_splits simp: map_err_eq_Inr)

lemma vault_put_view:
  assumes "codec_ok env" and "disk_ok env" and "with_extension (vs_path st) ''tmp'' \<noteq> vs_path st"
    and "vault_view env st w = Some m" and "vault_put env st k v w = (r, w')"
  shows "vault_view env st w' = Some (if is_ok r then m(k \<mapsto> v) else m)"
proof -
  obtain t where t: "vault_load env st w = Inr t" "twf t" "tget' t = m" using vault_view_load [OF assms(1,4)] by blast
  have "vault_persist env st (tput k v t) w = (r, w')" using assms(5) t by (simp add: vault_put_def)
  from vault_persist_view [OF assms(1,2) _ assms(3) this] t show ?thesis
    using assms(4) by (auto simp: tbl.wf_insert tbl.lookup_insert)
qed

lemma vault_delete_view:
  assumes "codec_ok env" and "disk_ok env" and "with_extension (vs_path st) ''tmp'' \<noteq> vs_path st"
    and "vault_view env st w = Some m" and "vault_delete env st k w = (r, w')"
  shows "vault_view env st w' = Some (if is_ok r then m(k := None) else m)"
proof -
  obtain t where t: "vault_load env st w = Inr t" "twf t" "tget' t = m" using vault_view_load [OF assms(1,4)] by blast
  have "vault_persist env st (tdel k t) w = (r, w')" using assms(5) t by (simp add: vault_delete_def)
  from vault_persist_view [OF assms(1,2) _ assms(3) this] t show ?thesis
    using assms(4) by (auto simp: tbl.wf_remove tbl.lookup_remove)
qed

lemma vault_get_view:
  "codec_ok env \<Longrightarrow> vault_view env st w = Some m \<Longrightarrow>
     vault_get env st k w = (case m k of None \<Rightarrow> Inl (SecNotFound k) | Some v \<Rightarrow> Inr v)"
  using vault_view_load [of env st w m] by (auto simp: vault_get_def)

lemma vault_open_existing:
  assumes "disk_ok env" and "vs_key st = derive_key env binding" and "vault_view env st w = Some m"
    and "vault_open env (vs_path st) binding w = (Inr st', w')"
  shows "st' = st \<and> vault_view env st w' = Some m"
proof -
  obtain x w1 where x: "create_dir_all env (parent_dir (vs_path st)) w = (x, w1)" by fastforce
  have f: "fs_read env p w1 = fs_read env p w" for p using assms(1) x unfolding disk_ok_def by (metis snd_conv)
  have "fs_read env (vs_path st) w \<noteq> None" using assms(3) by (auto simp: vault_view_def vault_load_def split: option.splits)
  then have "exists_at env (vs_path st) w1" using assms(1) f unfolding disk_ok_def by metis
  then show ?thesis using assms(2-4) x vault_view_read [OF f]
    by (cases st) (auto simp: vault_open_def Let_def split: sum.splits)
qed

text \<open>
  C15. The vault behaves as a map from references to secrets that lives in one file: storing and deleting update
  exactly one entry, reading returns what was stored last, opening the file again on the same machine gives the same map, and
  an operation that fails at any point, in the encryption, the write or the rename, leaves the map as it was.
\<close>

theorem vault_refines_map:
  assumes "codec_ok env" and "disk_ok env" and "with_extension (vs_path st) ''tmp'' \<noteq> vs_path st"
    and "vault_view env st w = Some m"
  shows "(case vault_put env st k v w of
            (Inr _, w') \<Rightarrow> vault_view env st w' = Some (m(k \<mapsto> v)) | (Inl e, w') \<Rightarrow> vault_view env st w' = Some m)
    \<and> (case vault_delete env st k w of
            (Inr _, w') \<Rightarrow> vault_view env st w' = Some (m(k := None)) | (Inl e, w') \<Rightarrow> vault_view env st w' = Some m)
    \<and> vault_get env st k w = (case m k of None \<Rightarrow> Inl (SecNotFound k) | Some u \<Rightarrow> Inr u)
    \<and> (case vault_open env (vs_path st) binding w of
            (Inr st', w') \<Rightarrow> vs_key st = derive_key env binding \<longrightarrow> st' = st \<and> vault_view env st w' = Some m
          | (Inl e, w') \<Rightarrow> True)"
proof (intro conjI)
  show "case vault_put env st k v w of
            (Inr _, w') \<Rightarrow> vault_view env st w' = Some (m(k \<mapsto> v)) | (Inl e, w') \<Rightarrow> vault_view env st w' = Some m"
    using vault_put_view [OF assms] by (auto split: prod.splits sum.splits)
  show "case vault_delete env st k w of
            (Inr _, w') \<Rightarrow> vault_view env st w' = Some (m(k := None)) | (Inl e, w') \<Rightarrow> vault_view env st w' = Some m"
    using vault_delete_view [OF assms] by (auto split: prod.splits sum.splits)
  show "vault_get env st k w = (case m k of None \<Rightarrow> Inl (SecNotFound k) | Some u \<Rightarrow> Inr u)"
    by (rule vault_get_view [OF assms(1,4)])
  show "case vault_open env (vs_path st) binding w of
            (Inr st', w') \<Rightarrow> vs_key st = derive_key env binding \<longrightarrow> st' = st \<and> vault_view env st w' = Some m
          | (Inl e, w') \<Rightarrow> True"
    using vault_open_existing [OF assms(2) _ assms(4)] by (auto split: prod.splits sum.splits)
qed

text \<open>A machine with files only, a cipher that appends a constant tag, and an encoding of tables by their number.\<close>

definition example_vault_env :: "((string \<rightharpoonup> bytes) \<times> nat) vault_env" where
  "example_vault_env =
     \<lparr> exec = (\<lambda>_ _ _ w. (Inl [], w)), path_exists = (\<lambda>_. False), open_tun = (\<lambda>_ w. (Inl [], w)),
       fs_read = (\<lambda>p w. fst w p), fs_write = (\<lambda>p b w. (Inr (), ((fst w)(p \<mapsto> b), snd w))),
       fs_rename = (\<lambda>p q w. (Inr (), ((fst w)(q := fst w p), snd w))), fs_remove = (\<lambda>p w. (Inr (), w)),
       gcm_encrypt = (\<lambda>k n p. Inr (p @ replicate 16 0)), gcm_decrypt = (\<lambda>k n c. Inr (take (length c - 16) c)),
       sha256 = (\<lambda>_. replicate 32 0), vault_to_json = (\<lambda>t. Inr (replicate (to_nat t) 0)),
       vault_of_json = (\<lambda>b. let t = from_nat (length b) in if twf t then Inr t else Inl []),
       draw_nonce = (\<lambda>w. (replicate 12 0, w)), draw_uuid = (\<lambda>w. (show_nat (snd w), (fst w, Suc (snd w)))),
       exists_at = (\<lambda>p w. fst w p \<noteq> None), create_dir_all = (\<lambda>_ w. (Inr (), w)), read_error = (\<lambda>_ _. []) \<rparr>"

definition example_store :: file_store where
  "example_store = \<lparr> vs_path = ''/c/secrets.bin'', vs_key = replicate 32 0 \<rparr>"

definition example_disk :: "(string \<rightharpoonup> bytes) \<times> nat" where
  "example_disk = ([''/c/secrets.bin'' \<mapsto> FILE_MAGIC @ replicate 12 0 @ replicate (to_nat ([] :: (string, string) table)) 0
     @ replicate 16 0], 0)"

lemma example_codec_ok: "codec_ok example_vault_env"
  by (auto simp: codec_ok_def example_vault_env_def Let_def split: if_splits)

lemma example_disk_ok: "disk_ok example_vault_env"
  by (auto simp: disk_ok_def example_vault_env_def NONCE_LEN_def)

lemma example_path: "with_extension (vs_path example_store) ''tmp'' \<noteq> vs_path example_store"
  by (simp add: example_store_def with_extension_def file_name_def file_stem_def Let_def)

lemma example_view: "vault_view example_vault_env example_store example_disk = Some (\<lambda>_. None)"
proof -
  have "vault_view example_vault_env example_store example_disk = Some (tget' [])"
    by (rule vault_view_file [OF example_codec_ok, of _ "replicate (to_nat ([] :: (string, string) table)) 0" "replicate 12 0"])
       (simp_all add: twf_def example_vault_env_def example_store_def example_disk_def NONCE_LEN_def)
  then show ?thesis by (simp add: tget_def)
qed

theorem vault_refines_map_witness:
  "case vault_put example_vault_env example_store ''sec_1'' ''hunter2'' example_disk of
     (Inr _, w') \<Rightarrow> vault_view example_vault_env example_store w' = Some [''sec_1'' \<mapsto> ''hunter2'']
   | (Inl e, w') \<Rightarrow> vault_view example_vault_env example_store w' = Some (\<lambda>_. None)"
  by (rule vault_refines_map [OF example_codec_ok example_disk_ok example_path example_view, THEN conjunct1])

text \<open>
  Storing a secret reads the whole file and writes it back, without a lock: if another store completes in between,
  its secret is lost.
\<close>

lemma vault_lost_update:
  assumes "codec_ok env" and "disk_ok env" and "with_extension (vs_path st) ''tmp'' \<noteq> vs_path st"
    and "vault_load env st w = Inr t" and "a \<noteq> b" and "tget b t = None"
    and "vault_put env st b y w = (Inr (), w1)" and "vault_persist env st (tput a x t) w1 = (Inr (), w2)"
  shows "vault_get env st b w1 = Inr y \<and> vault_get env st b w2 = Inl (SecNotFound b)"
proof -
  have v: "vault_view env st w = Some (tget' t)" using assms(4) by (simp add: vault_view_def)
  have t: "twf t" using vault_view_load [OF assms(1) v] assms(4) by auto
  have "vault_view env st w1 = Some ((tget' t)(b \<mapsto> y))" using vault_put_view [OF assms(1-3) v assms(7)] by simp
  moreover have "vault_view env st w2 = Some (tget' (tput a x t))"
    using vault_persist_view [OF assms(1,2) _ assms(3,8)] t by (simp add: tbl.wf_insert)
  ultimately show ?thesis using assms(5,6) t by (simp add: vault_get_view [OF assms(1)] tbl.lookup_insert)
qed

end
