(* ===== verification/Http_Head.thy ===== *)
theory Http_Head
  imports Rust_Str
begin

text \<open>
  Heads of HTTP messages as the clients of this program write them: lines that end with CR LF and an empty line. The lemmas
  say when a reader that splits at the first empty line sees exactly the lines that were written.
\<close>

lemma find_sub_first: "p \<notin> set a \<Longrightarrow> find_sub (p # ps) (a @ (p # ps) @ r) = Some (length a)"
  by (induction a) auto

text \<open>A head is a list of lines; \<open>head_text\<close> ends each with CR LF.\<close>

definition head_text :: "string list \<Rightarrow> string" where
  "head_text ls = concat (map (\<lambda>l. l @ CRLF) ls)"

definition line_ok :: "string \<Rightarrow> bool" where
  "line_ok l \<longleftrightarrow> l \<noteq> [] \<and> CR \<notin> set l \<and> LF \<notin> set l"

lemma find_sub_skip:
  "(\<And>j. j < length a \<Longrightarrow> \<not> prefix pat (drop j a @ s)) \<Longrightarrow> find_sub pat (a @ s) = map_option (\<lambda>i. length a + i) (find_sub pat s)"
proof (induction a)
  case Nil
  show ?case by (simp add: option.map_ident)
next
  case (Cons c a)
  have "\<not> prefix pat ((c # a) @ s)" using Cons.prems [of 0] by simp
  moreover have "find_sub pat (a @ s) = map_option (\<lambda>i. length a + i) (find_sub pat s)"
    using Cons.prems [of "Suc j" for j] by (intro Cons.IH) auto
  ultimately show ?case by (simp add: option.map_comp comp_def)
qed

lemma find_sub_prefix: "find_sub pat p = Some i \<Longrightarrow> find_sub pat (p @ r) = Some i"
proof (induction p arbitrary: i)
  case Nil
  then have "pat = []" by (auto split: if_splits)
  then show ?case using Nil by (cases r) simp_all
next
  case (Cons c p)
  show ?case
  proof (cases "prefix pat (c # p)")
    case True
    then have "prefix pat ((c # p) @ r)" by (rule prefix_prefix)
    then show ?thesis using True Cons.prems by simp
  next
    case False
    then obtain k where k: "find_sub pat p = Some k" "i = Suc k" using Cons.prems by auto
    have "length pat \<le> length p" using find_sub_Some [OF k(1)] prefix_length_le by fastforce
    then have "\<not> prefix pat ((c # p) @ r)" using False
      by (metis append_eq_append_conv_if le_SucI length_Cons prefix_def take_is_prefix)
    then show ?thesis using Cons.IH [OF k(1)] k(2) by simp
  qed
qed

lemma line_no_header_end:
  assumes "line_ok l" and "line_ok l2" and "j < length (l @ CRLF)"
  shows "\<not> prefix (CRLF @ CRLF) (drop j (l @ CRLF) @ l2 @ r)"
proof -
  obtain d t where l2: "l2 = d # t" "d \<noteq> CR" using assms(2) by (cases l2) (auto simp: line_ok_def)
  consider "j < length l" | "j = length l" | "j = Suc (length l)" using assms(3) by fastforce
  then show ?thesis
  proof cases
    case 1
    then have "drop j (l @ CRLF) = l ! j # drop (Suc j) l @ CRLF" by (simp add: Cons_nth_drop_Suc flip: append_Cons)
    moreover have "l ! j \<noteq> CR" using assms(1) nth_mem [OF 1] unfolding line_ok_def by metis
    ultimately show ?thesis by simp
  qed (use l2 in simp_all)
qed

lemma find_head_end:
  "list_all line_ok ls \<Longrightarrow> ls \<noteq> [] \<Longrightarrow> find_sub (CRLF @ CRLF) (head_text ls @ CRLF @ b) = Some (length (head_text ls) - 2)"
proof (induction ls)
  case (Cons l ls)
  show ?case
  proof (cases ls)
    case Nil
    then show ?thesis using Cons.prems find_sub_first [of CR l "[LF, CR, LF]" b] by (simp add: head_text_def line_ok_def)
  next
    case (Cons l2 ls2)
    have IH: "find_sub (CRLF @ CRLF) (head_text ls @ CRLF @ b) = Some (length (head_text ls) - 2)"
      using Cons.IH Cons.prems Cons by simp
    have h: "head_text ls = l2 @ CRLF @ head_text ls2" by (simp add: head_text_def Cons)
    have "find_sub (CRLF @ CRLF) ((l @ CRLF) @ head_text ls @ CRLF @ b)
        = map_option (\<lambda>i. length (l @ CRLF) + i) (find_sub (CRLF @ CRLF) (head_text ls @ CRLF @ b))"
      by (rule find_sub_skip) (use line_no_header_end [of l l2] Cons.prems Cons h in \<open>simp del: append.simps\<close>)
    then show ?thesis using IH h by (simp add: head_text_def)
  qed
qed simp

lemma strip_cr_CR: "strip_cr (l @ [CR]) = l"
  by (induction l rule: strip_cr.induct) auto

lemma str_lines_aux_line: "LF \<notin> set l \<Longrightarrow> str_lines_aux acc (l @ LF # s) = strip_cr (rev acc @ l) # str_lines_aux [] s"
  by (induction l arbitrary: acc) auto

lemma str_lines_aux_last: "LF \<notin> set l \<Longrightarrow> str_lines_aux acc l = (if acc = [] \<and> l = [] then [] else [rev acc @ l])"
  by (induction l arbitrary: acc) auto

lemma str_lines_head: "list_all line_ok ls \<Longrightarrow> ls \<noteq> [] \<Longrightarrow> str_lines (take (length (head_text ls) - 2) (head_text ls)) = ls"
proof (induction ls)
  case (Cons l ls)
  show ?case
  proof (cases ls)
    case Nil
    then show ?thesis using Cons.prems by (simp add: head_text_def str_lines_def line_ok_def str_lines_aux_last)
  next
    case (Cons l2 ls2)
    then obtain k where k: "length (head_text ls) = Suc (Suc k)" by (simp add: head_text_def)
    have h: "head_text (l # ls) = l @ CRLF @ head_text ls" by (simp add: head_text_def)
    have "take (length (head_text (l # ls)) - 2) (head_text (l # ls)) = (l @ [CR]) @ LF # take (length (head_text ls) - 2) (head_text ls)"
      unfolding h by (simp add: k)
    then show ?thesis using Cons.IH Cons.prems Cons str_lines_aux_line [of "l @ [CR]" "[]"]
      by (simp add: str_lines_def line_ok_def strip_cr_CR)
  qed
qed simp

definition no_break :: "string \<Rightarrow> bool" where
  "no_break s \<longleftrightarrow> CR \<notin> set s \<and> LF \<notin> set s"

lemma no_break_append [simp]: "no_break (s @ t) \<longleftrightarrow> no_break s \<and> no_break t"
  by (auto simp: no_break_def)

lemma no_break_graph: "list_all graph_char s \<Longrightarrow> no_break s"
  by (auto simp: no_break_def list_all_iff graph_char_def)

lemma no_break_show_nat: "no_break (show_nat n)"
  by (simp add: no_break_def show_nat_no is_ascii_digit_def)

text \<open>What a server that splits at the first empty line sees of a request.\<close>

definition seen_request :: "string \<Rightarrow> (string list \<times> string) option" where
  "seen_request text = map_option (\<lambda>i. (str_lines (take i text), drop (i + 4) text)) (find_sub (CRLF @ CRLF) text)"

lemma seen_request_lines:
  assumes "list_all line_ok ls" and "ls \<noteq> []"
  shows "seen_request (head_text ls @ CRLF @ b) = Some (ls, b)"
proof -
  obtain l ls' where "ls = l # ls'" using assms(2) by (cases ls) auto
  then have n: "2 \<le> length (head_text ls)" by (simp add: head_text_def)
  have "take (length (head_text ls) - 2) (head_text ls @ CRLF @ b) = take (length (head_text ls) - 2) (head_text ls)" by simp
  moreover have "drop (length (head_text ls) - 2 + 4) (head_text ls @ CRLF @ b) = b" using n by simp
  ultimately show ?thesis
    using find_head_end [OF assms, of b] str_lines_head [OF assms] by (simp only: seen_request_def option.map)
qed

end
