(* ===== verification/Zones.thy ===== *)
theory Zones
  imports Smart_Link Http_Head
begin

text \<open>
  The zone list of a Smart Config host (\<^verbatim>\<open>crates/ssh/src/zones.rs\<close>): the HTTP request, the loop that reads the response,
  its head, the chunked body, and the zones in its JSON. The JSON parser and printer are another crate; one exchange on
  the network is given by what the socket does. Sizes are \<^verbatim>\<open>usize\<close> of 64 bits, whose addition wraps.
\<close>

datatype json = JNull | JBool bool | JNum string | JStr string | JArr "json list" | JObj "(string \<times> json) list"

record zone_env =
  json_text :: "json \<Rightarrow> string"
  json_from_slice :: "bytes \<Rightarrow> json option"

datatype zone_error = ZErr string | ZPanic

definition USER_AGENT :: string where "USER_AGENT = ''smart_config/1.0''"
definition DEFAULT_PATH :: string where "DEFAULT_PATH = ''/''"
definition MAX_BODY :: nat where "MAX_BODY = 1024 * 1024"
definition LOAD_FAILED :: string where
  "LOAD_FAILED = ''Could not load zones. Check connection and try again.''"

record zone_fetch_request =
  zf_host :: string
  zf_port :: u16
  zf_username :: string
  zf_password :: string
  zf_path :: string
  zf_https :: bool

record zone_list =
  zl_hash :: "string option"
  zl_zones :: "zone_info list"
  zl_https :: bool

definition ssh_username_for_zone :: "string \<Rightarrow> string option \<Rightarrow> string" where
  "ssh_username_for_zone username zone = username"

subsection \<open>The request\<close>

definition zone_command_body :: "zone_env \<Rightarrow> string \<Rightarrow> string \<Rightarrow> string" where
  "zone_command_body env username password =
     json_text env (JObj [(''command'', JStr ''zone''), (''username'', JStr username), (''password'', JStr password)])"

record zone_http_request =
  zh_method :: string
  zh_host :: string
  zh_port :: u16
  zh_path :: string
  zh_content_type :: "string option"
  zh_zone_id :: "string option"
  zh_body :: "bytes option"
  zh_https :: bool

definition host_header :: "string \<Rightarrow> u16 \<Rightarrow> bool \<Rightarrow> string" where
  "host_header host port https =
     (let host' = (if CHR '':'' \<in> set host \<and> \<not> prefix ''['' host then ''['' @ host @ '']'' else host) in
      if port = (if https then 443 else 80) then host' else host' @ '':'' @ show_nat (unat port))"

definition zone_header :: "string option \<Rightarrow> string" where
  "zone_header zone =
     (case zone of
        None \<Rightarrow> []
      | Some z \<Rightarrow>
          (let id' = trim z in
           if id' \<noteq> [] \<and> list_all graph_char id' then ''X-Zone-Id: '' @ id' @ CRLF else []))"

definition http_request :: "zone_http_request \<Rightarrow> string" where
  "http_request req =
     (let path = (if zh_path req = [] then DEFAULT_PATH else zh_path req) in
      zh_method req @ '' '' @ path @ '' HTTP/1.1'' @ CRLF
      @ ''Host: '' @ host_header (zh_host req) (zh_port req) (zh_https req) @ CRLF
      @ ''Connection: close'' @ CRLF @ ''User-Agent: '' @ USER_AGENT @ CRLF @ ''Accept: */*'' @ CRLF
      @ zone_header (zh_zone_id req)
      @ (case zh_content_type req of None \<Rightarrow> [] | Some ct \<Rightarrow> ''Content-Type: '' @ ct @ CRLF)
      @ (case zh_body req of
           None \<Rightarrow> CRLF
         | Some body \<Rightarrow> ''Content-Length: '' @ show_nat (length body) @ CRLF @ CRLF @ from_utf8_lossy body))"

subsection \<open>The response\<close>

definition find_header_end :: "bytes \<Rightarrow> nat option" where
  "find_header_end buf = find_sub (as_bytes (CRLF @ CRLF)) buf"

fun header_named :: "string \<Rightarrow> string list \<Rightarrow> string option" where
  "header_named name [] = None"
| "header_named name (line # rest) =
     (case split_once (CHR '':'') line of
        Some (n, v) \<Rightarrow> if eq_ignore_ascii_case n name then Some v else header_named name rest
      | None \<Rightarrow> header_named name rest)"

definition content_length :: "bytes \<Rightarrow> nat option" where
  "content_length headers =
     Option.bind (header_named ''content-length'' (str_lines (from_utf8_lossy headers))) (\<lambda>v. parse_uint (2 ^ 64) (trim v))"

definition head_has_chunked :: "string \<Rightarrow> bool" where
  "head_has_chunked head \<longleftrightarrow>
     list_ex (\<lambda>line. case split_once (CHR '':'') line of
         Some (n, v) \<Rightarrow> eq_ignore_ascii_case n ''transfer-encoding'' \<and> find_sub ''chunked'' (to_ascii_lowercase v) \<noteq> None
       | None \<Rightarrow> False) (str_lines head)"

definition usize_from_hex :: "string \<Rightarrow> nat option" where
  "usize_from_hex s =
     (let ds = (case s of [] \<Rightarrow> [] | c # t \<Rightarrow> if c = CHR ''+'' then t else s) in
      if ds = [] then None
      else case hex_digits 0 ds of None \<Rightarrow> None | Some v \<Rightarrow> if v < 2 ^ 64 then Some v else None)"

definition chunk_size :: "bytes \<Rightarrow> nat option" where
  "chunk_size line =
     Option.bind (from_utf8 line) (\<lambda>s. usize_from_hex (trim (takeWhile (\<lambda>c. c \<noteq> CHR '';'') (trim s))))"

text \<open>
  \<open>Inr None\<close> is the \<^verbatim>\<open>None\<close> of the source. The bound \<open>size + 2\<close> is computed on 64 bits; if it wraps, slicing
  panics.
\<close>

function decode_chunked :: "bytes \<Rightarrow> bytes \<Rightarrow> zone_error + bytes option" where
  "decode_chunked out rest =
     (case find_sub (as_bytes CRLF) rest of
        None \<Rightarrow> Inr None
      | Some nl \<Rightarrow>
          (case chunk_size (take nl rest) of
             None \<Rightarrow> Inr None
           | Some n \<Rightarrow>
               (let rest1 = drop (nl + 2) rest in
                if n = 0 then Inr (Some out)
                else if length rest1 < unat (word_of_nat n + 2 :: u64) then Inr None
                else if length rest1 < n \<or> length rest1 < n + 2 then Inl ZPanic
                else decode_chunked (out @ take n rest1) (drop (n + 2) rest1))))"
  by auto
termination
proof (relation "measure (\<lambda>(out, rest). length rest)", goal_cases)
  case (2 out rest nl n rest1)
  have "rest \<noteq> []" using 2(1) by (cases rest) (auto simp: as_bytes_def)
  then show ?case using 2 by (cases "length rest") auto
qed simp

declare decode_chunked.simps [simp del]

record http_response =
  hr_status :: u16
  hr_body :: bytes

definition ssh_banner :: "bytes \<Rightarrow> bool" where
  "ssh_banner buf \<longleftrightarrow> prefix (as_bytes ''SSH-'') buf"

definition status_of :: "string \<Rightarrow> u16" where
  "status_of head =
     (case str_lines head of
        [] \<Rightarrow> 0
      | line # _ \<Rightarrow>
          (case split_whitespace line of
             _ # s # _ \<Rightarrow> (case parse_u16 s of Some n \<Rightarrow> n | None \<Rightarrow> 0)
           | _ \<Rightarrow> 0))"

definition split_http :: "bytes \<Rightarrow> zone_error + http_response" where
  "split_http buf =
     (if ssh_banner buf then Inr \<lparr> hr_status = 0, hr_body = buf \<rparr>
      else case find_header_end buf of
             None \<Rightarrow> Inl (ZErr LOAD_FAILED)
           | Some header_end \<Rightarrow>
               (case from_utf8 (take header_end buf) of
                  None \<Rightarrow> Inl (ZErr LOAD_FAILED)
                | Some head \<Rightarrow>
                    (let body = drop (header_end + 4) buf in
                     if head_has_chunked head
                     then (case decode_chunked [] body of
                             Inl e \<Rightarrow> Inl e
                           | Inr (Some decoded) \<Rightarrow> Inr \<lparr> hr_status = status_of head, hr_body = decoded \<rparr>
                           | Inr None \<Rightarrow> Inr \<lparr> hr_status = status_of head, hr_body = body \<rparr>)
                     else Inr \<lparr> hr_status = status_of head, hr_body = body \<rparr>)))"

text \<open>
  One exchange: whether the connection opens and takes the request, what each \<^verbatim>\<open>read\<close> returns (after the last one the
  peer has closed), and whether the time limit passes first.
\<close>

record exchange =
  ex_open :: "string + unit"
  ex_write :: "string + unit"
  ex_reads :: "(string + bytes) list"
  ex_timeout :: bool

definition zone_io :: "string \<Rightarrow> zone_error" where
  "zone_io err = ZErr (LOAD_FAILED @ '' ('' @ err @ '')'')"

definition response_complete :: "bytes \<Rightarrow> bool" where
  "response_complete buf \<longleftrightarrow>
     ssh_banner buf
   \<or> (case find_header_end buf of
        None \<Rightarrow> False
      | Some header_end \<Rightarrow>
          (case content_length (take header_end buf) of
             None \<Rightarrow> False
           | Some len \<Rightarrow> unat (word_of_nat (header_end + 4) + word_of_nat len :: u64) \<le> length buf))"

fun read_response :: "bytes \<Rightarrow> (string + bytes) list \<Rightarrow> zone_error + bytes" where
  "read_response buf [] = Inr buf"
| "read_response buf (Inl e # rs) = Inl (zone_io e)"
| "read_response buf (Inr chunk # rs) =
     (if chunk = [] then Inr buf
      else if MAX_BODY + 8192 < length buf + length chunk then Inl (ZErr (LOAD_FAILED @ '' (response too large)''))
      else if response_complete (buf @ chunk) then Inr (buf @ chunk)
      else read_response (buf @ chunk) rs)"

definition exchange_attempt :: "exchange \<Rightarrow> zone_error + http_response" where
  "exchange_attempt x =
     (if ex_timeout x then Inl (ZErr LOAD_FAILED)
      else case ex_open x of
             Inl e \<Rightarrow> Inl (zone_io e)
           | Inr _ \<Rightarrow>
               (case ex_write x of
                  Inl e \<Rightarrow> Inl (zone_io e)
                | Inr _ \<Rightarrow> and_then (read_response [] (ex_reads x)) split_http))"

subsection \<open>The zones\<close>

definition iso_if_code :: "string \<Rightarrow> string option" where
  "iso_if_code v =
     (let up = to_ascii_uppercase (trim v) in
      if length up = 2 \<and> list_all is_ascii_alphabetic up then Some up else None)"

definition char_boundary :: "nat \<Rightarrow> string \<Rightarrow> bool" where
  "char_boundary i s \<longleftrightarrow> i = length s \<or> i < length s \<and> \<not> is_cont (of_char (s ! i))"

definition iso_from_zone_id :: "string \<Rightarrow> string option" where
  "iso_from_zone_id id' =
     (if \<not> char_boundary 2 id' then None
      else let suffix = drop 2 id' in
        if suffix \<noteq> [] \<and> \<not> is_ascii_digit (hd suffix) then None
        else map_option (\<lambda>code. if code = ''UK'' then ''GB'' else code) (iso_if_code (take 2 id')))"

definition json_str :: "json \<Rightarrow> string option" where
  "json_str v = (case v of JStr s \<Rightarrow> Some s | _ \<Rightarrow> None)"

definition json_field :: "json \<Rightarrow> string \<Rightarrow> json option" where
  "json_field v key = (case v of JObj obj \<Rightarrow> map_of obj key | _ \<Rightarrow> None)"

fun first_str :: "(string \<times> json) list \<Rightarrow> string list \<Rightarrow> string option" where
  "first_str obj [] = None"
| "first_str obj (key # keys) =
     (case Option.bind (map_of obj key) json_str of
        Some s \<Rightarrow> (if trim s \<noteq> [] then Some (trim s) else first_str obj keys)
      | None \<Rightarrow> first_str obj keys)"

definition or_else :: "'a option \<Rightarrow> 'a option \<Rightarrow> 'a option" where
  "or_else a b = (case a of Some x \<Rightarrow> Some x | None \<Rightarrow> b)"

fun parse_zone_item :: "json \<Rightarrow> zone_info option" where
  "parse_zone_item (JStr s) =
     (let id' = trim s in
      if id' = [] then None else Some \<lparr> zone_id = id', zone_name = id', zone_iso = iso_from_zone_id id' \<rparr>)"
| "parse_zone_item (JObj obj) =
     Option.bind (first_str obj [''id'', ''zone.id'', ''code'', ''iso'', ''isoCode'', ''country'']) (\<lambda>id'.
       Some \<lparr> zone_id = id',
         zone_name = (case first_str obj [''name'', ''friendlyCountryName'', ''countryName'', ''title'', ''label'', ''country''] of
                        Some n \<Rightarrow> n | None \<Rightarrow> id'),
         zone_iso = or_else
           (Option.bind (first_str obj [''iso'', ''isoCode'', ''code'', ''country'', ''countryCode'', ''country_iso'', ''country_code'']) iso_if_code)
           (iso_from_zone_id id') \<rparr>)"
| "parse_zone_item _ = None"

definition parse_zone_list :: "zone_env \<Rightarrow> bytes \<Rightarrow> zone_error + zone_list" where
  "parse_zone_list env body =
     (if ssh_banner body then Inl (ZErr LOAD_FAILED)
      else case json_from_slice env body of
             Some (JObj obj) \<Rightarrow>
               (let root = JObj obj;
                    response = json_field root ''response'';
                    hash = or_else (Option.bind (json_field root ''hash'') json_str)
                             (Option.bind (Option.bind response (\<lambda>v. json_field v ''hash'')) json_str) in
                case or_else (json_field root ''zones'') (Option.bind response (\<lambda>v. json_field v ''zones'')) of
                  Some (JArr items) \<Rightarrow>
                    (let zones = List.map_filter parse_zone_item items in
                     if zones = [] then Inl (ZErr ''Invalid response: no zones'')
                     else Inr \<lparr> zl_hash = hash, zl_zones = zones, zl_https = False \<rparr>)
                | _ \<Rightarrow> Inl (ZErr ''Invalid response: no zones''))
           | _ \<Rightarrow> Inl (ZErr LOAD_FAILED))"

definition fetch_request :: "zone_env \<Rightarrow> zone_fetch_request \<Rightarrow> string" where
  "fetch_request env req =
     http_request \<lparr> zh_method = ''POST'', zh_host = zf_host req, zh_port = zf_port req, zh_path = zf_path req,
       zh_content_type = Some ''application/json'', zh_zone_id = None,
       zh_body = Some (as_bytes (zone_command_body env (zf_username req) (zf_password req))), zh_https = zf_https req \<rparr>"

definition fetch_zones :: "zone_env \<Rightarrow> (string \<Rightarrow> u16 \<Rightarrow> bool \<Rightarrow> string \<Rightarrow> exchange) \<Rightarrow> zone_fetch_request \<Rightarrow> zone_error + zone_list" where
  "fetch_zones env net req =
     and_then (exchange_attempt (net (zf_host req) (zf_port req) (zf_https req) (fetch_request env req))) (\<lambda>response.
       if ssh_banner (hr_body response)
       then Inl (ZErr (''This port speaks SSH. Country lists require a Smart Config zone host, not an SSH Direct port.''))
       else if \<not> (200 \<le> hr_status response \<and> hr_status response < 300)
       then Inl (ZErr (''Could not load zones. Smart Config host returned HTTP '' @ show_nat (unat (hr_status response)) @ ''.''))
       else and_then (parse_zone_list env (hr_body response)) (\<lambda>list. Inr (list\<lparr>zl_https := zf_https req\<rparr>)))"

definition config_request :: "string \<Rightarrow> u16 \<Rightarrow> string \<Rightarrow> bool \<Rightarrow> string option \<Rightarrow> string" where
  "config_request host port path https zone =
     http_request \<lparr> zh_method = ''GET'', zh_host = host, zh_port = port, zh_path = path, zh_content_type = None,
       zh_zone_id = zone, zh_body = None, zh_https = https \<rparr>"

definition get_smart_config_body :: "(string \<Rightarrow> u16 \<Rightarrow> bool \<Rightarrow> string \<Rightarrow> exchange) \<Rightarrow> string \<Rightarrow> u16 \<Rightarrow> string \<Rightarrow> bool
    \<Rightarrow> string option \<Rightarrow> zone_error + bytes" where
  "get_smart_config_body net host port path https zone =
     and_then (exchange_attempt (net host port https (config_request host port path https zone))) (\<lambda>response.
       if hr_status response \<noteq> 200
       then Inl (ZErr (''Smart Config host returned HTTP '' @ show_nat (unat (hr_status response))))
       else Inr (hr_body response))"

subsection \<open>The banner of a zone\<close>

text \<open>\<^verbatim>\<open>iso_from_flag\<close>: two regional indicators, U+1F1E6 to U+1F1FF, are F0 9F 87 A6 to F0 9F 87 BF in UTF-8.\<close>

definition flag_letter :: "string \<Rightarrow> char option" where
  "flag_letter s =
     (case s of
        [a, b, c, d] \<Rightarrow>
          if a = chr 0xF0 \<and> b = chr 0x9F \<and> c = chr 0x87 \<and> 0xA6 \<le> (of_char d :: nat) \<and> (of_char d :: nat) \<le> 0xBF
          then Some (chr (65 + (of_char d - 0xA6))) else None
      | _ \<Rightarrow> None)"

definition iso_from_flag :: "string \<Rightarrow> string option" where
  "iso_from_flag token =
     (case (flag_letter (take 4 token), flag_letter (drop 4 token)) of (Some a, Some b) \<Rightarrow> Some [a, b] | _ \<Rightarrow> None)"

fun join_words :: "string list \<Rightarrow> string" where
  "join_words [] = []"
| "join_words [s] = s"
| "join_words (s # t # ts) = s @ '' '' @ join_words (t # ts)"

definition welcome_zone :: "string \<Rightarrow> zone_info option" where
  "welcome_zone line =
     (case Option.bind (strip_prefix ''Welcome to '' (trim line)) (\<lambda>rest.
             case split_whitespace rest of [] \<Rightarrow> None | id' # parts \<Rightarrow> Some (id', parts)) of
        None \<Rightarrow> None
      | Some (id', parts) \<Rightarrow>
          (let (code, name) = (case parts of
                 [] \<Rightarrow> (None, [])
               | token # rest \<Rightarrow>
                   (case iso_from_flag token of
                      Some code \<Rightarrow> (Some code, join_words rest)
                    | None \<Rightarrow> (None, join_words (token # rest)))) in
           Some \<lparr> zone_id = id', zone_name = (if name = [] then id' else name),
                  zone_iso = or_else code (if char_boundary 2 id' then iso_if_code (take 2 id') else None) \<rparr>))"

fun add_new_zones :: "zone_info list \<Rightarrow> string list \<Rightarrow> zone_info list" where
  "add_new_zones zones [] = zones"
| "add_new_zones zones (line # rest) =
     (case welcome_zone line of
        None \<Rightarrow> add_new_zones zones rest
      | Some z \<Rightarrow>
          if zone_id z \<in> zone_id ` set zones then add_new_zones zones rest else add_new_zones (zones @ [z]) rest)"

definition zones_from_welcome :: "string \<Rightarrow> zone_info list" where
  "zones_from_welcome text = add_new_zones [] (str_lines text)"

subsection \<open>A chunked body reads back\<close>

definition chunk_bytes :: "bytes \<Rightarrow> bytes" where
  "chunk_bytes c = as_bytes (show_hex (length c)) @ as_bytes CRLF @ c @ as_bytes CRLF"

definition chunked_body :: "bytes list \<Rightarrow> bytes" where
  "chunked_body cs = concat (map chunk_bytes cs) @ as_bytes (''0'' @ CRLF @ CRLF)"

lemma hex_digits_append: "hex_digits acc (s @ [c]) = Option.bind (hex_digits acc s) (\<lambda>n. map_option (\<lambda>d. 16 * n + d) (hex_val c))"
  by (induction acc s rule: hex_digits.induct) (auto split: option.splits)

lemma hex_char_small: "d < 16 \<Longrightarrow>
   hex_val (char_of (if d < 10 then 48 + d else 87 + d)) = Some d
 \<and> graph_char (char_of (if d < 10 then 48 + d else 87 + d))
 \<and> char_of (if d < 10 then 48 + d else 87 + d) \<notin> {CHR ''+'', CHR '';'', CR}
 \<and> (of_char (char_of (if d < 10 then 48 + d else 87 + d)) :: nat) < 128"
  for d :: nat
proof -
  assume "d < 16"
  then have "d = 0 \<or> d = 1 \<or> d = 2 \<or> d = 3 \<or> d = 4 \<or> d = 5 \<or> d = 6 \<or> d = 7 \<or> d = 8 \<or> d = 9 \<or> d = 10 \<or> d = 11
      \<or> d = 12 \<or> d = 13 \<or> d = 14 \<or> d = 15" by arith
  then show ?thesis by (elim disjE) (simp_all add: graph_char_def char_of_def bit_simps)
qed

lemma hex_digits_show_hex: "hex_digits 0 (show_hex n) = Some n"
proof (induction n rule: show_hex.induct)
  case (1 n)
  have h: "hex_val (char_of (if n mod 16 < 10 then 48 + n mod 16 else 87 + n mod 16)) = Some (n mod 16)"
    using hex_char_small [of "n mod 16"] by simp
  show ?case
  proof (cases "n < 16")
    case True
    then show ?thesis using h by (subst show_hex.simps) (simp add: Let_def)
  next
    case False
    then show ?thesis using h "1.IH" by (subst show_hex.simps) (simp add: Let_def hex_digits_append)
  qed
qed

lemma show_hex_chars: "c \<in> set (show_hex n) \<Longrightarrow> graph_char c \<and> c \<notin> {CHR ''+'', CHR '';'', CR} \<and> (of_char c :: nat) < 128"
proof (induction n rule: show_hex.induct)
  case (1 n)
  have h: "n mod 16 < 16" by simp
  show ?case
    using "1.prems" "1.IH" hex_char_small [OF h] by (subst (asm) show_hex.simps) (auto simp: Let_def split: if_splits)
qed

lemma show_hex_nonempty: "show_hex n \<noteq> []"
  by (subst show_hex.simps) (simp add: Let_def)

lemma usize_show_hex: "n < 2 ^ 64 \<Longrightarrow> usize_from_hex (show_hex n) = Some n"
proof -
  obtain c t where s: "show_hex n = c # t" using show_hex_nonempty by (cases "show_hex n") auto
  have "c \<noteq> CHR ''+''" using show_hex_chars [of c n] s by auto
  then show "n < 2 ^ 64 \<Longrightarrow> ?thesis"
    using hex_digits_show_hex [of n] by (simp add: usize_from_hex_def s Let_def)
qed

lemma chunk_size_show_hex: "n < 2 ^ 64 \<Longrightarrow> chunk_size (as_bytes (show_hex n)) = Some n"
proof -
  assume n: "n < 2 ^ 64"
  have t: "trim (show_hex n) = show_hex n"
    by (rule trim_graph)
       (simp_all add: show_hex_nonempty show_hex_chars [OF hd_in_set] show_hex_chars [OF last_in_set])
  have w: "takeWhile (\<lambda>c. c \<noteq> CHR '';'') (show_hex n) = show_hex n"
    using show_hex_chars by (intro takeWhile_eq_all_conv [THEN iffD2]) auto
  have "from_utf8 (as_bytes (show_hex n)) = Some (show_hex n)"
    using show_hex_chars by (intro from_utf8_ascii) (auto simp: list_all_iff)
  then show ?thesis by (simp only: chunk_size_def Option.bind.simps t w usize_show_hex [OF n])
qed

lemma decode_size_line:
  assumes "n < 2 ^ 64"
  shows "decode_chunked out (as_bytes (show_hex n) @ as_bytes CRLF @ r) =
     (if n = 0 then Inr (Some out)
      else if length r < unat (word_of_nat n + 2 :: u64) then Inr None
      else if length r < n \<or> length r < n + 2 then Inl ZPanic
      else decode_chunked (out @ take n r) (drop (n + 2) r))"
proof -
  have "byte_of CR \<notin> set (as_bytes (show_hex n))"
    using show_hex_chars [of CR n] by (auto simp: as_bytes_def dest!: arg_cong [where f = char_of_byte])
  then have f: "find_sub (as_bytes CRLF) (as_bytes (show_hex n) @ as_bytes CRLF @ r) = Some (length (show_hex n))"
    using find_sub_first [of "byte_of CR" "as_bytes (show_hex n)" "[byte_of LF]" r] by (simp add: as_bytes_Cons)
  have d: "take (length (show_hex n)) (as_bytes (show_hex n) @ as_bytes CRLF @ r) = as_bytes (show_hex n)"
    "drop (length (show_hex n) + 2) (as_bytes (show_hex n) @ as_bytes CRLF @ r) = r"
    by (simp_all add: as_bytes_Cons)
  show ?thesis
    by (subst decode_chunked.simps) (simp only: f d option.case chunk_size_show_hex [OF assms] Let_def)
qed

lemma decode_chunk:
  assumes "c \<noteq> []" and "length c + 2 < 2 ^ 64"
  shows "decode_chunked out (chunk_bytes c @ rest) = decode_chunked (out @ c) rest"
proof -
  have "unat (word_of_nat (length c + 2) :: u64) = length c + 2" using assms(2) by (intro unat_word_of_nat) simp
  then have w: "unat (word_of_nat (length c) + 2 :: u64) = length c + 2" by (simp add: add.commute)
  show ?thesis
    using assms decode_size_line [of "length c" out "c @ as_bytes CRLF @ rest"]
    by (simp add: chunk_bytes_def w as_bytes_Cons)
qed

lemma decode_chunked_body:
  "list_all (\<lambda>c. c \<noteq> [] \<and> length c + 2 < 2 ^ 64) cs \<Longrightarrow> decode_chunked out (chunked_body cs @ rest) = Inr (Some (out @ concat cs))"
proof (induction cs arbitrary: out)
  case Nil
  have "show_hex 0 = ''0''" by code_simp
  then show ?case using decode_size_line [of 0 out "as_bytes CRLF @ rest"] by (simp add: chunked_body_def as_bytes_Cons)
next
  case (Cons c cs)
  then show ?case using decode_chunk [of c out "chunked_body cs @ rest"] by (simp add: chunked_body_def)
qed

lemma decode_chunked_can_panic: "decode_chunked [] (as_bytes (''fffffffffffffffe'' @ CRLF)) = Inl ZPanic"
proof -
  have "show_hex 18446744073709551614 = ''fffffffffffffffe''" by (simp add: show_hex.simps Let_def char_of_def bit_simps)
  then show ?thesis using decode_size_line [of 18446744073709551614 "[]" "[]"] by (simp add: as_bytes_Cons)
qed

subsection \<open>Heads of requests and responses\<close>

subsection \<open>Requests cannot be forged\<close>

definition request_lines :: "zone_http_request \<Rightarrow> string list" where
  "request_lines req =
     [zh_method req @ '' '' @ (if zh_path req = [] then DEFAULT_PATH else zh_path req) @ '' HTTP/1.1'',
      ''Host: '' @ host_header (zh_host req) (zh_port req) (zh_https req),
      ''Connection: close'', ''User-Agent: '' @ USER_AGENT, ''Accept: */*'']
     @ (case zh_zone_id req of
          None \<Rightarrow> []
        | Some z \<Rightarrow> if trim z \<noteq> [] \<and> list_all graph_char (trim z) then [''X-Zone-Id: '' @ trim z] else [])
     @ (case zh_content_type req of None \<Rightarrow> [] | Some ct \<Rightarrow> [''Content-Type: '' @ ct])
     @ (case zh_body req of None \<Rightarrow> [] | Some body \<Rightarrow> [''Content-Length: '' @ show_nat (length body)])"

definition request_body :: "zone_http_request \<Rightarrow> string" where
  "request_body req = (case zh_body req of None \<Rightarrow> [] | Some body \<Rightarrow> from_utf8_lossy body)"

lemma http_request_text: "http_request req = head_text (request_lines req) @ CRLF @ request_body req"
  by (simp add: http_request_def request_lines_def request_body_def head_text_def zone_header_def Let_def
      split: option.splits)

lemma no_break_host: "no_break host \<Longrightarrow> no_break (host_header host port https)"
  using no_break_show_nat [of "unat port"] by (auto simp: host_header_def Let_def no_break_def)

lemma request_lines_ok:
  assumes "no_break (zh_method req)" and "no_break (zh_path req)" and "no_break (zh_host req)"
    and "case zh_content_type req of None \<Rightarrow> True | Some ct \<Rightarrow> no_break ct"
  shows "list_all line_ok (request_lines req)" and "request_lines req \<noteq> []"
proof -
  have z: "list_all line_ok (case zh_zone_id req of
          None \<Rightarrow> []
        | Some z \<Rightarrow> if trim z \<noteq> [] \<and> list_all graph_char (trim z) then [''X-Zone-Id: '' @ trim z] else [])"
    using no_break_graph by (auto simp: line_ok_def no_break_def split: option.splits)
  have c: "list_all line_ok (case zh_content_type req of None \<Rightarrow> [] | Some ct \<Rightarrow> [''Content-Type: '' @ ct])"
    using assms(4) by (auto simp: line_ok_def no_break_def split: option.splits)
  have l: "list_all line_ok (case zh_body req of None \<Rightarrow> [] | Some body \<Rightarrow> [''Content-Length: '' @ show_nat (length body)])"
    using no_break_show_nat by (auto simp: line_ok_def no_break_def split: option.splits)
  have h: "no_break (host_header (zh_host req) (zh_port req) (zh_https req))" by (rule no_break_host [OF assms(3)])
  show "list_all line_ok (request_lines req)"
    unfolding request_lines_def list_all_append
    using z c l h assms(1,2) by (auto simp: line_ok_def no_break_def USER_AGENT_def DEFAULT_PATH_def)
  show "request_lines req \<noteq> []" by (simp add: request_lines_def)
qed

definition get_request :: "smart_config \<Rightarrow> smart_host \<Rightarrow> bool \<Rightarrow> string option \<Rightarrow> zone_http_request" where
  "get_request c h https zone =
     \<lparr> zh_method = ''GET'', zh_host = sh_host h, zh_port = sh_port h, zh_path = sc_path c, zh_content_type = None,
       zh_zone_id = zone, zh_body = None, zh_https = https \<rparr>"

definition post_request :: "smart_config \<Rightarrow> smart_host \<Rightarrow> bool \<Rightarrow> string \<Rightarrow> zone_http_request" where
  "post_request c h https body =
     \<lparr> zh_method = ''POST'', zh_host = sh_host h, zh_port = sh_port h, zh_path = sc_path c,
       zh_content_type = Some ''application/json'', zh_zone_id = None, zh_body = Some (as_bytes body), zh_https = https \<rparr>"

lemma smart_request_lines_ok:
  assumes "smart_config_ok c" and "(h, https) \<in> set (zone_hosts c)"
  shows "list_all line_ok (request_lines (get_request c h https zone))" "request_lines (get_request c h https zone) \<noteq> []"
    "list_all line_ok (request_lines (post_request c h https body))" "request_lines (post_request c h https body) \<noteq> []"
proof -
  have "h \<in> set (sc_hosts c)" using assms(2) by (auto simp: zone_hosts_def split: if_splits)
  then have "smart_host_ok h" using assms(1) by (simp add: smart_config_ok_def list_all_iff)
  then have "\<not> list_ex bad_host_char (sh_host h)" by simp
  moreover have "bad_host_char CR" "bad_host_char LF" by (simp_all add: bad_host_char_def)
  ultimately have h: "no_break (sh_host h)" unfolding no_break_def list_ex_iff by metis
  have p: "no_break (sc_path c)" using assms(1) by (simp add: no_break_def smart_config_ok_def)
  show "list_all line_ok (request_lines (get_request c h https zone))" "request_lines (get_request c h https zone) \<noteq> []"
    by (rule request_lines_ok; simp add: get_request_def h p; simp add: no_break_def)+
  show "list_all line_ok (request_lines (post_request c h https body))" "request_lines (post_request c h https body) \<noteq> []"
    by (rule request_lines_ok; simp add: post_request_def h p; simp add: no_break_def)+
qed

text \<open>
  C10. Whatever a Smart Config link holds, and whatever zone is selected, the requests sent to its hosts have exactly the
  header lines the code writes: no host, path or zone can add, split or end a header, and the credentials are only in
  the body.
\<close>

theorem smart_requests_unforged:
  "case decode_rocket_smart_link env link of
     Inl e \<Rightarrow> True
   | Inr c \<Rightarrow> list_all (\<lambda>(h, https).
       seen_request (config_request (sh_host h) (sh_port h) (sc_path c) https zone)
         = Some (request_lines (get_request c h https zone), [])
     \<and> seen_request (fetch_request zenv
           \<lparr> zf_host = sh_host h, zf_port = sh_port h, zf_username = sc_username c, zf_password = sc_password c,
             zf_path = sc_path c, zf_https = https \<rparr>)
         = Some (request_lines (post_request c h https (zone_command_body zenv (sc_username c) (sc_password c))),
             from_utf8_lossy (as_bytes (zone_command_body zenv (sc_username c) (sc_password c))))) (zone_hosts c)"
proof (cases "decode_rocket_smart_link env link")
  case (Inr c)
  then obtain v where "smart_config_of v = Inr c"
    by (auto simp: decode_rocket_smart_link_def parse_payload_def and_then_eq_Inr split: if_splits)
  then have c: "smart_config_ok c" by (rule smart_config_of_ok)
  have get: "seen_request (config_request (sh_host h) (sh_port h) (sc_path c) https zone)
      = Some (request_lines (get_request c h https zone), [])" if "(h, https) \<in> set (zone_hosts c)" for h https
    using seen_request_lines [OF smart_request_lines_ok(1,2) [OF c that], where b = "[]"]
      http_request_text [of "get_request c h https zone"]
    by (simp add: config_request_def get_request_def request_body_def)
  have post: "seen_request (fetch_request zenv
           \<lparr> zf_host = sh_host h, zf_port = sh_port h, zf_username = sc_username c, zf_password = sc_password c,
             zf_path = sc_path c, zf_https = https \<rparr>)
      = Some (request_lines (post_request c h https body), from_utf8_lossy (as_bytes body))"
    if "(h, https) \<in> set (zone_hosts c)" "body = zone_command_body zenv (sc_username c) (sc_password c)" for h https body
    using seen_request_lines [OF smart_request_lines_ok(3,4) [OF c that(1)], where b = "request_body (post_request c h https body)"]
      http_request_text [of "post_request c h https body"]
    by (simp add: fetch_request_def post_request_def request_body_def that(2))
  show ?thesis using Inr get post by (auto simp: list_all_iff)
qed simp

subsection \<open>Reading a response\<close>

definition head_of :: "string list \<Rightarrow> string" where
  "head_of ls = take (length (head_text ls) - 2) (head_text ls)"

definition ascii_str :: "string \<Rightarrow> bool" where
  "ascii_str s \<longleftrightarrow> list_all (\<lambda>c. (of_char c :: nat) < 128) s"

lemma prefix_as_bytes: "prefix (as_bytes p) (as_bytes s) \<longleftrightarrow> prefix p s"
proof (induction p arbitrary: s)
  case (Cons c p)
  have "byte_of c = byte_of d \<longleftrightarrow> c = d" for d by (metis char_of_byte_of)
  then show ?case using Cons by (cases s) (simp_all add: as_bytes_Cons)
qed simp

lemma find_sub_as_bytes: "find_sub (as_bytes p) (as_bytes s) = find_sub p s"
proof (induction s)
  case Nil
  show ?case by (simp add: as_bytes_def)
next
  case (Cons c s)
  then show ?case using prefix_as_bytes [of p "c # s"] by (simp add: as_bytes_Cons)
qed

lemma find_header_end_head:
  assumes "list_all line_ok ls" and "ls \<noteq> []"
  shows "find_header_end (as_bytes (head_text ls @ CRLF) @ b) = Some (length (head_text ls) - 2)"
    and "take (length (head_text ls) - 2) (as_bytes (head_text ls @ CRLF) @ b) = as_bytes (head_of ls)"
    and "drop (length (head_text ls) - 2 + 4) (as_bytes (head_text ls @ CRLF) @ b) = b"
proof -
  obtain l ls' where "ls = l # ls'" using assms(2) by (cases ls) auto
  then have n: "2 \<le> length (head_text ls)" by (simp add: head_text_def)
  have "as_bytes (head_text ls @ CRLF) @ b = as_bytes (head_text ls @ CRLF @ str_of_bytes b)" by (simp add: as_bytes_Cons)
  then show "find_header_end (as_bytes (head_text ls @ CRLF) @ b) = Some (length (head_text ls) - 2)"
    unfolding find_header_end_def using find_head_end [OF assms] by (simp only: find_sub_as_bytes)
  show "take (length (head_text ls) - 2) (as_bytes (head_text ls @ CRLF) @ b) = as_bytes (head_of ls)"
    by (simp add: head_of_def take_as_bytes)
  show "drop (length (head_text ls) - 2 + 4) (as_bytes (head_text ls @ CRLF) @ b) = b" using n by (simp add: as_bytes_Cons)
qed

lemma head_of_ascii: "list_all ascii_str ls \<Longrightarrow> ascii_str (head_of ls)"
proof -
  assume "list_all ascii_str ls"
  then have "ascii_str (head_text ls)"
    by (induction ls) (auto simp: ascii_str_def head_text_def)
  then show ?thesis by (auto simp: ascii_str_def head_of_def list_all_iff dest: in_set_takeD)
qed

lemma response_incomplete:
  assumes "list_all line_ok ls" and "ls \<noteq> []" and "list_all ascii_str ls" and "header_named ''content-length'' ls = None"
    and "response = as_bytes (head_text ls @ CRLF) @ b" and "\<not> ssh_banner response" and "response = p @ q"
  shows "\<not> response_complete p"
proof -
  have "\<not> ssh_banner p" using assms(6,7) by (auto simp: ssh_banner_def)
  moreover have "content_length (take i p) = None" if "find_header_end p = Some i" for i
  proof -
    have "find_header_end (p @ q) = Some i" using that find_sub_prefix unfolding find_header_end_def by blast
    then have i: "i = length (head_text ls) - 2" using find_header_end_head(1) [OF assms(1,2), of b] assms(5,7) by simp
    have "i \<le> length p" using find_sub_Some that unfolding find_header_end_def by blast
    then have "take i p = take i (p @ q)" by simp
    also have "\<dots> = as_bytes (head_of ls)" using find_header_end_head(2) [OF assms(1,2), of b] assms(5,7) i by simp
    finally have "take i p = as_bytes (head_of ls)" .
    then show ?thesis
      using from_utf8_lossy_ascii [of "head_of ls"] head_of_ascii [OF assms(3)] str_lines_head [OF assms(1,2)] assms(4)
      by (simp add: content_length_def ascii_str_def head_of_def)
  qed
  ultimately show ?thesis by (auto simp: response_complete_def split: option.splits)
qed

lemma read_response_all:
  "(\<And>p q. buf @ concat parts = p @ q \<Longrightarrow> \<not> response_complete p) \<Longrightarrow> list_all (\<lambda>r. r \<noteq> []) parts \<Longrightarrow>
     length (buf @ concat parts) \<le> MAX_BODY + 8192 \<Longrightarrow> read_response buf (map Inr parts) = Inr (buf @ concat parts)"
proof (induction parts arbitrary: buf)
  case (Cons r parts)
  have "\<not> response_complete (buf @ r)" using Cons.prems(1) [of "buf @ r" "concat parts"] by simp
  moreover have "read_response (buf @ r) (map Inr parts) = Inr ((buf @ r) @ concat parts)"
    using Cons.prems by (intro Cons.IH) auto
  ultimately show ?case using Cons.prems(2,3) by simp
qed simp

text \<open>
  C11. A chunked response is read back exactly, however the network splits it: for any head without a
  Content-Length, any chunks and any division of the bytes into reads, the exchange returns the status of the head and the
  chunks joined, and ignores what follows the last chunk.
\<close>

theorem zone_response_chunked:
  assumes "list_all line_ok ls" and "ls \<noteq> []" and "list_all ascii_str ls" and "header_named ''content-length'' ls = None"
    and "head_has_chunked (head_of ls)" and "list_all (\<lambda>c. c \<noteq> []) cs"
    and "concat parts = as_bytes (head_text ls @ CRLF) @ chunked_body cs @ trailer" and "\<not> ssh_banner (concat parts)"
    and "list_all (\<lambda>r. r \<noteq> []) parts" and "length (concat parts) \<le> MAX_BODY + 8192"
  shows "exchange_attempt \<lparr> ex_open = Inr (), ex_write = Inr (), ex_reads = map Inr parts, ex_timeout = False \<rparr>
    = Inr \<lparr> hr_status = status_of (head_of ls), hr_body = concat cs \<rparr>"
proof -
  have "\<not> response_complete p" if "concat parts = p @ q" for p q
    by (rule response_incomplete [OF assms(1-4,7,8) that])
  then have r: "read_response [] (map Inr parts) = Inr (concat parts)"
    using read_response_all [of "[]" parts] assms(9,10) by simp
  have "length c \<le> length (concat parts)" if "c \<in> set cs" for c
  proof -
    have "length c \<le> length (chunked_body cs)" using that split_list [OF that] by (auto simp: chunked_body_def chunk_bytes_def)
    then show ?thesis by (simp add: assms(7))
  qed
  then have "list_all (\<lambda>c. c \<noteq> [] \<and> length c + 2 < 2 ^ 64) cs"
    using assms(6,10) by (fastforce simp: list_all_iff MAX_BODY_def)
  then have d: "decode_chunked [] (chunked_body cs @ trailer) = Inr (Some (concat cs))" by (simp add: decode_chunked_body)
  have u: "from_utf8 (as_bytes (head_of ls)) = Some (head_of ls)"
    using head_of_ascii [OF assms(3)] by (intro from_utf8_ascii) (simp add: ascii_str_def)
  note h = find_header_end_head [OF assms(1,2), of "chunked_body cs @ trailer", folded assms(7)]
  have "split_http (concat parts) = Inr \<lparr> hr_status = status_of (head_of ls), hr_body = concat cs \<rparr>"
    by (simp only: split_http_def assms(8) if_False h option.case u Let_def assms(5) if_True d sum.case)
  then show ?thesis by (simp add: exchange_attempt_def r)
qed

definition example_head :: "string list" where
  "example_head = [''HTTP/1.1 200 OK'', ''Transfer-Encoding: chunked'']"

theorem zone_response_chunked_witness:
  "exchange_attempt \<lparr> ex_open = Inr (), ex_write = Inr (),
       ex_reads = map Inr [as_bytes (head_text example_head @ CRLF) @ chunked_body [[1, 2], [3]] @ []], ex_timeout = False \<rparr>
    = Inr \<lparr> hr_status = status_of (head_of example_head), hr_body = [1, 2, 3] \<rparr>"
proof -
  let ?r = "as_bytes (head_text example_head @ CRLF) @ chunked_body [[1, 2], [3]] @ []"
  have c: "head_has_chunked (head_of example_head)" by code_simp
  have n: "header_named ''content-length'' example_head = None" by code_simp
  have s: "\<not> ssh_banner (concat [?r])"
    by (simp add: ssh_banner_def example_head_def head_text_def as_bytes_Cons) (simp add: byte_of_def)
  have "length (show_hex (Suc (Suc 0))) = 1" "length (show_hex (Suc 0)) = 1" by (simp_all add: show_hex.simps)
  then have l: "length (concat [?r]) \<le> MAX_BODY + 8192"
    by (simp add: example_head_def head_text_def chunked_body_def chunk_bytes_def MAX_BODY_def numeral_2_eq_2)
  have "list_all line_ok example_head" "example_head \<noteq> []" "list_all ascii_str example_head"
    by (simp_all add: example_head_def line_ok_def ascii_str_def)
  note z = zone_response_chunked [OF this n c, where cs = "[[1, 2], [3]]" and trailer = "[]" and parts = "[?r]"]
  have "list_all (\<lambda>c. c \<noteq> []) [[1, 2], [3 :: u8]]" "concat [?r] = ?r" by simp_all
  moreover have "list_all (\<lambda>r. r \<noteq> []) [?r]" by (simp add: chunked_body_def chunk_bytes_def as_bytes_Cons)
  ultimately show ?thesis using z s l by simp
qed

end
