(* ===== verification/App.thy ===== *)
theory App
  imports Config_Db Secrets Zones
begin

text \<open>
  The application controller (\<^verbatim>\<open>crates/core/src/app.rs\<close>): the operations on profiles, which combine the database, the
  vault and the zone list. \<open>CorePanic\<close> stands for a task that unwinds. An operation is an action on the state of the application that may fail with the error of
  the component that failed. The fresh UUID and the time of an operation are fields of its environment.
\<close>

datatype core_error = CConfig config_error | CSecrets secrets_error | CTunnel string | COther string | CorePanic

record 'w app =
  ap_db :: config_db
  ap_sys :: 'w

definition read_db :: "(config_db \<Rightarrow> config_error + 'a) \<Rightarrow> ('w app, core_error, 'a) act" where
  "read_db f s = (map_err CConfig (f (ap_db s)), s)"

definition with_db :: "(config_db \<Rightarrow> (config_error + 'a) \<times> config_db) \<Rightarrow> ('w app, core_error, 'a) act" where
  "with_db f s = (case f (ap_db s) of (r, db) \<Rightarrow> (map_err CConfig r, s\<lparr>ap_db := db\<rparr>))"

definition read_vault :: "('w \<Rightarrow> secrets_error + 'a) \<Rightarrow> ('w app, core_error, 'a) act" where
  "read_vault f s = (map_err CSecrets (f (ap_sys s)), s)"

definition with_vault :: "('w, secrets_error, 'a) act \<Rightarrow> ('w app, core_error, 'a) act" where
  "with_vault f s = (case f (ap_sys s) of (r, w) \<Rightarrow> (map_err CSecrets r, s\<lparr>ap_sys := w\<rparr>))"

definition checked :: "core_error + 'a \<Rightarrow> ('w app, core_error, 'a) act" where
  "checked r s = (r, s)"

definition save_profile :: "('json, 'a) db_env_scheme \<Rightarrow> connection_config \<Rightarrow> ('w app, core_error, connection_config) act" where
  "save_profile env cfg =
     (let cfg1 = cfg\<lparr>cfg_updated_at := utc_now env, cfg_routing_mode := ProxyOnly\<rparr> in
      act_bind (checked (map_err CConfig (validate_connection (to_config_env env) cfg1))) (\<lambda>_.
      act_bind (with_db (upsert_profile env cfg1)) (\<lambda>_. act_return cfg1)))"

definition delete_profile :: "('json, 'a) db_env_scheme \<Rightarrow> ('w, 'b) vault_env_scheme \<Rightarrow> file_store \<Rightarrow> uuid
    \<Rightarrow> ('w app, core_error, unit) act" where
  "delete_profile env venv st id' =
     act_bind (read_db (get_profile env id')) (\<lambda>cfg.
     act_bind (with_db (db_delete_profile env id')) (\<lambda>_.
       case cfg_smart_link_secret cfg of
         Some secret \<Rightarrow> with_vault (delete_secret venv st secret)
       | None \<Rightarrow> act_return ()))"

definition clone_ref :: "('w, 'b) vault_env_scheme \<Rightarrow> file_store \<Rightarrow> secret_ref option \<Rightarrow> ('w app, core_error, secret_ref option) act" where
  "clone_ref venv st old =
     (case old of
        None \<Rightarrow> act_return None
      | Some r \<Rightarrow>
          act_bind (read_vault (get_secret venv st r)) (\<lambda>v.
          act_bind (with_vault (put_secret venv st v)) (\<lambda>r'. act_return (Some r'))))"

fun clone_auth :: "('w, 'b) vault_env_scheme \<Rightarrow> file_store \<Rightarrow> auth_method \<Rightarrow> ('w app, core_error, auth_method) act" where
  "clone_auth venv st (Password secret) = act_bind (clone_ref venv st secret) (\<lambda>s. act_return (Password s))"
| "clone_auth venv st (PrivateKey path passphrase key_material) =
     act_bind (clone_ref venv st passphrase) (\<lambda>p.
     act_bind (clone_ref venv st key_material) (\<lambda>k. act_return (PrivateKey path p k)))"
| "clone_auth venv st a = act_return a"

definition duplicate_profile :: "('json, 'a) db_env_scheme \<Rightarrow> ('w, 'b) vault_env_scheme \<Rightarrow> file_store \<Rightarrow> uuid
    \<Rightarrow> ('w app, core_error, connection_config) act" where
  "duplicate_profile env venv st id' =
     act_bind (read_db (get_profile env id')) (\<lambda>cfg.
     act_bind (clone_auth venv st (cfg_authentication cfg)) (\<lambda>auth.
     act_bind (clone_ref venv st (cfg_smart_link_secret cfg)) (\<lambda>link.
       let copy = cfg\<lparr>cfg_id := fresh_uuid env, cfg_name := cfg_name cfg @ '' (copy)'', cfg_created_at := utc_now env,
             cfg_updated_at := utc_now env, cfg_authentication := auth, cfg_smart_link_secret := link\<rparr> in
       act_bind (with_db (upsert_profile env copy)) (\<lambda>_. act_return copy))))"

definition set_password_secret :: "('json, 'a) db_env_scheme \<Rightarrow> ('w, 'b) vault_env_scheme \<Rightarrow> file_store \<Rightarrow> uuid \<Rightarrow> string
    \<Rightarrow> ('w app, core_error, connection_config) act" where
  "set_password_secret env venv st profile_id password =
     act_bind (read_db (get_profile env profile_id)) (\<lambda>cfg.
     act_bind (case cfg_authentication cfg of
                 Password (Some existing) \<Rightarrow>
                   act_bind (with_vault (update_secret venv st existing password)) (\<lambda>_. act_return existing)
               | _ \<Rightarrow> with_vault (put_secret venv st password)) (\<lambda>reference.
       let cfg1 = cfg\<lparr>cfg_authentication := Password (Some reference), cfg_updated_at := utc_now env\<rparr> in
       act_bind (with_db (upsert_profile env cfg1)) (\<lambda>_. act_return cfg1)))"

definition import_smart_link :: "('json, 'a) db_env_scheme \<Rightarrow> ('w, 'b) vault_env_scheme \<Rightarrow> file_store \<Rightarrow> string
    \<Rightarrow> ('w app, core_error, connection_config) act" where
  "import_smart_link env venv st link =
     act_bind (checked (map_err CConfig (decode_rocket_smart_link env link))) (\<lambda>smart.
     act_bind (checked (case zone_hosts smart of
                          [] \<Rightarrow> Inl (COther ''Smart Config has no zone-capable host'')
                        | (host, _) # _ \<Rightarrow> Inr host)) (\<lambda>host.
     act_bind (with_vault (put_secret venv st link)) (\<lambda>secret s.
       let cfg = new_smart (fresh_uuid env) (utc_now env) ''RocketTunnel Smart Config'' (sh_host host) (sh_port host) secret in
       case with_db (upsert_profile env cfg) s of
         (Inl e, s1) \<Rightarrow> (Inl e, snd (with_vault (delete_secret venv st secret) s1))
       | (Inr _, s1) \<Rightarrow> (Inr cfg, s1))))"

fun first_zone_list :: "zone_env \<Rightarrow> (string \<Rightarrow> u16 \<Rightarrow> bool \<Rightarrow> string \<Rightarrow> exchange) \<Rightarrow> smart_config \<Rightarrow> (smart_host \<times> bool) list
    \<Rightarrow> core_error + zone_list option" where
  "first_zone_list zenv net smart [] = Inr None"
| "first_zone_list zenv net smart ((host, https) # rest) =
     (case Zones.fetch_zones zenv net
             \<lparr> zf_host = sh_host host, zf_port = sh_port host, zf_username = sc_username smart,
               zf_password = sc_password smart, zf_path = sc_path smart, zf_https = https \<rparr> of
        Inr l \<Rightarrow> Inr (Some l)
      | Inl ZPanic \<Rightarrow> Inl CorePanic
      | Inl (ZErr _) \<Rightarrow> first_zone_list zenv net smart rest)"

definition app_fetch_zones :: "('json, 'a) db_env_scheme \<Rightarrow> ('w, 'b) vault_env_scheme \<Rightarrow> file_store \<Rightarrow> zone_env
    \<Rightarrow> (string \<Rightarrow> u16 \<Rightarrow> bool \<Rightarrow> string \<Rightarrow> exchange) \<Rightarrow> uuid \<Rightarrow> ('w app, core_error, zones_cache) act" where
  "app_fetch_zones env venv st zenv net id' =
     act_bind (read_db (get_profile env id')) (\<lambda>cfg.
     act_bind (checked (ok_or (COther ''This plain SSH profile has no Smart Config zone endpoint'') (cfg_smart_link_secret cfg))) (\<lambda>secret.
     act_bind (read_vault (get_secret venv st secret)) (\<lambda>link.
     act_bind (checked (map_err CConfig (decode_rocket_smart_link env link))) (\<lambda>smart.
     act_bind (checked (first_zone_list zenv net smart (zone_hosts smart))) (\<lambda>found.
       case found of
         None \<Rightarrow> checked (Inl (COther ''Could not load zones from this Smart Config''))
       | Some l \<Rightarrow>
           (let cache = \<lparr> zc_hash = zl_hash l, zc_zones = zl_zones l, zc_fetched_at = utc_now env, zc_https = zl_https l \<rparr>;
                cfg1 = cfg\<lparr>cfg_zones_cache := Some cache, cfg_updated_at := utc_now env\<rparr> in
            act_bind (with_db (upsert_profile env cfg1)) (\<lambda>_. act_return cache)))))))"

definition preview_smart_zones :: "('json, 'a) db_env_scheme \<Rightarrow> zone_env \<Rightarrow> (string \<Rightarrow> u16 \<Rightarrow> bool \<Rightarrow> string \<Rightarrow> exchange)
    \<Rightarrow> string \<Rightarrow> core_error + zone_info list" where
  "preview_smart_zones env zenv net link =
     and_then (map_err CConfig (decode_rocket_smart_link env link)) (\<lambda>smart.
     and_then (first_zone_list zenv net smart (zone_hosts smart)) (\<lambda>found.
       case found of
         None \<Rightarrow> Inl (COther ''Could not load zones from the Smart Config hosts.'')
       | Some l \<Rightarrow> Inr (zl_zones l)))"

definition set_selected_zone :: "('json, 'a) db_env_scheme \<Rightarrow> uuid \<Rightarrow> string option \<Rightarrow> ('w app, core_error, connection_config) act" where
  "set_selected_zone env id' zone =
     act_bind (read_db (get_profile env id')) (\<lambda>cfg.
       if cfg_protocol cfg \<noteq> PSsh then checked (Inl (COther ''zones are only available for SSH profiles''))
       else
         let selected = Option.bind zone (\<lambda>z. if trim z = [] then None else Some (trim z)) in
         if cfg_smart_link_secret cfg \<noteq> None
         then (if (case selected of
                     None \<Rightarrow> False
                   | Some z \<Rightarrow> \<not> (case cfg_zones_cache cfg of
                                   None \<Rightarrow> False
                                 | Some cache \<Rightarrow> list_ex (\<lambda>zi. zone_id zi = z) (zc_zones cache)))
               then checked (Inl (COther ''Load countries before selecting a zone''))
               else let cfg1 = cfg\<lparr>cfg_selected_zone := selected, cfg_updated_at := utc_now env\<rparr> in
                    act_bind (with_db (upsert_profile env cfg1)) (\<lambda>_. act_return cfg1))
         else if selected \<noteq> None
         then checked (Inl (COther
           ''Exit-zone selection is not supported on plain SSH profiles. Use Auto, or a Smart Config client that implements the encrypted tunnel response.''))
         else let cfg1 = cfg\<lparr>cfg_selected_zone := None, cfg_zones_cache := None, cfg_updated_at := utc_now env\<rparr> in
              act_bind (with_db (upsert_profile env cfg1)) (\<lambda>_. act_return cfg1))"

definition export_profile :: "('json, 'a) db_env_scheme \<Rightarrow> uuid \<Rightarrow> ('w app, core_error, export_document) act" where
  "export_profile env id' = act_bind (read_db (get_profile env id')) (\<lambda>cfg. act_return (export_safe cfg))"

definition import_profile_text :: "('json, 'a) db_env_scheme \<Rightarrow> ('w, 'b) vault_env_scheme \<Rightarrow> file_store \<Rightarrow> string
    \<Rightarrow> ('w app, core_error, connection_config) act" where
  "import_profile_text env venv st raw =
     act_bind (checked (map_err CConfig (parse_import env raw))) (\<lambda>parsed.
       case imp_password parsed of
         None \<Rightarrow> save_profile env (imp_config parsed)
       | Some password \<Rightarrow>
           act_bind (with_vault (put_secret venv st password)) (\<lambda>secret.
             save_profile env ((imp_config parsed)\<lparr>cfg_authentication := Password (Some secret)\<rparr>)))"

text \<open>The profile \<^verbatim>\<open>connect\<close> hands to the connection manager: routing comes from the settings.\<close>

definition preferred_mode :: "string \<Rightarrow> routing_mode" where
  "preferred_mode s =
     (if s \<in> {''full_tunnel'', ''fulltunnel'', ''vpn'', ''full''} then FullTunnel
      else if s \<in> {''split_tunnel'', ''splittunnel'', ''split''} then SplitTunnel
      else ProxyOnly)"

definition routed :: "app_settings \<Rightarrow> connection_config \<Rightarrow> connection_config" where
  "routed settings profile =
     (let p = profile\<lparr>cfg_routing_mode := preferred_mode (preferred_routing_mode settings)\<rparr> in
      if cfg_routing_mode p \<noteq> ProxyOnly \<and> dns_mode_of (cfg_dns p) = MSystem
      then p\<lparr>cfg_dns := (cfg_dns p)\<lparr>dns_mode_of := MTunnel\<rparr>\<rparr> else p)"

definition connect_profile :: "('json, 'a) db_env_scheme \<Rightarrow> uuid \<Rightarrow> ('w app, core_error, connection_config) act" where
  "connect_profile env id' =
     act_bind (read_db (get_profile env id')) (\<lambda>profile.
     act_bind (read_db (get_settings env)) (\<lambda>settings. act_return (routed settings profile)))"

subsection \<open>Every operation keeps the database in order\<close>

definition keeps_db :: "('json, 'a) db_env_scheme \<Rightarrow> ('w app, core_error, 'b) act \<Rightarrow> bool" where
  "keeps_db env f \<longleftrightarrow> (\<forall>s. db_ok env (ap_db s) \<longrightarrow> db_ok env (ap_db (snd (f s))))"

named_theorems keeps_rules

lemma keeps_bind [keeps_rules]: "keeps_db env f \<Longrightarrow> (\<And>x. keeps_db env (g x)) \<Longrightarrow> keeps_db env (act_bind f g)"
  by (auto simp: keeps_db_def act_bind_def split: prod.splits sum.splits)

lemma keeps_simple [keeps_rules]:
  "keeps_db env (act_return x)" "keeps_db env (checked r)" "keeps_db env (read_db q)" "keeps_db env (read_vault v)"
  "keeps_db env (with_vault w)"
  by (simp_all add: keeps_db_def act_return_def checked_def read_db_def read_vault_def with_vault_def split: prod.splits)

lemma keeps_with_db:
  "(\<And>r db db'. db_ok env db \<Longrightarrow> f db = (r, db') \<Longrightarrow> db_ok env db') \<Longrightarrow> keeps_db env (with_db f)"
  by (auto simp: keeps_db_def with_db_def split: prod.splits)

lemma keeps_upsert [keeps_rules]: "json_ok env \<Longrightarrow> keeps_db env (with_db (upsert_profile env cfg))"
  by (rule keeps_with_db) (rule upsert_profile_ok)

lemma keeps_delete [keeps_rules]: "keeps_db env (with_db (db_delete_profile env i))"
  by (rule keeps_with_db) (rule db_delete_ok)

lemma keeps_settings [keeps_rules]: "keeps_db env (with_db (save_settings env v))"
  by (rule keeps_with_db) (auto simp: save_settings_def db_ok_def split: sum.splits)

lemma keeps_migrate [keeps_rules]: "keeps_db env (with_db (migrate env))"
  by (rule keeps_with_db) (auto simp: migrate_def db_ok_def Let_def split: sum.splits option.splits)

lemma keeps_case [keeps_rules]:
  "keeps_db env f \<Longrightarrow> (\<And>x. keeps_db env (g x)) \<Longrightarrow> keeps_db env (case z of None \<Rightarrow> f | Some x \<Rightarrow> g x)"
  "(b \<Longrightarrow> keeps_db env h) \<Longrightarrow> (\<not> b \<Longrightarrow> keeps_db env k) \<Longrightarrow> keeps_db env (if b then h else k)"
  "(\<And>p. keeps_db env (l p)) \<Longrightarrow> keeps_db env (let p = v in l p)"
  by (simp_all split: option.splits)

lemma keeps_clone [keeps_rules]: "keeps_db env (clone_ref venv st r)" "keeps_db env (clone_auth venv st a)"
proof -
  have r: "keeps_db env (clone_ref venv st r)" for r unfolding clone_ref_def by (intro keeps_rules)
  then show "keeps_db env (clone_ref venv st r)" by this
  show "keeps_db env (clone_auth venv st a)" by (cases a) (auto intro!: keeps_rules r)
qed

lemma keeps_auth_case [keeps_rules]:
  "(\<And>r. keeps_db env (f r)) \<Longrightarrow> keeps_db env g
     \<Longrightarrow> keeps_db env (case a of Password (Some r) \<Rightarrow> f r | _ \<Rightarrow> g)"
  by (simp split: auth_method.split option.split)

text \<open>A rollback of the stored link changes the vault only.\<close>

lemma keeps_rollback [keeps_rules]:
  assumes "keeps_db env f"
  shows "keeps_db env (\<lambda>s. case f s of (Inl e, s1) \<Rightarrow> (Inl e, snd (with_vault d s1)) | (Inr _, s1) \<Rightarrow> (Inr x, s1))"
  using assms keeps_simple(5) [of env d] unfolding keeps_db_def by (auto split: prod.splits sum.splits)

lemma keeps_save [keeps_rules]: "json_ok env \<Longrightarrow> keeps_db env (save_profile env cfg)"
  unfolding save_profile_def by (intro keeps_rules)

lemma keeps_duplicate [keeps_rules]: "json_ok env \<Longrightarrow> keeps_db env (duplicate_profile env venv st i)"
  unfolding duplicate_profile_def by (intro keeps_rules)

lemma keeps_password [keeps_rules]: "json_ok env \<Longrightarrow> keeps_db env (set_password_secret env venv st i p)"
  unfolding set_password_secret_def by (intro keeps_rules)

lemma keeps_delete_profile [keeps_rules]: "keeps_db env (delete_profile env venv st i)"
  unfolding delete_profile_def by (intro keeps_rules)

lemma keeps_smart_link [keeps_rules]: "json_ok env \<Longrightarrow> keeps_db env (import_smart_link env venv st l)"
  unfolding import_smart_link_def Let_def by (intro keeps_rules)

lemma keeps_fetch_zones [keeps_rules]: "json_ok env \<Longrightarrow> keeps_db env (app_fetch_zones env venv st zenv net i)"
  unfolding app_fetch_zones_def by (intro keeps_rules)

lemma keeps_select_zone [keeps_rules]: "json_ok env \<Longrightarrow> keeps_db env (set_selected_zone env i z)"
  unfolding set_selected_zone_def by (intro keeps_rules)

lemma keeps_import [keeps_rules]: "json_ok env \<Longrightarrow> keeps_db env (import_profile_text env venv st raw)"
  unfolding import_profile_text_def by (intro keeps_rules)

subsection \<open>The application over time\<close>

datatype app_op =
  OpOpen | OpSave connection_config | OpDelete uuid | OpDuplicate uuid | OpPassword uuid string | OpSmartLink string
| OpFetchZones uuid | OpSelectZone uuid "string option" | OpImport string | OpSaveSettings app_settings | OpPutSecret string

definition op_env :: "('json, 'a) db_env_scheme \<Rightarrow> uuid \<Rightarrow> timestamp \<Rightarrow> ('json, 'a) db_env_scheme" where
  "op_env env u t = env\<lparr>fresh_uuid := u, utc_now := t\<rparr>"

fun run_op :: "('json, 'a) db_env_scheme \<Rightarrow> ('w, 'b) vault_env_scheme \<Rightarrow> file_store \<Rightarrow> zone_env
    \<Rightarrow> (string \<Rightarrow> u16 \<Rightarrow> bool \<Rightarrow> string \<Rightarrow> exchange) \<Rightarrow> app_op \<Rightarrow> ('w app, core_error, unit) act" where
  "run_op env venv st zenv net OpOpen = with_db (migrate env)"
| "run_op env venv st zenv net (OpSave cfg) = act_bind (save_profile env cfg) (\<lambda>_. act_return ())"
| "run_op env venv st zenv net (OpDelete i) = delete_profile env venv st i"
| "run_op env venv st zenv net (OpDuplicate i) = act_bind (duplicate_profile env venv st i) (\<lambda>_. act_return ())"
| "run_op env venv st zenv net (OpPassword i p) = act_bind (set_password_secret env venv st i p) (\<lambda>_. act_return ())"
| "run_op env venv st zenv net (OpSmartLink l) = act_bind (import_smart_link env venv st l) (\<lambda>_. act_return ())"
| "run_op env venv st zenv net (OpFetchZones i) = act_bind (app_fetch_zones env venv st zenv net i) (\<lambda>_. act_return ())"
| "run_op env venv st zenv net (OpSelectZone i z) = act_bind (set_selected_zone env i z) (\<lambda>_. act_return ())"
| "run_op env venv st zenv net (OpImport raw) = act_bind (import_profile_text env venv st raw) (\<lambda>_. act_return ())"
| "run_op env venv st zenv net (OpSaveSettings v) = with_db (save_settings env v)"
| "run_op env venv st zenv net (OpPutSecret v) = act_bind (with_vault (put_secret venv st v)) (\<lambda>_. act_return ())"

lemma keeps_run_op: "json_ok env \<Longrightarrow> keeps_db env (run_op env venv st zenv net op)"
  by (cases op) (simp_all, (intro keeps_rules; assumption)+)

lemma op_env_row: "row_ok (op_env env u t) = row_ok env"
  by (intro ext) (simp add: op_env_def row_ok_def to_config_env_def split: sum.split)

lemma op_env_same [simp]: "json_ok (op_env env u t) = json_ok env" "db_ok (op_env env u t) db = db_ok env db"
  by (simp_all add: json_ok_def db_ok_def op_env_row) (simp add: op_env_def)

text \<open>Between operations anything may happen to the machine, and the database may stop answering for a while.\<close>

inductive app_step :: "('json, 'a) db_env_scheme \<Rightarrow> ('w, 'b) vault_env_scheme \<Rightarrow> file_store \<Rightarrow> zone_env
    \<Rightarrow> 'w app \<Rightarrow> 'w app \<Rightarrow> bool"
  for env venv st zenv where
  operation: "app_step env venv st zenv s (snd (run_op (op_env env u t) venv st zenv net op s))"
| machine: "app_step env venv st zenv s (s\<lparr>ap_sys := w, ap_db := (ap_db s)\<lparr>db_fault := f\<rparr>\<rparr>)"

definition app_fresh :: "'w app \<Rightarrow> bool" where
  "app_fresh s \<longleftrightarrow> db_profiles (ap_db s) = [] \<and> db_version (ap_db s) = None"

lemma app_step_ok:
  assumes "json_ok env" and "app_step env venv st zenv s s'" and "db_ok env (ap_db s)"
  shows "db_ok env (ap_db s')"
  using assms(2)
proof cases
  case (operation u t net op)
  have "keeps_db (op_env env u t) (run_op (op_env env u t) venv st zenv net op)" using assms(1) by (simp add: keeps_run_op)
  then show ?thesis using assms(3) operation by (simp add: keeps_db_def)
next
  case (machine w f)
  then show ?thesis using assms(3) by (simp add: db_ok_def)
qed

lemma app_reachable_ok:
  assumes "json_ok env" and "reachable app_fresh (app_step env venv st zenv) s"
  shows "db_ok env (ap_db s)"
  using assms(2)
proof (induction rule: reachable.induct)
  case (reach_init s)
  then show ?case by (simp add: app_fresh_def db_ok_def)
next
  case (reach_step s s')
  then show ?case using app_step_ok [OF assms(1)] by blast
qed

lemma routed_valid: "valid_config cenv (routed v c) = valid_config cenv c"
  using validate_dns_mode [where cfg = "c\<lparr>cfg_routing_mode := r\<rparr>" for r] by (simp add: routed_def Let_def)

lemma connect_profile_valid:
  assumes "db_ok env (ap_db s)" and "connect_profile env i s = (Inr p, s')"
  shows "valid_config (to_config_env env) p" and "cfg_routing_mode p = ProxyOnly \<or> dns_mode_of (cfg_dns p) \<noteq> MSystem"
proof -
  obtain c v where c: "get_profile env i (ap_db s) = Inr c" and p: "p = routed v c"
    using assms(2) by (auto simp: connect_profile_def act_bind_Inr act_return_def read_db_def map_err_eq_Inr)
  show "valid_config (to_config_env env) p" using get_profile_valid(1) [OF assms(1) c] by (simp add: p routed_valid)
  show "cfg_routing_mode p = ProxyOnly \<or> dns_mode_of (cfg_dns p) \<noteq> MSystem" by (simp add: p routed_def Let_def)
qed

text \<open>
  C4. Whatever operations the user performs, in any order and with any of them failing, every stored profile is valid
  and is found under its own id, the list of profiles can be read whenever the database answers, and the profile handed to
  the connection manager is valid and, unless only the proxies are used, does not resolve names outside the tunnel.
\<close>

theorem app_profiles_valid:
  assumes "json_ok env" and "reachable app_fresh (app_step env venv st zenv) s"
  shows "distinct (map pr_id (db_profiles (ap_db s)))
    \<and> (case get_profile env i (ap_db s) of
         Inl _ \<Rightarrow> True
       | Inr c \<Rightarrow> valid_config (to_config_env env) c \<and> uuid_show env (cfg_id c) = uuid_show env i)
    \<and> (case db_fault (ap_db s) of
         Some _ \<Rightarrow> True
       | None \<Rightarrow> (\<exists>cs. list_profiles env (ap_db s) = Inr cs \<and> length cs = length (db_profiles (ap_db s))
                     \<and> list_all (valid_config (to_config_env env)) cs))
    \<and> (case connect_profile env i s of
         (Inl _, _) \<Rightarrow> True
       | (Inr p, _) \<Rightarrow> valid_config (to_config_env env) p
                        \<and> (cfg_routing_mode p = ProxyOnly \<or> dns_mode_of (cfg_dns p) \<in> {MTunnel, MCustom, MRemote}))"
proof -
  note ok = app_reachable_ok [OF assms]
  have rows: "list_all (row_ok env) (sort_key f (db_profiles (ap_db s)))" for f :: "profile_row \<Rightarrow> string"
    using ok by (simp add: db_ok_def list_all_iff)
  have "statement (ap_db s) = Inr ()" if "db_fault (ap_db s) = None" using that by (simp add: statement_def)
  then have l: "\<exists>cs. list_profiles env (ap_db s) = Inr cs \<and> length cs = length (db_profiles (ap_db s))
      \<and> list_all (valid_config (to_config_env env)) cs" if "db_fault (ap_db s) = None"
    using decode_rows_ok [OF rows] that by (simp add: list_profiles_def)
  have m: "x \<in> {MTunnel, MCustom, MRemote} \<longleftrightarrow> x \<noteq> MSystem" for x by (cases x) auto
  show ?thesis
    using ok l get_profile_valid [OF ok, of i] connect_profile_valid [OF ok, of i] unfolding m
    by (auto simp: db_ok_def split: sum.splits option.splits prod.splits)
qed

subsection \<open>A copy of a profile owns its secrets\<close>

definition ref_ids :: "secret_ref option \<Rightarrow> string list" where
  "ref_ids r = (case r of None \<Rightarrow> [] | Some x \<Rightarrow> [ref_id x])"

fun auth_ids :: "auth_method \<Rightarrow> string list" where
  "auth_ids (Password secret) = ref_ids secret"
| "auth_ids (PrivateKey path passphrase key_material) = ref_ids passphrase @ ref_ids key_material"
| "auth_ids _ = []"

definition secret_ids :: "connection_config \<Rightarrow> string list" where
  "secret_ids cfg = auth_ids (cfg_authentication cfg) @ ref_ids (cfg_smart_link_secret cfg)"

definition uuid_fresh :: "('w, 'b) vault_env_scheme \<Rightarrow> file_store \<Rightarrow> bool" where
  "uuid_fresh venv st \<longleftrightarrow> (\<forall>w m. vault_view venv st w = Some m \<longrightarrow> m (''sec_'' @ fst (draw_uuid venv w)) = None)"

definition present :: "(string \<Rightarrow> string option) \<Rightarrow> string list \<Rightarrow> bool" where
  "present m ks \<longleftrightarrow> list_all (\<lambda>k. m k \<noteq> None) ks"

text \<open>\<open>m'\<close> extends \<open>m\<close> by the fresh, distinct keys \<open>new\<close>, which hold what \<open>old\<close> held.\<close>

definition cloned :: "(string \<Rightarrow> string option) \<Rightarrow> (string \<Rightarrow> string option) \<Rightarrow> string list \<Rightarrow> string list \<Rightarrow> bool" where
  "cloned m m' old new \<longleftrightarrow> m \<subseteq>\<^sub>m m' \<and> map m' new = map m old \<and> list_all (\<lambda>k. m k = None) new \<and> distinct new"

lemma present_mono: "present m ks \<Longrightarrow> m \<subseteq>\<^sub>m m' \<Longrightarrow> present m' ks \<and> map m' ks = map m ks"
  by (auto simp: present_def list_all_iff map_le_def dom_def)

lemma cloned_present: "cloned m m' old new \<Longrightarrow> present m old \<Longrightarrow> present m' new"
proof -
  assume c: "cloned m m' old new" and p: "present m old"
  have "set (map m' new) = set (map m old)" using c by (simp add: cloned_def)
  then have "\<forall>k \<in> set new. m' k \<in> m ` set old" by auto
  then show "present m' new" using p by (force simp: present_def list_all_iff)
qed

lemma cloned_trans:
  assumes a: "cloned m m1 old1 new1" and b: "cloned m1 m2 old2 new2" and p: "present m old1" "present m old2"
  shows "cloned m m2 (old1 @ old2) (new1 @ new2)"
proof -
  have le: "m \<subseteq>\<^sub>m m1" "m1 \<subseteq>\<^sub>m m2" using a b by (simp_all add: cloned_def)
  note n1 = cloned_present [OF a p(1)]
  have "map m2 new1 = map m old1" using present_mono [OF n1 le(2)] a unfolding cloned_def by metis
  moreover have "map m2 new2 = map m old2" using present_mono [OF p(2) le(1)] b unfolding cloned_def by metis
  moreover have "list_all (\<lambda>k. m k = None) new2"
    using b le(1) by (auto simp: cloned_def list_all_iff map_le_def dom_def)
  moreover have "set new1 \<inter> set new2 = {}" using n1 b by (auto simp: cloned_def present_def list_all_iff)
  moreover have "m \<subseteq>\<^sub>m m2" using le map_le_trans by blast
  ultimately show ?thesis using a b by (simp add: cloned_def)
qed

definition vault_sound :: "('w, 'b) vault_env_scheme \<Rightarrow> file_store \<Rightarrow> bool" where
  "vault_sound venv st \<longleftrightarrow>
     codec_ok venv \<and> disk_ok venv \<and> with_extension (vs_path st) ''tmp'' \<noteq> vs_path st \<and> uuid_fresh venv st"

lemma put_secret_view:
  assumes "vault_sound venv st" and "vault_view venv st w = Some m" and "put_secret venv st v w = (r, w')"
  shows "case r of
           Inl _ \<Rightarrow> vault_view venv st w' = Some m
         | Inr x \<Rightarrow> m (ref_id x) = None \<and> vault_view venv st w' = Some (m(ref_id x \<mapsto> v))"
proof -
  have s: "codec_ok venv" "disk_ok venv" "with_extension (vs_path st) ''tmp'' \<noteq> vs_path st"
    and f: "m (''sec_'' @ fst (draw_uuid venv w)) = None"
    using assms(1,2) unfolding vault_sound_def uuid_fresh_def by blast+
  let ?w = "snd (draw_uuid venv w)" and ?k = "''sec_'' @ fst (draw_uuid venv w)"
  have "fs_read venv p ?w = fs_read venv p w" for p using s(2) by (simp add: disk_ok_def)
  then have v: "vault_view venv st ?w = Some m" using vault_view_read assms(2) by metis
  obtain x w2 where x: "vault_put venv st ?k v ?w = (x, w2)" by fastforce
  from vault_put_view [OF s v x] f show ?thesis
    using assms(3) x by (cases x) (auto simp: put_secret_def new_ref_def Let_def split: prod.splits)
qed

definition clones :: "('w, 'b) vault_env_scheme \<Rightarrow> file_store \<Rightarrow> string list \<Rightarrow> ('c \<Rightarrow> string list)
    \<Rightarrow> ('w app, core_error, 'c) act \<Rightarrow> bool" where
  "clones venv st old ids f \<longleftrightarrow>
     (\<forall>s m x s'. vault_view venv st (ap_sys s) = Some m \<longrightarrow> present m old \<longrightarrow> f s = (x, s') \<longrightarrow>
        ap_db s' = ap_db s
      \<and> (\<exists>m'. vault_view venv st (ap_sys s') = Some m'
           \<and> (case x of Inl _ \<Rightarrow> m \<subseteq>\<^sub>m m' | Inr y \<Rightarrow> cloned m m' old (ids y))))"

lemma clones_return: "ids x = [] \<Longrightarrow> clones venv st [] ids (act_return x)"
  by (simp add: clones_def act_return_def cloned_def)

lemma clones_ref:
  assumes "vault_sound venv st"
  shows "clones venv st (ref_ids r) ref_ids (clone_ref venv st r)"
proof (cases r)
  case None
  then show ?thesis using clones_return [of ref_ids None] by (simp add: clone_ref_def ref_ids_def)
next
  case (Some old)
  have step: "ap_db s' = ap_db s \<and> (\<exists>m'. vault_view venv st (ap_sys s') = Some m'
      \<and> (case x of Inl _ \<Rightarrow> m \<subseteq>\<^sub>m m' | Inr y \<Rightarrow> cloned m m' [ref_id old] (ref_ids y)))"
    if v: "vault_view venv st (ap_sys s) = Some m" and p: "present m [ref_id old]" and f: "clone_ref venv st r s = (x, s')" for s m x s'
  proof (cases "get_secret venv st old (ap_sys s)")
    case (Inl e)
    then show ?thesis using f v Some by (auto simp: clone_ref_def act_bind_def read_vault_def)
  next
    case (Inr value')
    have m: "m (ref_id old) = Some value'"
      using Inr v assms p by (auto simp: get_secret_def vault_get_view vault_sound_def present_def split: if_splits option.splits)
    obtain y w where y: "put_secret venv st value' (ap_sys s) = (y, w)" by fastforce
    from put_secret_view [OF assms v y] m show ?thesis
      using f Inr y Some by (cases y) (auto simp: clone_ref_def act_bind_def read_vault_def with_vault_def act_return_def
          ref_ids_def cloned_def map_le_def)
  qed
  have r: "ref_ids r = [ref_id old]" by (simp add: Some ref_ids_def)
  show ?thesis unfolding clones_def r by (intro allI impI) (rule step)
qed

lemma clones_pair:
  assumes f: "clones venv st old1 ids1 f" and g: "clones venv st old2 ids2 g" and h: "\<And>a b. ids (h a b) = ids1 a @ ids2 b"
  shows "clones venv st (old1 @ old2) ids (act_bind f (\<lambda>a. act_bind g (\<lambda>b. act_return (h a b))))"
  unfolding clones_def
proof (intro allI impI)
  fix s m x s'
  assume v: "vault_view venv st (ap_sys s) = Some m" and "present m (old1 @ old2)"
    and r: "act_bind f (\<lambda>a. act_bind g (\<lambda>b. act_return (h a b))) s = (x, s')"
  then have p: "present m old1" "present m old2" by (simp_all add: present_def)
  obtain a s1 where a: "f s = (a, s1)" by fastforce
  obtain m1 where m1: "ap_db s1 = ap_db s" "vault_view venv st (ap_sys s1) = Some m1"
    "case a of Inl _ \<Rightarrow> m \<subseteq>\<^sub>m m1 | Inr y \<Rightarrow> cloned m m1 old1 (ids1 y)"
    using f v p(1) a unfolding clones_def by blast
  obtain b s2 where b: "g s1 = (b, s2)" by fastforce
  show "ap_db s' = ap_db s \<and> (\<exists>m'. vault_view venv st (ap_sys s') = Some m'
      \<and> (case x of Inl _ \<Rightarrow> m \<subseteq>\<^sub>m m' | Inr y \<Rightarrow> cloned m m' (old1 @ old2) (ids y)))"
  proof (cases a)
    case (Inl e)
    then show ?thesis using r a m1 by (auto simp: act_bind_def)
  next
    case ya: (Inr y)
    then have c1: "cloned m m1 old1 (ids1 y)" using m1 by simp
    then have le: "m \<subseteq>\<^sub>m m1" by (simp add: cloned_def)
    obtain m2 where m2: "ap_db s2 = ap_db s1" "vault_view venv st (ap_sys s2) = Some m2"
      "case b of Inl _ \<Rightarrow> m1 \<subseteq>\<^sub>m m2 | Inr y \<Rightarrow> cloned m1 m2 old2 (ids2 y)"
      using g m1(2) present_mono [OF p(2) le] b unfolding clones_def by blast
    show ?thesis
    proof (cases b)
      case (Inl e)
      then have "m \<subseteq>\<^sub>m m2" using m2 le map_le_trans by fastforce
      then show ?thesis using Inl r a ya b m1 m2 by (auto simp: act_bind_def)
    next
      case (Inr z)
      then have "cloned m m2 (old1 @ old2) (ids1 y @ ids2 z)" using cloned_trans [OF c1 _ p] m2 by simp
      then show ?thesis using Inr r a ya b m1 m2 h by (auto simp: act_bind_def act_return_def)
    qed
  qed
qed

lemma act_bind_return_fun: "act_bind (act_return x) f = f x"
  by (rule ext) simp

lemma clones_map:
  assumes "clones venv st old ids1 f" and "\<And>a. ids (h a) = ids1 a"
  shows "clones venv st old ids (act_bind f (\<lambda>a. act_return (h a)))"
  using clones_pair [OF assms(1) clones_return [of "\<lambda>_. []" "()"], of ids "\<lambda>a _. h a"] assms(2)
  by (simp add: act_bind_return_fun)

lemma clones_auth: "vault_sound venv st \<Longrightarrow> clones venv st (auth_ids a) auth_ids (clone_auth venv st a)"
  by (cases a) (auto intro!: clones_map clones_pair clones_ref clones_return)

lemma act_bind_ok: "f s = (Inr x, s') \<Longrightarrow> act_bind f g s = g x s'"
  by (simp add: act_bind_def)

lemma act_bind_pair:
  "act_bind f (\<lambda>a. act_bind g (\<lambda>b. k a b)) s =
     (case act_bind f (\<lambda>a. act_bind g (\<lambda>b. act_return (a, b))) s of
        (Inl e, s') \<Rightarrow> (Inl e, s') | (Inr (a, b), s') \<Rightarrow> k a b s')"
  by (auto simp: act_bind_def act_return_def split: prod.splits sum.splits)

definition copy_of :: "('json, 'a) db_env_scheme \<Rightarrow> connection_config \<Rightarrow> auth_method \<Rightarrow> secret_ref option \<Rightarrow> connection_config" where
  "copy_of env cfg auth link =
     cfg\<lparr>cfg_id := fresh_uuid env, cfg_name := cfg_name cfg @ '' (copy)'', cfg_created_at := utc_now env,
         cfg_updated_at := utc_now env, cfg_authentication := auth, cfg_smart_link_secret := link\<rparr>"

lemma duplicate_profile_eq:
  "get_profile env i (ap_db s) = Inr cfg \<Longrightarrow>
   duplicate_profile env venv st i s =
     (case act_bind (clone_auth venv st (cfg_authentication cfg)) (\<lambda>a.
           act_bind (clone_ref venv st (cfg_smart_link_secret cfg)) (\<lambda>l. act_return (a, l))) s of
        (Inl e, s1) \<Rightarrow> (Inl e, s1)
      | (Inr (a, l), s1) \<Rightarrow>
          act_bind (with_db (upsert_profile env (copy_of env cfg a l))) (\<lambda>_. act_return (copy_of env cfg a l)) s1)"
  unfolding duplicate_profile_def act_bind_pair [symmetric] Let_def copy_of_def
  by (rule act_bind_ok) (simp add: read_db_def)


subsection \<open>Secrets that stay behind\<close>

text \<open>
  Deleting a profile removes the stored link only: a profile without one leaves its password and its keys in the vault.
\<close>

lemma delete_profile_leaves_secrets:
  "get_profile env i (ap_db s) = Inr cfg \<Longrightarrow> cfg_smart_link_secret cfg = None \<Longrightarrow>
     ap_sys (snd (delete_profile env venv st i s)) = ap_sys s"
  by (auto simp: delete_profile_def act_bind_def read_db_def with_db_def act_return_def split: prod.splits sum.splits)

text \<open>The copy of a profile refers to the proxy password of the original, and not to an entry of its own.\<close>

lemma duplicate_shares_proxy_secret:
  assumes "get_profile env i (ap_db s) = Inr cfg" and "duplicate_profile env venv st i s = (Inr copy, s')"
  shows "cfg_proxy copy = cfg_proxy cfg"
  using assms(2) unfolding duplicate_profile_eq [OF assms(1)]
  by (auto simp: act_bind_Inr act_return_def copy_of_def split: prod.splits sum.splits)

text \<open>An import that the database refuses leaves its password in the vault.\<close>

lemma import_leaves_password:
  assumes "parse_import env raw = Inr p" and "imp_password p = Some pw" and "put_secret venv st pw (ap_sys s) = (Inr r, w)"
    and "db_fault (ap_db s) = Some e"
  shows "\<exists>x. import_profile_text env venv st raw s = (Inl x, s\<lparr>ap_sys := w\<rparr>)"
  using assms by (auto simp: import_profile_text_def save_profile_def act_bind_def checked_def with_vault_def with_db_def
      upsert_profile_def statement_def Let_def split: sum.splits)

subsection \<open>Concrete runs\<close>

definition example_copy :: connection_config where
  "example_copy = example_config\<lparr>cfg_id := 7, cfg_name := ''h (copy)'', cfg_created_at := 0, cfg_updated_at := 0,
     cfg_authentication := Password (Some \<lparr> ref_id = ''sec_xxxxxx'' \<rparr>)\<rparr>"

definition example_db_env :: "nat db_env" where
  "example_db_env = smart_env.extend (example_smart_env\<lparr>uuid_show := (\<lambda>u. show_nat (unat u)), utc_now := 0\<rparr>)
     (db_env.fields
        (\<lambda>c. if c = example_config then Inr ''0'' else if c = example_copy then Inr ''1'' else Inl ''unsupported'')
        (\<lambda>s. if s = ''0'' then Inr example_config else if s = ''1'' then Inr example_copy else Inl ''bad'')
        (\<lambda>_. Inr ''s'') (\<lambda>_. Inr (default_app_settings\<lparr>preferred_routing_mode := ''vpn''\<rparr>)) (\<lambda>t. show_nat (nat t)))"

lemma example_db_env_json: "json_ok example_db_env"
  by (simp add: json_ok_def example_db_env_def smart_env.defs db_env.defs)

definition example_row :: profile_row where
  "example_row = profile_row_of example_db_env example_config ''0''"

definition example_entries :: "(string, string) table" where
  "example_entries = [(''sec_1'', ''hunter2'')]"

definition example_app :: "((string \<rightharpoonup> bytes) \<times> nat) app" where
  "example_app =
     \<lparr> ap_db = \<lparr> db_version = Some (show_nat CONFIG_VERSION), db_profiles = [example_row], db_settings = Some ''s'', db_fault = None \<rparr>,
       ap_sys = ([''/c/secrets.bin'' \<mapsto> FILE_MAGIC @ replicate 12 0 @ replicate (to_nat example_entries) 0 @ replicate 16 0], 0) \<rparr>"

definition example_vault :: "((string \<rightharpoonup> bytes) \<times> nat) vault_env" where
  "example_vault = example_vault_env\<lparr>draw_uuid :=
     (\<lambda>w. (case vault_load example_vault_env example_store w of
              Inl _ \<Rightarrow> [] | Inr t \<Rightarrow> replicate (Suc (sum_list (map (length \<circ> fst) t))) CHR ''x'', w))\<rparr>"

lemma example_db_env_uuid: "uuid_show (op_env example_db_env u t) = (\<lambda>x. show_nat (unat x))" "uuid_show example_db_env = (\<lambda>x. show_nat (unat x))"
  by (simp_all add: op_env_def example_db_env_def smart_env.defs)

lemma app_op_reachable:
  assumes "reachable app_fresh (app_step env venv st zenv) s" and "snd (run_op (op_env env u t) venv st zenv net op s) = s'"
  shows "reachable app_fresh (app_step env venv st zenv) s'"
  using reach_step [OF assms(1) app_step.operation] unfolding assms(2) [symmetric] .

lemma example_reachable:
  "reachable app_fresh (app_step example_db_env example_vault example_store zenv) example_app"
proof -
  let ?db = "\<lambda>v rows j. \<lparr> db_version = v, db_profiles = rows, db_settings = j, db_fault = None \<rparr>"
  let ?s = "\<lambda>db. example_app\<lparr>ap_db := db\<rparr>" and ?e = "op_env example_db_env 0 0"
  let ?reach = "reachable app_fresh (app_step example_db_env example_vault example_store zenv)"
  have "?reach (?s (?db None [] None))" by (rule reach_init) (simp add: app_fresh_def)
  from app_op_reachable [OF this] have r: "?reach (?s (?db (Some (show_nat CONFIG_VERSION)) [] (Some ''s'')))"
    if "snd (run_op ?e example_vault example_store zenv net OpOpen (?s (?db None [] None)))
      = ?s (?db (Some (show_nat CONFIG_VERSION)) [] (Some ''s''))" for net using that .
  have o: "snd (run_op ?e example_vault example_store zenv net OpOpen (?s (?db None [] None)))
      = ?s (?db (Some (show_nat CONFIG_VERSION)) [] (Some ''s''))" for net
    by (simp add: with_db_def migrate_def statement_def op_env_def example_db_env_def smart_env.defs db_env.defs)
  have c: "example_config\<lparr>cfg_updated_at := 0, cfg_routing_mode := ProxyOnly\<rparr> = example_config"
    by (simp add: example_config_def new_ssh_def)
  have "snd (run_op ?e example_vault example_store zenv net (OpSave example_config)
      (?s (?db (Some (show_nat CONFIG_VERSION)) [] (Some ''s'')))) = example_app" for net
    using c by (simp add: save_profile_def with_db_def checked_def act_bind_def act_return_def upsert_profile_def statement_def
        example_config_valid upsert_row_def example_app_def example_row_def profile_row_of_def op_env_def example_db_env_def
        smart_env.defs db_env.defs)
  from app_op_reachable [OF r [OF o] this] show ?thesis .
qed

lemma example_get: "get_profile example_db_env 1 (ap_db example_app) = Inr example_config"
proof -
  have "uuid_show example_db_env 1 = pr_id example_row"
    by (simp add: example_row_def profile_row_of_def example_config_def new_ssh_def)
  then show ?thesis
    by (simp add: get_profile_def row_of_def example_app_def) (simp add: example_row_def profile_row_of_def example_db_env_def
        smart_env.defs db_env.defs)
qed

theorem app_profiles_valid_witness:
  "case connect_profile example_db_env 1 example_app of
     (Inl _, _) \<Rightarrow> False
   | (Inr p, _) \<Rightarrow> cfg_routing_mode p = FullTunnel \<and> valid_config (to_config_env example_db_env) p \<and> dns_mode_of (cfg_dns p) = MTunnel"
proof -
  have s: "get_settings example_db_env (ap_db example_app) = Inr (default_app_settings\<lparr>preferred_routing_mode := ''vpn''\<rparr>)"
    by (simp add: get_settings_def statement_def example_app_def example_db_env_def smart_env.defs db_env.defs)
  have c: "connect_profile example_db_env 1 example_app =
      (Inr (routed (default_app_settings\<lparr>preferred_routing_mode := ''vpn''\<rparr>) example_config), example_app)"
    by (simp add: connect_profile_def act_bind_def read_db_def act_return_def example_get s)
  have m: "cfg_routing_mode (routed (default_app_settings\<lparr>preferred_routing_mode := ''vpn''\<rparr>) example_config) = FullTunnel"
    "dns_mode_of (cfg_dns (routed (default_app_settings\<lparr>preferred_routing_mode := ''vpn''\<rparr>) example_config)) = MTunnel"
    by (simp_all add: routed_def preferred_mode_def example_config_def new_ssh_def default_dns_settings_def Let_def)
  show ?thesis
    using app_profiles_valid [OF example_db_env_json example_reachable, of 1] c m by simp
qed

lemma example_vault_load: "vault_load example_vault st w = vault_load example_vault_env st w"
proof -
  have "fs_read example_vault = fs_read example_vault_env" "gcm_decrypt example_vault = gcm_decrypt example_vault_env"
    "read_error example_vault = read_error example_vault_env" "vault_of_json example_vault = vault_of_json example_vault_env"
    by (simp_all add: example_vault_def)
  then show ?thesis by (simp only: vault_load_def)
qed

lemma example_vault_sound: "vault_sound example_vault example_store"
proof -
  have "codec_ok example_vault" "disk_ok example_vault"
    using example_codec_ok example_disk_ok by (simp_all add: codec_ok_def disk_ok_def example_vault_def)
  moreover have "m (''sec_'' @ fst (draw_uuid example_vault w)) = None" if v: "vault_view example_vault example_store w = Some m" for w m
  proof -
    obtain t where t: "vault_load example_vault_env example_store w = Inr t" "m = tget' t"
      using v by (auto simp: vault_view_def example_vault_load split: sum.splits)
    have "length k \<le> sum_list (map (length \<circ> fst) t)" if "m k = Some v" for k v
    proof -
      have "(k, v) \<in> set t" using that t(2) by (simp add: tget_def map_of_SomeD)
      then have "length k \<in> set (map (length \<circ> fst) t)" by (auto intro: rev_image_eqI)
      then show ?thesis by (rule member_le_sum_list) simp
    qed
    then show ?thesis using t(1) by (fastforce simp: example_vault_def)
  qed
  ultimately show ?thesis using example_path by (simp add: vault_sound_def uuid_fresh_def)
qed

lemma example_app_view: "vault_view example_vault example_store (ap_sys example_app) = Some (tget' example_entries)"
  by (rule vault_view_file [of _ _ "replicate (to_nat example_entries) 0" "replicate 12 0"])
     (use example_vault_sound in \<open>simp_all add: vault_sound_def twf_def example_vault_def example_vault_env_def example_store_def
        example_app_def example_entries_def NONCE_LEN_def\<close>)

lemma example_copy_valid: "valid_config env example_copy"
proof -
  have "valid_config env (example_config\<lparr>cfg_id := 7, cfg_name := ''h (copy)''\<rparr>)"
    using example_config_valid [of env] trim_graph [of "''h (copy)''"]
    by (simp add: valid_config_groups endpoint_guards_def graph_char_def settings_guards_def ssh_guards_def transport_guards_def
        list_guards_def example_config_def new_ssh_def)
  then show ?thesis by (simp add: example_copy_def)
qed


end
