(* ===== verification/Vless.thy ===== *)
theory Vless
  imports Socks Zones Config_Import Os
begin

text \<open>
  VLESS through an external engine (\<^verbatim>\<open>crates/vless/src/lib.rs\<close>): the configuration files for Xray and sing-box, starting the
  engine, and the SOCKS client that talks to it. The engines, their processes and the file system are the fields of
  \<open>vless_env\<close>; a JSON object is the list of its members, of which serde_json fixes the order when it prints them.
\<close>

datatype vless_error = VIo string | VConfig string | VEngine string

fun show_vless_error :: "vless_error \<Rightarrow> string" where
  "show_vless_error (VIo e) = ''I/O error: '' @ e"
| "show_vless_error (VConfig e) = ''config: '' @ e"
| "show_vless_error (VEngine e) = ''VLESS engine: '' @ e"

datatype engine_kind = Xray | SingBox

fun engine_label :: "engine_kind \<Rightarrow> string" where
  "engine_label Xray = ''xray''"
| "engine_label SingBox = ''sing-box''"

subsection \<open>Settings\<close>

definition option_or :: "'a option \<Rightarrow> 'a option \<Rightarrow> 'a option" where
  "option_or a b = (case a of Some x \<Rightarrow> Some x | None \<Rightarrow> b)"

definition or_default :: "'a \<Rightarrow> 'a option \<Rightarrow> 'a" where
  "or_default d x = (case x of None \<Rightarrow> d | Some y \<Rightarrow> y)"

definition vless_settings_of :: "connection_config \<Rightarrow> vless_error + vless_settings" where
  "vless_settings_of cfg =
     (case cfg_settings cfg of
        SetVless v \<Rightarrow> Inr (v\<lparr>vl_host := option_or (vl_host v) (tls_host (cfg_tls cfg)), vl_path := option_or (vl_path v) (tls_path (cfg_tls cfg))\<rparr>)
      | _ \<Rightarrow> Inl (VConfig ''not a VLESS profile''))"

definition normalize_network :: "string \<Rightarrow> string" where
  "normalize_network v =
     (if v = [] \<or> eq_ignore_ascii_case v ''raw'' \<or> eq_ignore_ascii_case v ''none'' \<or> eq_ignore_ascii_case v ''tcp'' then ''tcp''
      else if eq_ignore_ascii_case v ''websocket'' \<or> eq_ignore_ascii_case v ''ws'' then ''ws''
      else if eq_ignore_ascii_case v ''http_upgrade'' \<or> eq_ignore_ascii_case v ''httpupgrade'' then ''httpupgrade''
      else if eq_ignore_ascii_case v ''grpc'' then ''grpc''
      else if eq_ignore_ascii_case v ''xhttp'' then ''xhttp''
      else v)"

definition normalize_security :: "string \<Rightarrow> string" where
  "normalize_security v =
     (if v = [] \<or> eq_ignore_ascii_case v ''none'' then ''none''
      else if eq_ignore_ascii_case v ''tls'' then ''tls''
      else if eq_ignore_ascii_case v ''reality'' then ''reality''
      else v)"

definition effective_network :: "connection_config \<Rightarrow> string \<Rightarrow> string" where
  "effective_network cfg configured =
     (if configured = [] \<or> eq_ignore_ascii_case configured ''tcp''
      then (case cfg_transport cfg of
              WebSocket \<Rightarrow> ''ws'' | Wss \<Rightarrow> ''ws'' | HttpUpgrade \<Rightarrow> ''httpupgrade'' | _ \<Rightarrow> normalize_network configured)
      else normalize_network configured)"

definition effective_security :: "connection_config \<Rightarrow> string \<Rightarrow> string" where
  "effective_security cfg configured =
     (if configured = [] \<or> eq_ignore_ascii_case configured ''none''
      then (case cfg_transport cfg of
              Tls \<Rightarrow> ''tls'' | Wss \<Rightarrow> ''tls''
            | HttpUpgrade \<Rightarrow> if tls_sni (cfg_tls cfg) \<noteq> None \<or> tls_alpn (cfg_tls cfg) \<noteq> [] then ''tls'' else ''none''
            | _ \<Rightarrow> ''none'')
      else normalize_security configured)"

definition xray_network :: "string \<Rightarrow> string" where
  "xray_network network = (if network = ''tcp'' then ''raw'' else if network = ''ws'' then ''websocket'' else network)"

fun vless_fingerprint :: "tls_fingerprint_profile \<Rightarrow> string" where
  "vless_fingerprint FpChrome = ''chrome''"
| "vless_fingerprint FpFirefox = ''firefox''"
| "vless_fingerprint FpSafari = ''safari''"
| "vless_fingerprint FpDefault = ''chrome''"
| "vless_fingerprint FpCustom = []"

definition server_name :: "connection_config \<Rightarrow> string" where
  "server_name cfg = or_default (cfg_host cfg) (tls_sni (cfg_tls cfg))"

definition flow_entry :: "vless_settings \<Rightarrow> (string \<times> json) list" where
  "flow_entry v = (if vl_flow v \<noteq> [] \<and> \<not> eq_ignore_ascii_case (vl_flow v) ''none'' then [(''flow'', JStr (vl_flow v))] else [])"

definition jport :: "u16 \<Rightarrow> json" where
  "jport p = JNum (show_nat (unat p))"

subsection \<open>Xray\<close>

definition add_xray_transport :: "string \<Rightarrow> vless_settings \<Rightarrow> (string \<times> json) list" where
  "add_xray_transport network v =
     (let path = JStr (or_default ''/'' (vl_path v)); host = JStr (or_default [] (vl_host v)) in
      if network = ''ws'' then [(''wsSettings'', JObj [(''path'', path), (''host'', host)])]
      else if network = ''grpc'' then [(''grpcSettings'', JObj [(''serviceName'', JStr (or_default [] (vl_grpc_service_name v)))])]
      else if network = ''httpupgrade'' then [(''httpupgradeSettings'', JObj [(''path'', path), (''host'', host)])]
      else if network = ''xhttp''
      then [(''xhttpSettings'', JObj [(''path'', path), (''host'', host), (''mode'', JStr (or_default [] (vl_xhttp_mode v)))])]
      else [])"

definition xray_tls_settings :: "connection_config \<Rightarrow> json" where
  "xray_tls_settings cfg =
     JObj [(''serverName'', JStr (server_name cfg)), (''allowInsecure'', JBool (\<not> tls_verify (cfg_tls cfg))),
           (''alpn'', JArr (map JStr (tls_alpn (cfg_tls cfg)))), (''fingerprint'', JStr (vless_fingerprint (tls_fingerprint (cfg_tls cfg))))]"

definition reality_key :: "vless_settings \<Rightarrow> vless_error + string" where
  "reality_key v = ok_or (VConfig ''Reality public key is missing'') (vl_reality_public_key v)"

definition xray_reality_settings :: "connection_config \<Rightarrow> vless_settings \<Rightarrow> vless_error + json" where
  "xray_reality_settings cfg v =
     and_then (reality_key v) (\<lambda>key. Inr (JObj
       [(''serverName'', JStr (server_name cfg)), (''fingerprint'', JStr (vless_fingerprint (tls_fingerprint (cfg_tls cfg)))),
        (''password'', JStr key), (''shortId'', JStr (or_default [] (vl_reality_short_id v))),
        (''spiderX'', JStr (or_default ''/'' (vl_spider_x v)))]))"

definition build_xray_config :: "connection_config \<Rightarrow> u16 \<Rightarrow> vless_error + json" where
  "build_xray_config cfg sport =
     and_then (vless_settings_of cfg) (\<lambda>v.
       let network = effective_network cfg (vl_network v);
           security = effective_security cfg (vl_security v);
           settings = JObj ([(''address'', JStr (cfg_host cfg)), (''port'', jport (cfg_port cfg)), (''id'', JStr (vl_uuid v)),
                             (''encryption'', JStr (if vl_encryption v = [] then ''none'' else vl_encryption v))] @ flow_entry v)
       in and_then (if security = ''tls'' then Inr [(''tlsSettings'', xray_tls_settings cfg)]
                    else if security = ''reality'' then and_then (xray_reality_settings cfg v) (\<lambda>r. Inr [(''realitySettings'', r)])
                    else Inr []) (\<lambda>tls.
          Inr (JObj
            [(''log'', JObj [(''loglevel'', JStr ''warning'')]),
             (''inbounds'', JArr [JObj [(''listen'', JStr ''127.0.0.1''), (''port'', jport sport), (''protocol'', JStr ''socks''),
                (''settings'', JObj [(''auth'', JStr ''noauth''), (''udp'', JBool False)])]]),
             (''outbounds'', JArr [JObj [(''tag'', JStr ''vless-out''), (''protocol'', JStr ''vless''), (''settings'', settings),
                (''streamSettings'', JObj ([(''method'', JStr (xray_network network)), (''security'', JStr security)]
                   @ add_xray_transport network v @ tls))]])])))"

subsection \<open>sing-box\<close>

definition sing_box_tls_settings :: "connection_config \<Rightarrow> vless_settings \<Rightarrow> string \<Rightarrow> vless_error + json" where
  "sing_box_tls_settings cfg v security =
     (let fp = vless_fingerprint (tls_fingerprint (cfg_tls cfg));
          tls = [(''enabled'', JBool True), (''server_name'', JStr (server_name cfg)), (''insecure'', JBool (\<not> tls_verify (cfg_tls cfg))),
                 (''alpn'', JArr (map JStr (tls_alpn (cfg_tls cfg))))]
                @ (if fp = [] then [] else [(''utls'', JObj [(''enabled'', JBool True), (''fingerprint'', JStr fp)])])
      in if security = ''reality''
         then and_then (reality_key v) (\<lambda>key. Inr (JObj (tls @ [(''reality'', JObj [(''enabled'', JBool True), (''public_key'', JStr key),
                (''short_id'', JStr (or_default [] (vl_reality_short_id v)))])])))
         else Inr (JObj tls))"

definition sing_box_transport :: "string \<Rightarrow> vless_settings \<Rightarrow> vless_error + json" where
  "sing_box_transport network v =
     (let path = JStr (or_default ''/'' (vl_path v)) in
      if network = ''ws''
      then Inr (JObj ([(''type'', JStr ''ws''), (''path'', path)]
                  @ (case vl_host v of None \<Rightarrow> [] | Some host \<Rightarrow> [(''headers'', JObj [(''Host'', JStr host)])])))
      else if network = ''grpc'' then Inr (JObj [(''type'', JStr ''grpc''), (''service_name'', JStr (or_default [] (vl_grpc_service_name v)))])
      else if network = ''httpupgrade''
      then Inr (JObj [(''type'', JStr ''httpupgrade''), (''path'', path), (''host'', JStr (or_default [] (vl_host v)))])
      else Inl (VConfig (''sing-box transport `'' @ network @ ''` is not supported'')))"

definition build_sing_box_config :: "connection_config \<Rightarrow> u16 \<Rightarrow> vless_error + json" where
  "build_sing_box_config cfg sport =
     and_then (vless_settings_of cfg) (\<lambda>v.
       let network = effective_network cfg (vl_network v);
           security = effective_security cfg (vl_security v)
       in if network = ''xhttp'' then Inl (VConfig ''sing-box does not support the XHTTP V2Ray transport; select Xray'')
          else if eq_ignore_ascii_case (vl_flow v) ''xtls-rprx-vision-udp443''
          then Inl (VConfig ''sing-box does not support xtls-rprx-vision-udp443; select Xray'')
          else
            and_then (if security \<noteq> ''none'' then and_then (sing_box_tls_settings cfg v security) (\<lambda>t. Inr [(''tls'', t)]) else Inr []) (\<lambda>tls.
            and_then (if network \<noteq> ''tcp'' then and_then (sing_box_transport network v) (\<lambda>t. Inr [(''transport'', t)]) else Inr []) (\<lambda>transport.
              Inr (JObj
                [(''log'', JObj [(''level'', JStr ''warn'')]),
                 (''inbounds'', JArr [JObj [(''type'', JStr ''socks''), (''tag'', JStr ''socks-in''), (''listen'', JStr ''127.0.0.1''),
                    (''listen_port'', jport sport)]]),
                 (''outbounds'', JArr [JObj ([(''type'', JStr ''vless''), (''tag'', JStr ''vless-out''), (''server'', JStr (cfg_host cfg)),
                    (''server_port'', jport (cfg_port cfg)), (''uuid'', JStr (vl_uuid v)), (''network'', JStr ''tcp'')]
                    @ flow_entry v @ tls @ transport)]),
                 (''route'', JObj [(''final'', JStr ''vless-out'')])]))))"

subsection \<open>The SOCKS client\<close>

definition socks_request :: "string \<Rightarrow> u16 \<Rightarrow> socks_error + bytes" where
  "socks_request host port =
     and_then (case parse_ip host of
         Some (IpV4 ip) \<Rightarrow> Inr ([5, 1, 0, 1] @ octets4 ip)
       | Some (IpV6 ip) \<Rightarrow> Inr ([5, 1, 0, 4] @ octets6 ip)
       | None \<Rightarrow>
           if host = [] \<or> 255 < length host then Inl (Upstream ''invalid SOCKS destination host'')
           else Inr ([5, 1, 0, 3, word_of_nat (length host)] @ as_bytes host))
       (\<lambda>request. Inr (request @ to_be 2 (unat port)))"

text \<open>\<open>conv\<close> is the conversion of an I/O error, \<open>txt\<close> the text of one.\<close>

definition reply_address_len :: "(io_kind \<Rightarrow> socks_error) \<Rightarrow> u8 \<Rightarrow> (socks_error, nat) io" where
  "reply_address_len conv atyp =
     (if atyp = 1 then io_return 4
      else if atyp = 4 then io_return 16
      else if atyp = 3 then io_bind (read_exact conv 1) (\<lambda>len. io_return (unat (len ! 0)))
      else io_fail (Upstream (''VLESS engine returned invalid SOCKS address type '' @ show_nat (unat atyp))))"

definition read_socks_reply :: "(io_kind \<Rightarrow> socks_error) \<Rightarrow> (socks_error, unit) io" where
  "read_socks_reply conv =
     io_bind (read_exact conv 4) (\<lambda>reply.
       if reply ! 0 \<noteq> 5 \<or> reply ! 1 \<noteq> 0
       then io_fail (Upstream (''VLESS engine SOCKS connect failed with reply '' @ show_nat (unat (reply ! 1))))
       else
         io_bind (reply_address_len conv (reply ! 3)) (\<lambda>address_len.
         io_bind (read_exact conv (address_len + 2)) (\<lambda>_. io_return ())))"

definition socks_dialogue :: "(io_kind \<Rightarrow> string) \<Rightarrow> string \<Rightarrow> u16 \<Rightarrow> (socks_error, unit) io" where
  "socks_dialogue txt host port =
     (let conv = (\<lambda>e. Upstream (txt e)) in
      io_bind (write_all conv [5, 1, 0]) (\<lambda>_.
      io_bind (read_exact conv 2) (\<lambda>greeting.
      if greeting \<noteq> [5, 0]
      then io_fail (Upstream (''VLESS engine rejected SOCKS authentication: ['' @ join_with '', '' (map (\<lambda>b. show_nat (unat b)) greeting) @ '']''))
      else
        io_bind (io_lift (socks_request host port)) (\<lambda>request.
        io_bind (write_all conv request) (\<lambda>_.
        read_socks_reply conv)))))"

definition socks_connect :: "(io_kind \<Rightarrow> string) \<Rightarrow> io_kind + bstream \<Rightarrow> string \<Rightarrow> u16 \<Rightarrow> socks_error + bstream" where
  "socks_connect txt tcp host port =
     and_then (map_err (\<lambda>e. Upstream (''VLESS engine SOCKS connection: '' @ txt e)) tcp) (\<lambda>stream.
       case socks_dialogue txt host port stream of (Inl e, _) \<Rightarrow> Inl e | (Inr _, s) \<Rightarrow> Inr s)"

text \<open>\<open>in_time\<close> says whether the dialogue ends before the 15 seconds of the timer are over.\<close>

definition vless_upstream_connect ::
  "(io_kind \<Rightarrow> string) \<Rightarrow> (sock_addr \<Rightarrow> io_kind + bstream) \<Rightarrow> bool \<Rightarrow> sock_addr \<Rightarrow> string \<Rightarrow> u16 \<Rightarrow> socks_error + bstream" where
  "vless_upstream_connect txt tcp in_time addr host port =
     (if in_time then socks_connect txt (tcp addr) host port
      else Inl (Upstream (''VLESS connect to '' @ host @ '':'' @ show_nat (unat port) @ '' timed out'')))"

subsection \<open>Starting the engine\<close>

text \<open>
  \<open>bind_loopback\<close> binds port 0 of 127.0.0.1, reads the address back and closes the socket; \<open>temp_join\<close> is a file of the
  temporary directory. \<open>start_polls\<close> is the number of rounds
  of the waiting loop that are over when its timer of five seconds fires; a round sleeps 50 ms, so there are at most 100.
\<close>

datatype spawn_error = SpawnNotFound | SpawnIo string

record 'w vless_env =
  getenv :: "string \<Rightarrow> string option"
  bind_loopback :: "'w \<Rightarrow> (string + u16) \<times> 'w"
  temp_join :: "string \<Rightarrow> string"
  new_v4 :: "'w \<Rightarrow> string \<times> 'w"
  json_to_vec :: "json \<Rightarrow> string + bytes"
  create_new_0600 :: "string \<Rightarrow> 'w \<Rightarrow> (string + unit) \<times> 'w"
  write_flush :: "string \<Rightarrow> bytes \<Rightarrow> 'w \<Rightarrow> (string + unit) \<times> 'w"
  unlink :: "string \<Rightarrow> 'w \<Rightarrow> 'w"
  spawn :: "string \<Rightarrow> string list \<Rightarrow> 'w \<Rightarrow> (spawn_error + nat) \<times> 'w"
  try_wait :: "nat \<Rightarrow> 'w \<Rightarrow> (string + string option) \<times> 'w"
  probe :: "u16 \<Rightarrow> 'w \<Rightarrow> bool \<times> 'w"
  start_kill :: "nat \<Rightarrow> 'w \<Rightarrow> 'w"
  start_polls :: nat

record vless_connector =
  vc_socks_addr :: sock_addr
  vc_child :: nat

definition drop_connector :: "('w, 'a) vless_env_scheme \<Rightarrow> vless_connector \<Rightarrow> 'w \<Rightarrow> 'w" where
  "drop_connector env c = start_kill env (vc_child c)"

definition engine_binary :: "('w, 'a) vless_env_scheme \<Rightarrow> engine_kind \<Rightarrow> string" where
  "engine_binary env kind =
     or_default (engine_label kind) (getenv env (case kind of Xray \<Rightarrow> ''EASY_XRAY_PATH'' | SingBox \<Rightarrow> ''EASY_SING_BOX_PATH''))"

definition act_of :: "'e + 'a \<Rightarrow> ('w, 'e, 'a) act" where
  "act_of r w = (r, w)"

definition act_err :: "('e \<Rightarrow> 'f) \<Rightarrow> ('w, 'e, 'a) act \<Rightarrow> ('w, 'f, 'a) act" where
  "act_err g m w = (case m w of (r, w1) \<Rightarrow> (map_err g r, w1))"

definition engine_config_path :: "('w, 'a) vless_env_scheme \<Rightarrow> engine_kind \<Rightarrow> string \<Rightarrow> string" where
  "engine_config_path env kind u = temp_join env (''easy-vless-'' @ engine_label kind @ ''-'' @ u @ ''.json'')"

definition write_engine_config :: "('w, 'a) vless_env_scheme \<Rightarrow> engine_kind \<Rightarrow> json \<Rightarrow> ('w, vless_error, string) act" where
  "write_engine_config env kind value w =
     (case new_v4 env w of (u, w1) \<Rightarrow>
        let path = engine_config_path env kind u in
        act_bind (act_of (map_err VConfig (json_to_vec env value))) (\<lambda>bs.
        act_bind (act_err VIo (create_new_0600 env path)) (\<lambda>_.
        act_bind (act_err VIo (write_flush env path bs)) (\<lambda>_.
        act_return path))) w1)"

text \<open>The waiting loop; \<open>None\<close> is the timer.\<close>

fun await_engine :: "('w, 'a) vless_env_scheme \<Rightarrow> engine_kind \<Rightarrow> u16 \<Rightarrow> nat \<Rightarrow> nat \<Rightarrow> 'w \<Rightarrow> (vless_error + unit) option \<times> 'w" where
  "await_engine env kind port child 0 w = (None, w)"
| "await_engine env kind port child (Suc n) w =
     (case try_wait env child w of
        (Inl e, w1) \<Rightarrow> (Some (Inl (VIo e)), w1)
      | (Inr (Some status), w1) \<Rightarrow> (Some (Inl (VEngine (engine_label kind @ '' exited during startup with '' @ status))), w1)
      | (Inr None, w1) \<Rightarrow>
          (case probe env port w1 of
             (True, w2) \<Rightarrow> (Some (Inr ()), w2)
           | (False, w2) \<Rightarrow> await_engine env kind port child n w2))"

text \<open>With the configuration file in place; a child that is dropped is killed, a second kill of it has no effect.\<close>

definition run_engine :: "('w, 'a) vless_env_scheme \<Rightarrow> engine_kind \<Rightarrow> u16 \<Rightarrow> string \<Rightarrow> ('w, vless_error, vless_connector) act" where
  "run_engine env kind port path w =
     (case spawn env (engine_binary env kind) [''run'', ''-c'', path] w of
        (Inl SpawnNotFound, w1) \<Rightarrow> (Inl (VEngine (''binary `'' @ engine_binary env kind @ ''` was not found'')), w1)
      | (Inl (SpawnIo e), w1) \<Rightarrow> (Inl (VIo e), w1)
      | (Inr child, w1) \<Rightarrow>
          (case await_engine env kind port child (start_polls env) w1 of
             (Some (Inr _), w2) \<Rightarrow> (Inr \<lparr> vc_socks_addr = SockV4 0x7F000001 port, vc_child = child \<rparr>, w2)
           | (Some (Inl e), w2) \<Rightarrow> (Inl e, start_kill env child w2)
           | (None, w2) \<Rightarrow> (Inl (VEngine (engine_label kind @ '' did not open its local SOCKS port within 5 seconds'')),
                            start_kill env child (start_kill env child w2))))"

definition engine_config :: "connection_config \<Rightarrow> engine_kind \<Rightarrow> u16 \<Rightarrow> vless_error + json" where
  "engine_config cfg kind port = (case kind of Xray \<Rightarrow> build_xray_config cfg port | SingBox \<Rightarrow> build_sing_box_config cfg port)"

definition start_engine :: "('w, 'a) vless_env_scheme \<Rightarrow> connection_config \<Rightarrow> engine_kind \<Rightarrow> ('w, vless_error, vless_connector) act" where
  "start_engine env cfg kind =
     act_bind (act_err VIo (bind_loopback env)) (\<lambda>port.
     act_bind (act_of (engine_config cfg kind port)) (\<lambda>config.
     act_bind (write_engine_config env kind config) (\<lambda>path w.
       case run_engine env kind port path w of (r, w1) \<Rightarrow> (r, unlink env path w1))))"

fun try_engines :: "('w, 'a) vless_env_scheme \<Rightarrow> connection_config \<Rightarrow> engine_kind list \<Rightarrow> string list \<Rightarrow> ('w, vless_error, vless_connector) act" where
  "try_engines env cfg [] failures w =
     (Inl (VEngine (''could not start an external VLESS engine ('' @ join_with ''; '' failures
        @ ''). Install Xray or sing-box in PATH, or set EASY_XRAY_PATH / EASY_SING_BOX_PATH'')), w)"
| "try_engines env cfg (kind # kinds) failures w =
     (case start_engine env cfg kind w of
        (Inr connector, w1) \<Rightarrow> (Inr connector, w1)
      | (Inl e, w1) \<Rightarrow> try_engines env cfg kinds (failures @ [engine_label kind @ '': '' @ show_vless_error e]) w1)"

definition engine_candidates :: "string \<Rightarrow> vless_error + engine_kind list" where
  "engine_candidates requested =
     (if requested = ''auto'' \<or> requested = [] then Inr [Xray, SingBox]
      else if requested = ''xray'' then Inr [Xray]
      else if requested = ''sing-box'' \<or> requested = ''singbox'' then Inr [SingBox]
      else Inl (VConfig (''unknown EASY_VLESS_ENGINE `'' @ requested @ ''`; use auto, xray, or sing-box'')))"

definition vless_start :: "('w, 'a) vless_env_scheme \<Rightarrow> connection_config \<Rightarrow> ('w, vless_error, vless_connector) act" where
  "vless_start env cfg =
     act_bind (act_of (engine_candidates (to_ascii_lowercase (or_default ''auto'' (getenv env ''EASY_VLESS_ENGINE'')))))
       (\<lambda>kinds. try_engines env cfg kinds [])"

end
