(* ===== verification/Vless_Config.thy ===== *)
theory Vless_Config
  imports Vless
begin

text \<open>
  The configurations for the two VLESS engines describe one tunnel: how each engine reads its document, and that both documents of a
  validated profile read as that profile.
\<close>

subsection \<open>Both engines run the same tunnel\<close>

text \<open>What a configuration asks an engine to do, and how each engine reads it from the members of its first outbound.\<close>

record vless_tunnel =
  vt_server :: string
  vt_port :: string
  vt_uuid :: string
  vt_flow :: string
  vt_network :: string
  vt_path :: string
  vt_host :: string
  vt_service :: string
  vt_security :: string
  vt_sni :: string
  vt_insecure :: bool
  vt_alpn :: json
  vt_fingerprint :: string
  vt_reality :: "string \<times> string"

fun json_at :: "json \<Rightarrow> string list \<Rightarrow> json" where
  "json_at v [] = v"
| "json_at v (key # keys) = json_at (or_default JNull (json_field v key)) keys"

fun json_first :: "json \<Rightarrow> json" where
  "json_first (JArr (v # vs)) = v"
| "json_first v = JNull"

fun json_scalar :: "json \<Rightarrow> string" where
  "json_scalar (JStr s) = s"
| "json_scalar (JNum s) = s"
| "json_scalar v = []"

definition scalar_at :: "json \<Rightarrow> string list \<Rightarrow> string" where
  "scalar_at v keys = json_scalar (json_at v keys)"

definition xray_tunnel :: "json \<Rightarrow> vless_tunnel" where
  "xray_tunnel config =
     (let out = json_first (json_at config [''outbounds'']);
          settings = json_at out [''settings''];
          stream = json_at out [''streamSettings''];
          network = (let n = scalar_at stream [''method''] in
                     if n = ''raw'' then ''tcp'' else if n = ''websocket'' then ''ws'' else n);
          options = json_at stream [if network = ''ws'' then ''wsSettings'' else network @ ''Settings''];
          security = scalar_at stream [''security''];
          tls = json_at stream [if security = ''reality'' then ''realitySettings'' else ''tlsSettings''] in
      \<lparr> vt_server = scalar_at settings [''address''], vt_port = scalar_at settings [''port''],
        vt_uuid = scalar_at settings [''id''], vt_flow = scalar_at settings [''flow''], vt_network = network,
        vt_path = scalar_at options [''path''], vt_host = scalar_at options [''host''],
        vt_service = scalar_at options [''serviceName''], vt_security = security,
        vt_sni = scalar_at tls [''serverName''], vt_insecure = (json_at tls [''allowInsecure''] = JBool True),
        vt_alpn = json_at tls [''alpn''], vt_fingerprint = scalar_at tls [''fingerprint''],
        vt_reality = (scalar_at tls [''password''], scalar_at tls [''shortId'']) \<rparr>)"

definition sing_box_tunnel :: "json \<Rightarrow> vless_tunnel" where
  "sing_box_tunnel config =
     (let out = json_first (json_at config [''outbounds'']);
          transport = json_at out [''transport''];
          tls = json_at out [''tls''];
          network = (if transport = JNull then ''tcp'' else scalar_at transport [''type'']);
          security = (if json_at tls [''enabled''] \<noteq> JBool True then ''none''
                      else if json_at tls [''reality'', ''enabled''] = JBool True then ''reality'' else ''tls'') in
      \<lparr> vt_server = scalar_at out [''server''], vt_port = scalar_at out [''server_port''],
        vt_uuid = scalar_at out [''uuid''], vt_flow = scalar_at out [''flow''], vt_network = network,
        vt_path = scalar_at transport [''path''],
        vt_host = scalar_at transport (if network = ''ws'' then [''headers'', ''Host''] else [''host'']),
        vt_service = scalar_at transport [''service_name''], vt_security = security,
        vt_sni = scalar_at tls [''server_name''],
        vt_insecure = (security = ''tls'' \<and> json_at tls [''insecure''] = JBool True),
        vt_alpn = (if security = ''tls'' then json_at tls [''alpn''] else JNull),
        vt_fingerprint = scalar_at tls [''utls'', ''fingerprint''],
        vt_reality = (scalar_at tls [''reality'', ''public_key''], scalar_at tls [''reality'', ''short_id'']) \<rparr>)"

text \<open>The address an engine listens on: the host and the port of its only inbound.\<close>

definition inbound_of :: "json \<Rightarrow> string \<Rightarrow> (string \<times> string) option" where
  "inbound_of config port_key =
     (case json_at config [''inbounds''] of
        JArr [v] \<Rightarrow> Some (scalar_at v [''listen''], scalar_at v [port_key])
      | _ \<Rightarrow> None)"

definition tunnel_of :: "connection_config \<Rightarrow> vless_settings \<Rightarrow> string \<Rightarrow> string \<Rightarrow> vless_tunnel" where
  "tunnel_of cfg v network security =
     (let http = network = ''ws'' \<or> network = ''httpupgrade'' \<or> network = ''xhttp''; crypted = security \<noteq> ''none''; tls = security = ''tls'' in
      \<lparr> vt_server = cfg_host cfg, vt_port = show_nat (unat (cfg_port cfg)), vt_uuid = vl_uuid v,
        vt_flow = (if eq_ignore_ascii_case (vl_flow v) ''none'' then [] else vl_flow v), vt_network = network,
        vt_path = (if http then or_default ''/'' (vl_path v) else []), vt_host = (if http then or_default [] (vl_host v) else []),
        vt_service = (if network = ''grpc'' then or_default [] (vl_grpc_service_name v) else []), vt_security = security,
        vt_sni = (if crypted then server_name cfg else []), vt_insecure = (tls \<and> \<not> tls_verify (cfg_tls cfg)),
        vt_alpn = (if tls then JArr (map JStr (tls_alpn (cfg_tls cfg))) else JNull),
        vt_fingerprint = (if crypted then vless_fingerprint (tls_fingerprint (cfg_tls cfg)) else []),
        vt_reality = (if security = ''reality'' then (or_default [] (vl_reality_public_key v), or_default [] (vl_reality_short_id v)) else ([], [])) \<rparr>)"

lemmas engine_doc = json_field_def or_default_def scalar_at_def inbound_of_def jport_def

definition networks :: "string set" where
  "networks = {''tcp'', ''ws'', ''grpc'', ''httpupgrade'', ''xhttp''}"

definition securities :: "string set" where
  "securities = {''none'', ''tls'', ''reality''}"

definition xray_tls :: "connection_config \<Rightarrow> vless_settings \<Rightarrow> string \<Rightarrow> string \<Rightarrow> (string \<times> json) list" where
  "xray_tls cfg v security key =
     (if security = ''tls'' then [(''tlsSettings'', xray_tls_settings cfg)]
      else if security = ''reality'' then
        [(''realitySettings'', JObj
           [(''serverName'', JStr (server_name cfg)), (''fingerprint'', JStr (vless_fingerprint (tls_fingerprint (cfg_tls cfg)))),
            (''password'', JStr key), (''shortId'', JStr (or_default [] (vl_reality_short_id v))),
            (''spiderX'', JStr (or_default ''/'' (vl_spider_x v)))])]
      else [])"

definition xray_settings :: "connection_config \<Rightarrow> vless_settings \<Rightarrow> json" where
  "xray_settings cfg v = JObj ([(''address'', JStr (cfg_host cfg)), (''port'', jport (cfg_port cfg)), (''id'', JStr (vl_uuid v)),
     (''encryption'', JStr (if vl_encryption v = [] then ''none'' else vl_encryption v))] @ flow_entry v)"

definition xray_stream :: "connection_config \<Rightarrow> vless_settings \<Rightarrow> string \<Rightarrow> string \<Rightarrow> string \<Rightarrow> json" where
  "xray_stream cfg v network security key = JObj ([(''method'', JStr (xray_network network)), (''security'', JStr security)]
     @ add_xray_transport network v @ xray_tls cfg v security key)"

lemma build_xray_config_eq:
  assumes "vless_settings_of cfg = Inr v" and "effective_network cfg (vl_network v) = network"
    and "effective_security cfg (vl_security v) = security" and "security = ''reality'' \<Longrightarrow> vl_reality_public_key v = Some key"
  shows "build_xray_config cfg p = Inr (JObj
            [(''log'', JObj [(''loglevel'', JStr ''warning'')]),
             (''inbounds'', JArr [JObj [(''listen'', JStr ''127.0.0.1''), (''port'', jport p), (''protocol'', JStr ''socks''),
                (''settings'', JObj [(''auth'', JStr ''noauth''), (''udp'', JBool False)])]]),
             (''outbounds'', JArr [JObj [(''tag'', JStr ''vless-out''), (''protocol'', JStr ''vless''), (''settings'', xray_settings cfg v),
                (''streamSettings'', xray_stream cfg v network security key)]])])"
  using assms by (cases "security = ''tls''"; cases "security = ''reality''")
    (simp_all add: build_xray_config_def Let_def xray_settings_def xray_stream_def xray_tls_def xray_reality_settings_def reality_key_def)

lemma json_field_obj [simp]: "json_field (JObj ms) key = map_of ms key" "json_field JNull key = None"
  by (simp_all add: json_field_def)

lemma json_at_null [simp]: "json_at JNull keys = JNull"
  by (induction keys) (simp_all add: json_field_def or_default_def)

lemma or_default_simps [simp]: "or_default d None = d" "or_default d (Some x) = x"
  by (simp_all add: or_default_def)

lemma networks_cases [consumes 1]:
  assumes "n \<in> networks"
  obtains "n = ''tcp''" | "n = ''ws''" | "n = ''grpc''" | "n = ''httpupgrade''" | "n = ''xhttp''"
  using assms by (auto simp: networks_def)

lemma securities_cases [consumes 1]:
  assumes "s \<in> securities"
  obtains "s = ''none''" | "s = ''tls''" | "s = ''reality''"
  using assms by (auto simp: securities_def)

definition options_of :: "string \<Rightarrow> vless_settings \<Rightarrow> json" where
  "options_of network v = (case add_xray_transport network v of [] \<Rightarrow> JNull | (k, t) # _ \<Rightarrow> t)"

lemma xray_stream_options:
  assumes "network \<in> networks"
  shows "json_at (xray_stream cfg v network security key) [if network = ''ws'' then ''wsSettings'' else network @ ''Settings'']
     = options_of network v"
proof -
  have "map_of (xray_tls cfg v security key) (if network = ''ws'' then ''wsSettings'' else network @ ''Settings'') = None"
    using assms by (cases rule: networks_cases) (simp_all add: xray_tls_def)
  with assms show ?thesis
    by (cases rule: networks_cases) (simp_all add: xray_stream_def add_xray_transport_def options_of_def Let_def map_add_def)
qed

lemma options_reads:
  assumes "network \<in> networks"
  shows "scalar_at (options_of network v) [''path''] = (if network = ''ws'' \<or> network = ''httpupgrade'' \<or> network = ''xhttp'' then or_default ''/'' (vl_path v) else [])"
    "scalar_at (options_of network v) [''host''] = (if network = ''ws'' \<or> network = ''httpupgrade'' \<or> network = ''xhttp'' then or_default [] (vl_host v) else [])"
    "scalar_at (options_of network v) [''serviceName''] = (if network = ''grpc'' then or_default [] (vl_grpc_service_name v) else [])"
  by (rule networks_cases [OF assms]; simp add: options_of_def add_xray_transport_def scalar_at_def Let_def)+

definition tls_of :: "connection_config \<Rightarrow> vless_settings \<Rightarrow> string \<Rightarrow> string \<Rightarrow> json" where
  "tls_of cfg v security key = (case xray_tls cfg v security key of [] \<Rightarrow> JNull | (k, t) # _ \<Rightarrow> t)"

lemma xray_stream_tls:
  assumes "network \<in> networks"
  shows "json_at (xray_stream cfg v network security key) [if security = ''reality'' then ''realitySettings'' else ''tlsSettings'']
     = tls_of cfg v security key"
proof -
  have "map_of (add_xray_transport network v) (if security = ''reality'' then ''realitySettings'' else ''tlsSettings'') = None"
    using assms by (cases rule: networks_cases) (simp_all add: add_xray_transport_def Let_def)
  then show ?thesis by (auto simp: xray_stream_def xray_tls_def tls_of_def map_add_def)
qed

lemma xray_tls_reads:
  assumes "security \<in> securities"
  shows "scalar_at (tls_of cfg v security key) [''serverName''] = (if security \<noteq> ''none'' then server_name cfg else [])"
    "json_at (tls_of cfg v security key) [''allowInsecure''] = JBool True \<longleftrightarrow> security = ''tls'' \<and> \<not> tls_verify (cfg_tls cfg)"
    "json_at (tls_of cfg v security key) [''alpn''] = (if security = ''tls'' then JArr (map JStr (tls_alpn (cfg_tls cfg))) else JNull)"
    "scalar_at (tls_of cfg v security key) [''fingerprint''] = (if security \<noteq> ''none'' then vless_fingerprint (tls_fingerprint (cfg_tls cfg)) else [])"
    "scalar_at (tls_of cfg v security key) [''password''] = (if security = ''reality'' then key else [])"
    "scalar_at (tls_of cfg v security key) [''shortId''] = (if security = ''reality'' then or_default [] (vl_reality_short_id v) else [])"
  by (rule securities_cases [OF assms]; simp add: tls_of_def xray_tls_def xray_tls_settings_def scalar_at_def)+

lemma xray_settings_reads:
  "scalar_at (xray_settings cfg v) [''address''] = cfg_host cfg"
  "scalar_at (xray_settings cfg v) [''port''] = show_nat (unat (cfg_port cfg))"
  "scalar_at (xray_settings cfg v) [''id''] = vl_uuid v"
  "scalar_at (xray_settings cfg v) [''flow''] = (if eq_ignore_ascii_case (vl_flow v) ''none'' then [] else vl_flow v)"
  by (simp_all add: xray_settings_def scalar_at_def jport_def flow_entry_def)

lemma xray_stream_reads:
  "scalar_at (xray_stream cfg v network security key) [''method''] = xray_network network"
  "scalar_at (xray_stream cfg v network security key) [''security''] = security"
  by (simp_all add: xray_stream_def scalar_at_def)

lemma xray_network_back:
  assumes "network \<in> networks"
  shows "(let n = xray_network network in if n = ''raw'' then ''tcp'' else if n = ''websocket'' then ''ws'' else n) = network"
  using assms by (cases rule: networks_cases) (simp_all add: xray_network_def)

lemma xray_config_reads:
  assumes "vless_settings_of cfg = Inr v" and "effective_network cfg (vl_network v) = network" and net: "network \<in> networks"
    and "effective_security cfg (vl_security v) = security" and sec: "security \<in> securities"
    and key: "security = ''reality'' \<Longrightarrow> vl_reality_public_key v = Some key"
  shows "\<exists>x. build_xray_config cfg p = Inr x \<and> xray_tunnel x = tunnel_of cfg v network security
     \<and> inbound_of x ''port'' = Some (''127.0.0.1'', show_nat (unat p))"
proof (intro exI conjI)
  let ?x = "JObj
            [(''log'', JObj [(''loglevel'', JStr ''warning'')]),
             (''inbounds'', JArr [JObj [(''listen'', JStr ''127.0.0.1''), (''port'', jport p), (''protocol'', JStr ''socks''),
                (''settings'', JObj [(''auth'', JStr ''noauth''), (''udp'', JBool False)])]]),
             (''outbounds'', JArr [JObj [(''tag'', JStr ''vless-out''), (''protocol'', JStr ''vless''), (''settings'', xray_settings cfg v),
                (''streamSettings'', xray_stream cfg v network security key)]])]"
  show "build_xray_config cfg p = Inr ?x" by (rule build_xray_config_eq) (use assms in simp_all)
  have s: "json_at (json_first (json_at ?x [''outbounds''])) [''settings''] = xray_settings cfg v"
    and t: "json_at (json_first (json_at ?x [''outbounds''])) [''streamSettings''] = xray_stream cfg v network security key"
    by simp_all
  show "xray_tunnel ?x = tunnel_of cfg v network security"
    unfolding xray_tunnel_def Let_def [of "json_first _"] s t Let_def [of "xray_settings _ _"] Let_def [of "xray_stream _ _ _ _ _"]
      xray_stream_reads xray_network_back [OF net] Let_def [of network] Let_def [of security] xray_stream_options [OF net] xray_stream_tls [OF net]
      Let_def [of "options_of _ _"] Let_def [of "tls_of _ _ _ _"] xray_settings_reads options_reads [OF net] xray_tls_reads [OF sec]
    using key by (simp add: tunnel_of_def Let_def)
  show "inbound_of ?x ''port'' = Some (''127.0.0.1'', show_nat (unat p))"
    by (simp add: inbound_of_def scalar_at_def jport_def)
qed

definition sing_tls :: "connection_config \<Rightarrow> vless_settings \<Rightarrow> string \<Rightarrow> json" where
  "sing_tls cfg v security = (case sing_box_tls_settings cfg v security of Inr t \<Rightarrow> if security = ''none'' then JNull else t | _ \<Rightarrow> JNull)"

definition sing_transport :: "string \<Rightarrow> vless_settings \<Rightarrow> json" where
  "sing_transport network v = (case sing_box_transport network v of Inr t \<Rightarrow> t | _ \<Rightarrow> JNull)"

definition sing_outbound :: "connection_config \<Rightarrow> vless_settings \<Rightarrow> string \<Rightarrow> string \<Rightarrow> json" where
  "sing_outbound cfg v network security =
     JObj ([(''type'', JStr ''vless''), (''tag'', JStr ''vless-out''), (''server'', JStr (cfg_host cfg)),
            (''server_port'', jport (cfg_port cfg)), (''uuid'', JStr (vl_uuid v)), (''network'', JStr ''tcp'')]
       @ flow_entry v @ (if security \<noteq> ''none'' then [(''tls'', sing_tls cfg v security)] else [])
       @ (if network \<noteq> ''tcp'' then [(''transport'', sing_transport network v)] else []))"

lemma sing_box_tls_total:
  assumes "security = ''reality'' \<Longrightarrow> vl_reality_public_key v = Some key" and "security \<noteq> ''none''"
  shows "sing_box_tls_settings cfg v security = Inr (sing_tls cfg v security)"
proof (cases "security = ''reality''")
  case True
  then show ?thesis using assms by (simp add: sing_tls_def sing_box_tls_settings_def Let_def reality_key_def)
next
  case False
  then show ?thesis using assms by (simp add: sing_tls_def sing_box_tls_settings_def Let_def)
qed

lemma sing_box_transport_total:
  assumes "network \<in> networks" and "network \<noteq> ''xhttp''" and "network \<noteq> ''tcp''"
  shows "sing_box_transport network v = Inr (sing_transport network v)"
  using assms by (cases rule: networks_cases) (simp_all add: sing_transport_def sing_box_transport_def Let_def)

lemma build_sing_box_config_eq:
  assumes "vless_settings_of cfg = Inr v" and "effective_network cfg (vl_network v) = network" and "network \<in> networks"
    and "effective_security cfg (vl_security v) = security" and "security = ''reality'' \<Longrightarrow> vl_reality_public_key v = Some key"
    and "network \<noteq> ''xhttp''" and "\<not> eq_ignore_ascii_case (vl_flow v) ''xtls-rprx-vision-udp443''"
  shows "build_sing_box_config cfg p = Inr (JObj
                [(''log'', JObj [(''level'', JStr ''warn'')]),
                 (''inbounds'', JArr [JObj [(''type'', JStr ''socks''), (''tag'', JStr ''socks-in''), (''listen'', JStr ''127.0.0.1''),
                    (''listen_port'', jport p)]]),
                 (''outbounds'', JArr [sing_outbound cfg v network security]),
                 (''route'', JObj [(''final'', JStr ''vless-out'')])])"
proof -
  have t: "(if security \<noteq> ''none'' then and_then (sing_box_tls_settings cfg v security) (\<lambda>t. Inr [(''tls'', t)]) else Inr [])
      = Inr (if security \<noteq> ''none'' then [(''tls'', sing_tls cfg v security)] else [])"
    using sing_box_tls_total [OF assms(5)] by simp
  have r: "(if network \<noteq> ''tcp'' then and_then (sing_box_transport network v) (\<lambda>t. Inr [(''transport'', t)]) else Inr [])
      = Inr (if network \<noteq> ''tcp'' then [(''transport'', sing_transport network v)] else [])"
    using sing_box_transport_total [OF assms(3,6)] by simp
  show ?thesis
    unfolding build_sing_box_config_def assms(1) and_then.simps Let_def assms(2,4) if_not_P [OF assms(6)] if_not_P [OF assms(7)] t r
    by (simp only: sing_outbound_def append.simps)
qed

lemma sing_absent [simp]: "sing_tls cfg v ''none'' = JNull" "sing_transport ''tcp'' v = JNull"
  by (simp_all add: sing_tls_def sing_box_tls_settings_def sing_transport_def sing_box_transport_def Let_def)

lemma sing_outbound_reads:
  "scalar_at (sing_outbound cfg v network security) [''server''] = cfg_host cfg"
  "scalar_at (sing_outbound cfg v network security) [''server_port''] = show_nat (unat (cfg_port cfg))"
  "scalar_at (sing_outbound cfg v network security) [''uuid''] = vl_uuid v"
  "scalar_at (sing_outbound cfg v network security) [''flow''] = (if eq_ignore_ascii_case (vl_flow v) ''none'' then [] else vl_flow v)"
  "json_at (sing_outbound cfg v network security) [''tls''] = sing_tls cfg v security"
  "json_at (sing_outbound cfg v network security) [''transport''] = sing_transport network v"
  by (simp_all add: sing_outbound_def scalar_at_def jport_def flow_entry_def)

lemma sing_transport_reads:
  fixes v :: vless_settings
  assumes "network \<in> networks" and "network \<noteq> ''xhttp''"
  shows "(if sing_transport network v = JNull then ''tcp'' else scalar_at (sing_transport network v) [''type'']) = network"
    "scalar_at (sing_transport network v) [''path''] = (if network = ''ws'' \<or> network = ''httpupgrade'' \<or> network = ''xhttp'' then or_default ''/'' (vl_path v) else [])"
    "scalar_at (sing_transport network v) (if network = ''ws'' then [''headers'', ''Host''] else [''host''])
       = (if network = ''ws'' \<or> network = ''httpupgrade'' \<or> network = ''xhttp'' then or_default [] (vl_host v) else [])"
    "scalar_at (sing_transport network v) [''service_name''] = (if network = ''grpc'' then or_default [] (vl_grpc_service_name v) else [])"
  by (rule networks_cases [OF assms(1)]; use assms(2) in \<open>simp add: sing_transport_def sing_box_transport_def scalar_at_def Let_def split: option.split\<close>)+

lemma sing_tls_reads:
  fixes v :: vless_settings and cfg :: connection_config
  assumes "security \<in> securities" and key: "security = ''reality'' \<longrightarrow> vl_reality_public_key v = Some key"
  shows "(if json_at (sing_tls cfg v security) [''enabled''] \<noteq> JBool True then ''none''
          else if json_at (sing_tls cfg v security) [''reality'', ''enabled''] = JBool True then ''reality'' else ''tls'') = security"
    "scalar_at (sing_tls cfg v security) [''server_name''] = (if security \<noteq> ''none'' then server_name cfg else [])"
    "json_at (sing_tls cfg v security) [''insecure''] = (if security \<noteq> ''none'' then JBool (\<not> tls_verify (cfg_tls cfg)) else JNull)"
    "json_at (sing_tls cfg v security) [''alpn''] = (if security \<noteq> ''none'' then JArr (map JStr (tls_alpn (cfg_tls cfg))) else JNull)"
    "scalar_at (sing_tls cfg v security) [''utls'', ''fingerprint''] = (if security \<noteq> ''none'' then vless_fingerprint (tls_fingerprint (cfg_tls cfg)) else [])"
    "scalar_at (sing_tls cfg v security) [''reality'', ''public_key''] = (if security = ''reality'' then key else [])"
    "scalar_at (sing_tls cfg v security) [''reality'', ''short_id''] = (if security = ''reality'' then or_default [] (vl_reality_short_id v) else [])"
  by (rule securities_cases [OF assms(1)]; use key in \<open>simp add: sing_tls_def sing_box_tls_settings_def scalar_at_def reality_key_def Let_def\<close>)+

lemma sing_box_config_reads:
  assumes "vless_settings_of cfg = Inr v" and "effective_network cfg (vl_network v) = network" and net: "network \<in> networks"
    and "effective_security cfg (vl_security v) = security" and sec: "security \<in> securities"
    and key: "security = ''reality'' \<Longrightarrow> vl_reality_public_key v = Some key"
    and "network \<noteq> ''xhttp''" and "\<not> eq_ignore_ascii_case (vl_flow v) ''xtls-rprx-vision-udp443''"
  shows "\<exists>x. build_sing_box_config cfg p = Inr x \<and> sing_box_tunnel x = tunnel_of cfg v network security
     \<and> inbound_of x ''listen_port'' = Some (''127.0.0.1'', show_nat (unat p))"
proof (intro exI conjI)
  let ?x = "JObj
                [(''log'', JObj [(''level'', JStr ''warn'')]),
                 (''inbounds'', JArr [JObj [(''type'', JStr ''socks''), (''tag'', JStr ''socks-in''), (''listen'', JStr ''127.0.0.1''),
                    (''listen_port'', jport p)]]),
                 (''outbounds'', JArr [sing_outbound cfg v network security]),
                 (''route'', JObj [(''final'', JStr ''vless-out'')])]"
  show "build_sing_box_config cfg p = Inr ?x" by (rule build_sing_box_config_eq) (use assms in simp_all)
  have key': "security = ''reality'' \<longrightarrow> vl_reality_public_key v = Some key" using key by blast
  have o: "json_first (json_at ?x [''outbounds'']) = sing_outbound cfg v network security" by simp
  show "sing_box_tunnel ?x = tunnel_of cfg v network security"
    unfolding sing_box_tunnel_def o Let_def [of "sing_outbound _ _ _ _"] sing_outbound_reads Let_def [of "sing_transport _ _"] Let_def [of "sing_tls _ _ _"]
      sing_transport_reads [OF net assms(7)] sing_tls_reads [OF sec key'] Let_def [of network] Let_def [of security]
    using key by (simp add: tunnel_of_def Let_def)
  show "inbound_of ?x ''listen_port'' = Some (''127.0.0.1'', show_nat (unat p))"
    by (simp add: inbound_of_def scalar_at_def jport_def)
qed

lemma sing_box_refuses:
  assumes "vless_settings_of cfg = Inr v"
    and "effective_network cfg (vl_network v) = ''xhttp'' \<or> eq_ignore_ascii_case (vl_flow v) ''xtls-rprx-vision-udp443''"
  shows "\<not> is_ok (build_sing_box_config cfg p)"
  using assms(2)
proof
  assume "effective_network cfg (vl_network v) = ''xhttp''"
  then show ?thesis by (simp add: build_sing_box_config_def Let_def assms(1))
next
  assume "eq_ignore_ascii_case (vl_flow v) ''xtls-rprx-vision-udp443''"
  then show ?thesis by (simp add: build_sing_box_config_def Let_def assms(1))
qed

text \<open>Validation leaves only networks and kinds of security that the builders know.\<close>

lemma lower_keywords:
  "to_ascii_lowercase ''tcp'' = ''tcp''" "to_ascii_lowercase ''raw'' = ''raw''" "to_ascii_lowercase ''none'' = ''none''"
  "to_ascii_lowercase ''ws'' = ''ws''" "to_ascii_lowercase ''websocket'' = ''websocket''" "to_ascii_lowercase ''grpc'' = ''grpc''"
  "to_ascii_lowercase ''httpupgrade'' = ''httpupgrade''" "to_ascii_lowercase ''http_upgrade'' = ''http_upgrade''"
  "to_ascii_lowercase ''xhttp'' = ''xhttp''" "to_ascii_lowercase ''tls'' = ''tls''" "to_ascii_lowercase ''reality'' = ''reality''"
  "to_ascii_lowercase [] = []" "to_ascii_lowercase n = [] \<longleftrightarrow> n = []"
  by (simp_all add: to_ascii_lowercase_def ascii_lower_def)

lemma normalize_network_known:
  "to_ascii_lowercase n \<in> {''tcp'', ''raw'', ''ws'', ''websocket'', ''grpc'', ''httpupgrade'', ''xhttp''} \<Longrightarrow> normalize_network n \<in> networks"
  by (elim insertE emptyE) (simp_all add: normalize_network_def networks_def eq_ignore_ascii_case_def lower_keywords)

lemma effective_network_known:
  "to_ascii_lowercase n \<in> {''tcp'', ''raw'', ''ws'', ''websocket'', ''grpc'', ''httpupgrade'', ''xhttp''} \<Longrightarrow> effective_network cfg n \<in> networks"
  using normalize_network_known [of n] by (auto simp: effective_network_def networks_def split: transport.split)

lemma effective_security_known:
  assumes "to_ascii_lowercase s \<in> {''none'', [], ''tls'', ''reality''}"
  shows "effective_security cfg s \<in> securities"
    and "effective_security cfg s = ''reality'' \<longleftrightarrow> to_ascii_lowercase s = ''reality''"
  using assms by (auto simp: effective_security_def normalize_security_def securities_def eq_ignore_ascii_case_def lower_keywords split: transport.splits if_splits)

lemma valid_vless:
  assumes "valid_config env cfg" and "cfg_settings cfg = SetVless s"
  shows "to_ascii_lowercase (vl_network s) \<in> {''tcp'', ''raw'', ''ws'', ''websocket'', ''grpc'', ''httpupgrade'', ''xhttp''}"
    and "to_ascii_lowercase (vl_security s) \<in> {''none'', [], ''tls'', ''reality''}"
    and "to_ascii_lowercase (vl_security s) = ''reality'' \<Longrightarrow> vl_reality_public_key s \<noteq> None"
proof -
  have "first_error (vless_guards env cfg s) = Inr ()"
    using assms valid_settings_match [OF assms(1)] by (cases "cfg_protocol cfg") (simp_all add: valid_config_groups settings_guards_def)
  then show "to_ascii_lowercase (vl_network s) \<in> {''tcp'', ''raw'', ''ws'', ''websocket'', ''grpc'', ''httpupgrade'', ''xhttp''}"
    "to_ascii_lowercase (vl_security s) \<in> {''none'', [], ''tls'', ''reality''}"
    "to_ascii_lowercase (vl_security s) = ''reality'' \<Longrightarrow> vl_reality_public_key s \<noteq> None"
    unfolding vless_guards_def Let_def first_error_append first_error_Cons reject_simps not_not
    by (simp_all only: reality_guards_def first_error_Cons reject_simps if_True) (auto split: option.splits)
qed


definition example_vless :: connection_config where
  "example_vless = (new_vless 1 0 ''v'' ''x.io'' 443 ''id'')
     \<lparr> cfg_transport := Wss, cfg_settings := SetVless
         \<lparr> vl_uuid = ''id'', vl_encryption = ''none'', vl_flow = ''xtls-rprx-vision'', vl_network = ''tcp'', vl_security = ''tls'',
           vl_host = None, vl_path = Some ''/t'', vl_reality_public_key = None, vl_reality_short_id = None,
           vl_grpc_service_name = None, vl_xhttp_mode = None, vl_spider_x = None \<rparr> \<rparr>"

definition example_vless_env :: config_env where
  "example_vless_env = \<lparr> uuid_parse = (\<lambda>_. Some 1), uuid_show = (\<lambda>_. []), ipnet_parse = (\<lambda>_. None), str_debug = (\<lambda>s. s) \<rparr>"

lemma example_vless_valid: "valid_config example_vless_env example_vless"
proof -
  have "trim ''v'' = ''v''" "trim ''x.io'' = ''x.io''"
    by (rule trim_graph; simp add: graph_char_def)+
  moreover have "\<not> any_whitespace ''x.io''" by (rule graph_no_whitespace) (simp add: graph_char_def)
  moreover have "(1080 :: u16) \<noteq> 8080" "(443 :: u16) \<noteq> 0" "(1080 :: u16) \<noteq> 0" "(8080 :: u16) \<noteq> 0" by simp_all
  moreover have "to_ascii_lowercase ''xtls-rprx-vision'' = ''xtls-rprx-vision''"
    by (simp add: to_ascii_lowercase_def ascii_lower_def)
  ultimately show ?thesis
    by (simp add: valid_config_groups guard_defs example_vless_def example_vless_env_def new_vless_def default_tls_settings_def
        default_dns_settings_def default_proxy_share_settings_def default_udpgw_settings_def listen_literals_def lower_keywords)
qed

lemma example_vless_effective:
  "effective_network example_vless ''tcp'' = ''ws''" "effective_security example_vless ''tls'' = ''tls''"
  by (simp_all add: effective_network_def effective_security_def normalize_security_def example_vless_def eq_ignore_ascii_case_def lower_keywords)


end
