(* ===== verification/Vless_Engine.thy ===== *)
theory Vless_Engine
  imports Vless_Config
begin

text \<open>
  The running VLESS engine: the SOCKS dialogue with it, and that its start leaves neither files nor processes behind.
\<close>

subsection \<open>The dialogue with the engine\<close>

definition socks_dest :: "string \<Rightarrow> target" where
  "socks_dest host = (case parse_ip host of Some (IpV4 a) \<Rightarrow> TV4 a | Some (IpV6 a) \<Rightarrow> TV6 a | None \<Rightarrow> TDomain host)"

definition socks_host_ok :: "string \<Rightarrow> bool" where
  "socks_host_ok host \<longleftrightarrow> parse_ip host \<noteq> None \<or> (host \<noteq> [] \<and> length host \<le> 255)"

text \<open>An address of a SOCKS reply with its port: type, address and two bytes.\<close>

fun bound_ok :: "bytes \<Rightarrow> bool" where
  "bound_ok [] = False"
| "bound_ok (atyp # b) \<longleftrightarrow> (atyp = 1 \<and> length b = 6) \<or> (atyp = 4 \<and> length b = 18)
     \<or> (atyp = 3 \<and> b \<noteq> [] \<and> length b = unat (hd b) + 3)"

lemma socks_request_Inr:
  "socks_request host port = (if socks_host_ok host
     then Inr ([VER, CMD_CONNECT, 0] @ target_bytes (socks_dest host) @ to_be 2 (unat port)) else Inl (Upstream ''invalid SOCKS destination host''))"
  by (auto simp: socks_request_def socks_host_ok_def socks_dest_def socks5_consts split: option.splits ip_addr.splits)

lemma four_bytes: "length xs = 4 \<longleftrightarrow> (\<exists>a b c d. xs = [a, b, c, d])"
  by (auto simp: eval_nat_numeral length_Suc_conv)

lemma reply_address_ok:
  assumes "bound_ok (atyp # b)"
  shows "\<exists>n c. length c = n + 2 \<and> (\<forall>s r. rx s = b @ r \<longrightarrow> reply_address_len conv atyp s = (Inr n, s\<lparr>rx := c @ r\<rparr>))"
proof -
  consider "atyp = 1" "length b = 6" | "atyp = 4" "length b = 18" | n c where "atyp = 3" "b = n # c" "length c = unat n + 2"
    using assms by (cases b) auto
  then show ?thesis
  proof cases
    case 1
    then show ?thesis by (intro exI [of _ 4] exI [of _ b]) (simp add: reply_address_len_def io_defs rx_same)
  next
    case 2
    then show ?thesis by (intro exI [of _ 16] exI [of _ b]) (simp add: reply_address_len_def io_defs rx_same)
  next
    case 3
    then show ?thesis
      by (intro exI [of _ "unat n"] exI [of _ c]) (simp add: reply_address_len_def io_defs io_bind_read_exact)
  qed
qed

lemma read_socks_reply_ok:
  assumes "rx s = [5, 0, rsv] @ a @ r" and "bound_ok a"
  shows "read_socks_reply conv s = (Inr (), s\<lparr>rx := r\<rparr>)"
proof -
  obtain atyp b where a: "a = atyp # b" using assms(2) by (cases a) auto
  obtain n c where c: "length c = n + 2" "\<And>s r. rx s = b @ r \<Longrightarrow> reply_address_len conv atyp s = (Inr n, s\<lparr>rx := c @ r\<rparr>)"
    using reply_address_ok [of atyp b conv] assms(2) a by blast
  have "rx s = [5, 0, rsv, atyp] @ (b @ r)" using assms(1) a by simp
  then have "read_socks_reply conv s = io_bind (reply_address_len conv atyp) (\<lambda>address_len.
      io_bind (read_exact conv (address_len + 2)) (\<lambda>_. io_return ())) (s\<lparr>rx := b @ r\<rparr>)"
    by (simp add: read_socks_reply_def io_bind_read_exact [of _ 4])
  also have "\<dots> = (Inr (), s\<lparr>rx := r\<rparr>)"
    using c by (simp add: io_bind_eq [of "reply_address_len conv atyp"] io_defs)
  finally show ?thesis .
qed

lemma read_socks_reply_InrD:
  assumes "read_socks_reply conv s = (Inr u, t)"
  shows "\<exists>rsv a. rx s = [5, 0, rsv] @ a @ rx t \<and> bound_ok a"
proof -
  obtain reply s1 n s2 where
    4: "read_exact conv 4 s = (Inr reply, s1)" "reply ! 0 = 5" "reply ! 1 = 0"
      "reply_address_len conv (reply ! 3) s1 = (Inr n, s2)" "n + 2 \<le> length (rx s2)" "t = s2\<lparr>rx := drop (n + 2) (rx s2)\<rparr>"
    using assms by (auto simp: read_socks_reply_def io_bind_Inr io_defs read_exact_Inr split: if_splits)
  then obtain rsv atyp where r: "rx s = [5, 0, rsv, atyp] @ rx s1" "reply ! 3 = atyp"
    using read_exact_InrD [OF 4(1)] by (auto simp: four_bytes)
  have t: "rx s2 = take (n + 2) (rx s2) @ rx t" "length (take (n + 2) (rx s2)) = n + 2" using 4(5,6) by simp_all
  consider "atyp = 1 \<and> n = 4 \<or> atyp = 4 \<and> n = 16" "s2 = s1" | k where "atyp = 3" "rx s1 = k # rx s2" "n = unat k"
    using 4(4) by (auto simp: r(2) reply_address_len_def io_defs io_bind_Inr length_1_conv split: if_splits dest!: read_exact_InrD)
  then have "\<exists>b. rx s1 = b @ rx t \<and> bound_ok (atyp # b)"
  proof cases
    case 1
    then show ?thesis using t by (intro exI [of _ "take (n + 2) (rx s2)"]) auto
  next
    case 2
    then show ?thesis using t by (intro exI [of _ "k # take (n + 2) (rx s2)"]) auto
  qed
  then obtain b where b: "rx s1 = b @ rx t" "bound_ok (atyp # b)" by blast
  show ?thesis using r(1) b(2) by (intro exI [of _ rsv] exI [of _ "atyp # b"]) (simp add: b(1))
qed

lemma hello_split:
  "client_hello auth_none [AUTH_NONE] t port = [5, 1, 0] @ [VER, CMD_CONNECT, 0] @ target_bytes t @ to_be 2 (unat port)"
  by (simp add: client_hello_def auth_none_def socks5_consts)

lemma dialogue_ok:
  assumes "tx_cap s = None" and "socks_host_ok host" and "rx s = [5, 0, 5, 0, rsv] @ a @ r" and "bound_ok a"
  shows "socks_dialogue txt host port s = (Inr (), s\<lparr>rx := r, tx := tx s @ client_hello auth_none [AUTH_NONE] (socks_dest host) port\<rparr>)"
proof -
  let ?s = "s\<lparr>rx := [5, 0, rsv] @ a @ r, tx := tx s @ client_hello auth_none [AUTH_NONE] (socks_dest host) port\<rparr>"
  have "socks_dialogue txt host port s = read_socks_reply (\<lambda>e. Upstream (txt e)) ?s"
    using assms(1-3)
    by (simp add: socks_dialogue_def socks_request_Inr io_bind_read_exact [of _ 2] Let_def io_lift_def hello_split io_bind_eq [of "io_lift _"])
  then show ?thesis using read_socks_reply_ok [of ?s rsv a r] assms(4) by simp
qed

lemma dialogue_InrD:
  assumes "tx_cap s = None" and "socks_dialogue txt host port s = (Inr (), t)"
  shows "socks_host_ok host \<and> (\<exists>rsv a. rx s = [5, 0, 5, 0, rsv] @ a @ rx t \<and> bound_ok a)
    \<and> t = s\<lparr>rx := rx t, tx := tx s @ client_hello auth_none [AUTH_NONE] (socks_dest host) port\<rparr>"
proof -
  obtain s1 where s1: "rx s = [5, 0] @ rx s1" "socks_host_ok host"
    "read_socks_reply (\<lambda>e. Upstream (txt e)) s1 = (Inr (), t)"
  proof (rule that)
    let ?s1 = "s\<lparr>rx := drop 2 (rx s), tx := tx s @ client_hello auth_none [AUTH_NONE] (socks_dest host) port\<rparr>"
    have *: "take 2 (rx s) = [5, 0]" "socks_host_ok host" "read_socks_reply (\<lambda>e. Upstream (txt e)) ?s1 = (Inr (), t)"
      using assms
      by (auto simp: socks_dialogue_def Let_def socks_request_Inr io_bind_read_exact io_bind_def [of "io_lift _"] io_defs hello_split split: if_splits)
    show "rx s = [5, 0] @ rx ?s1" using append_take_drop_id [of 2 "rx s"] *(1) by simp
    show "socks_host_ok host" "read_socks_reply (\<lambda>e. Upstream (txt e)) ?s1 = (Inr (), t)" using * by simp_all
  qed
  obtain rsv a where a: "rx s1 = [5, 0, rsv] @ a @ rx t" "bound_ok a" using read_socks_reply_InrD [OF s1(3)] by blast
  then have "socks_dialogue txt host port s = (Inr (), s\<lparr>rx := rx t, tx := tx s @ client_hello auth_none [AUTH_NONE] (socks_dest host) port\<rparr>)"
    using s1(1,2) by (intro dialogue_ok [OF assms(1), where rsv = rsv and a = a]) simp_all
  then have "t = s\<lparr>rx := rx t, tx := tx s @ client_hello auth_none [AUTH_NONE] (socks_dest host) port\<rparr>" using assms(2) by simp
  then show ?thesis using s1(1,2) a by auto
qed

text \<open>
  C31. The SOCKS client and a SOCKS server without authentication understand each other. The dialogue succeeds exactly if the host can be
  named and the engine answers the greeting with no authentication and the request with success and one complete bound address of any
  type; it then has consumed these bytes and nothing of what follows, and has written a hello that the server of this program reads back as
  the same host (or the canonical text of the same IP address) and port, whatever the payload behind it.
\<close>

theorem vless_socks_dialogue:
  fixes port :: u16
  assumes "tx_cap s = None" and "valid_utf8 (as_bytes host)"
  defines "hello \<equiv> client_hello auth_none [AUTH_NONE] (socks_dest host) port"
  shows "(socks_dialogue txt host port s = (Inr (), t) \<longleftrightarrow>
            socks_host_ok host \<and> (\<exists>rsv a. rx s = [5, 0, 5, 0, rsv] @ a @ rx t \<and> bound_ok a) \<and> t = s\<lparr>rx := rx t, tx := tx s @ hello\<rparr>)
       \<and> (socks_host_ok host \<longrightarrow> socks5_handshake auth_none (stream_of (hello @ payload))
            = (Inr (target_host (socks_dest host), port), (stream_of payload)\<lparr>tx := [5, 0]\<rparr>))"
  unfolding hello_def
proof (intro conjI iffI impI)
  assume "socks_dialogue txt host port s = (Inr (), t)"
  from dialogue_InrD [OF assms(1) this]
  show "socks_host_ok host" "\<exists>rsv a. rx s = [5, 0, 5, 0, rsv] @ a @ rx t \<and> bound_ok a"
    "t = s\<lparr>rx := rx t, tx := tx s @ client_hello auth_none [AUTH_NONE] (socks_dest host) port\<rparr>" by simp_all
next
  assume "socks_host_ok host \<and> (\<exists>rsv a. rx s = [5, 0, 5, 0, rsv] @ a @ rx t \<and> bound_ok a)
    \<and> t = s\<lparr>rx := rx t, tx := tx s @ client_hello auth_none [AUTH_NONE] (socks_dest host) port\<rparr>"
  then show "socks_dialogue txt host port s = (Inr (), t)" using dialogue_ok [OF assms(1)] by metis
next
  assume ok: "socks_host_ok host"
  have "hello_ok auth_none [AUTH_NONE] (socks_dest host)"
    using ok assms(2) by (auto simp: hello_ok_def auth_none_def socks_dest_def socks_host_ok_def split: option.splits ip_addr.splits)
  from socks5_handshake_ok [OF this, of "stream_of (client_hello auth_none [AUTH_NONE] (socks_dest host) port @ payload)" port payload]
  show "socks5_handshake auth_none (stream_of (client_hello auth_none [AUTH_NONE] (socks_dest host) port @ payload))
      = (Inr (target_host (socks_dest host), port), (stream_of payload)\<lparr>tx := [5, 0]\<rparr>)"
    by (simp add: server_hello_def auth_none_def socks5_consts stream_of_def)
qed

theorem vless_socks_dialogue_witness:
  "socks_dialogue (\<lambda>_. []) ''x.io'' 443 (stream_of ([5, 0] @ reply_bytes REP_SUCCESS @ [7]))
     = (Inr (), (stream_of [7])\<lparr>tx := client_hello auth_none [AUTH_NONE] (TDomain ''x.io'') 443\<rparr>)
   \<and> socks5_handshake auth_none (stream_of (client_hello auth_none [AUTH_NONE] (TDomain ''x.io'') 443 @ [1, 2]))
     = (Inr (''x.io'', 443), (stream_of [1, 2])\<lparr>tx := [5, 0]\<rparr>)"
proof -
  have p: "parse_ip ''x.io'' = None" by (rule parse_ip_name) simp_all
  have u: "valid_utf8 (as_bytes ''x.io'')" by (rule valid_utf8_ascii) (simp add: as_bytes_def byte_of_def)
  have ok: "socks_host_ok ''x.io''" by (simp add: socks_host_ok_def)
  have d: "socks_dest ''x.io'' = TDomain ''x.io''" by (simp add: socks_dest_def p)
  have "rx (stream_of ([5, 0] @ reply_bytes REP_SUCCESS @ [7])) = [5, 0, 5, 0, 0] @ [1, 0, 0, 0, 0, 0, 0] @ [7]"
    "bound_ok [1, 0, 0, 0, 0, 0, 0]" by (simp_all add: reply_bytes_def socks5_consts)
  then have "\<exists>rsv a. rx (stream_of ([5, 0] @ reply_bytes REP_SUCCESS @ [7])) = [5, 0, 5, 0, rsv] @ a @ [7] \<and> bound_ok a" by blast
  then show ?thesis
    using ok vless_socks_dialogue [of "stream_of ([5, 0] @ reply_bytes REP_SUCCESS @ [7])" "''x.io''" "\<lambda>_. []" 443
        "(stream_of [7])\<lparr>tx := client_hello auth_none [AUTH_NONE] (TDomain ''x.io'') 443\<rparr>" "[1, 2]"] u
    by (simp add: d stream_of_def)
qed

subsection \<open>Files and processes\<close>

text \<open>
  What the operating system promises, over the files of the temporary directory and the engine processes that run: a new file was not there
  before, a new process has a number of its own, a kill ends the process, and nothing else creates files or processes.
\<close>

definition engine_os :: "('w \<Rightarrow> string set) \<Rightarrow> ('w \<Rightarrow> nat set) \<Rightarrow> ('w, 'a) vless_env_scheme \<Rightarrow> bool" where
  "engine_os files engines env \<longleftrightarrow>
     (\<forall>w b w1. bind_loopback env w = (b, w1) \<longrightarrow> files w1 = files w \<and> engines w1 \<subseteq> engines w)
   \<and> (\<forall>w u w1. new_v4 env w = (u, w1) \<longrightarrow> files w1 = files w \<and> engines w1 \<subseteq> engines w)
   \<and> (\<forall>p w c w1. create_new_0600 env p w = (c, w1) \<longrightarrow> (case c of
         Inl _ \<Rightarrow> files w1 = files w \<and> engines w1 \<subseteq> engines w
       | Inr _ \<Rightarrow> p \<notin> files w \<and> files w1 = insert p (files w) \<and> engines w1 \<subseteq> engines w))
   \<and> (\<forall>p bs w f w1. write_flush env p bs w = (f, w1) \<longrightarrow> files w1 = files w \<and> engines w1 \<subseteq> engines w)
   \<and> (\<forall>p w. files (unlink env p w) = files w - {p} \<and> engines (unlink env p w) \<subseteq> engines w)
   \<and> (\<forall>prog args w q w1. spawn env prog args w = (q, w1) \<longrightarrow> (case q of
         Inl _ \<Rightarrow> files w1 = files w \<and> engines w1 \<subseteq> engines w
       | Inr pid \<Rightarrow> pid \<notin> engines w \<and> files w1 = files w \<and> engines w1 \<subseteq> insert pid (engines w)))
   \<and> (\<forall>pid w x w1. try_wait env pid w = (x, w1) \<longrightarrow> files w1 = files w \<and> engines w1 \<subseteq> engines w)
   \<and> (\<forall>port w y w1. probe env port w = (y, w1) \<longrightarrow> files w1 = files w \<and> engines w1 \<subseteq> engines w)
   \<and> (\<forall>pid w. files (start_kill env pid w) = files w \<and> engines (start_kill env pid w) \<subseteq> engines w - {pid})"

lemma engine_osD:
  assumes "engine_os files engines env"
  shows "bind_loopback env w = (b, w1) \<Longrightarrow> files w1 = files w \<and> engines w1 \<subseteq> engines w"
    and "new_v4 env w = (u, w1) \<Longrightarrow> files w1 = files w \<and> engines w1 \<subseteq> engines w"
    and "create_new_0600 env p w = (c, w1) \<Longrightarrow> (case c of
         Inl _ \<Rightarrow> files w1 = files w \<and> engines w1 \<subseteq> engines w
       | Inr _ \<Rightarrow> p \<notin> files w \<and> files w1 = insert p (files w) \<and> engines w1 \<subseteq> engines w)"
    and "write_flush env p bs w = (f, w1) \<Longrightarrow> files w1 = files w \<and> engines w1 \<subseteq> engines w"
    and "files (unlink env p w) = files w - {p}" and "engines (unlink env p w) \<subseteq> engines w"
    and "spawn env prog args w = (q, w1) \<Longrightarrow> (case q of
         Inl _ \<Rightarrow> files w1 = files w \<and> engines w1 \<subseteq> engines w
       | Inr pid \<Rightarrow> pid \<notin> engines w \<and> files w1 = files w \<and> engines w1 \<subseteq> insert pid (engines w))"
    and "try_wait env pid w = (x, w1) \<Longrightarrow> files w1 = files w \<and> engines w1 \<subseteq> engines w"
    and "probe env port w = (y, w1) \<Longrightarrow> files w1 = files w \<and> engines w1 \<subseteq> engines w"
    and "files (start_kill env pid w) = files w" and "engines (start_kill env pid w) \<subseteq> engines w - {pid}"
  proof -
  note os = assms [unfolded engine_os_def]
  show "bind_loopback env w = (b, w1) \<Longrightarrow> files w1 = files w \<and> engines w1 \<subseteq> engines w"
    using conjunct1 [OF os] by blast
  note os = conjunct2 [OF os]
  show "new_v4 env w = (u, w1) \<Longrightarrow> files w1 = files w \<and> engines w1 \<subseteq> engines w"
    using conjunct1 [OF os] by blast
  note os = conjunct2 [OF os]
  show "create_new_0600 env p w = (c, w1) \<Longrightarrow> (case c of
         Inl _ \<Rightarrow> files w1 = files w \<and> engines w1 \<subseteq> engines w
       | Inr _ \<Rightarrow> p \<notin> files w \<and> files w1 = insert p (files w) \<and> engines w1 \<subseteq> engines w)"
    using conjunct1 [OF os] by blast
  note os = conjunct2 [OF os]
  show "write_flush env p bs w = (f, w1) \<Longrightarrow> files w1 = files w \<and> engines w1 \<subseteq> engines w"
    using conjunct1 [OF os] by blast
  note os = conjunct2 [OF os]
  show "files (unlink env p w) = files w - {p}" "engines (unlink env p w) \<subseteq> engines w"
    using conjunct1 [OF os] by blast+
  note os = conjunct2 [OF os]
  show "spawn env prog args w = (q, w1) \<Longrightarrow> (case q of
         Inl _ \<Rightarrow> files w1 = files w \<and> engines w1 \<subseteq> engines w
       | Inr pid \<Rightarrow> pid \<notin> engines w \<and> files w1 = files w \<and> engines w1 \<subseteq> insert pid (engines w))"
    using conjunct1 [OF os] by blast
  note os = conjunct2 [OF os]
  show "try_wait env pid w = (x, w1) \<Longrightarrow> files w1 = files w \<and> engines w1 \<subseteq> engines w"
    using conjunct1 [OF os] by blast
  note os = conjunct2 [OF os]
  show "probe env port w = (y, w1) \<Longrightarrow> files w1 = files w \<and> engines w1 \<subseteq> engines w"
    using conjunct1 [OF os] by blast
  note os = conjunct2 [OF os]
  show "files (start_kill env pid w) = files w" "engines (start_kill env pid w) \<subseteq> engines w - {pid}"
    using os by blast+
qed

lemma await_engine_keeps:
  assumes "engine_os files engines env" and "await_engine env kind port child n w = (r, w1)"
  shows "files w1 = files w \<and> engines w1 \<subseteq> engines w"
  using assms(2)
proof (induction n arbitrary: w)
  case (Suc n)
  obtain q w2 where q: "try_wait env child w = (q, w2)" by fastforce
  obtain b w3 where b: "probe env port w2 = (b, w3)" by fastforce
  have t: "files w2 = files w" "engines w2 \<subseteq> engines w" "files w3 = files w2" "engines w3 \<subseteq> engines w2"
    using engine_osD(8) [OF assms(1) q] engine_osD(9) [OF assms(1) b] by simp_all
  then show ?case using Suc.prems Suc.IH [of w3] q b by (auto split: sum.splits option.splits bool.splits)
qed simp

lemma run_engine_keeps:
  assumes os: "engine_os files engines env" and "run_engine env kind port path w = (r, w')"
  shows "files w' = files w"
    and "case r of Inl _ \<Rightarrow> engines w' \<subseteq> engines w | Inr c \<Rightarrow> vc_child c \<notin> engines w \<and> engines w' \<subseteq> insert (vc_child c) (engines w)"
proof -
  obtain q w1 where q: "spawn env (engine_binary env kind) [''run'', ''-c'', path] w = (q, w1)" by fastforce
  have spawn: "case q of Inl _ \<Rightarrow> files w1 = files w \<and> engines w1 \<subseteq> engines w
      | Inr pid \<Rightarrow> pid \<notin> engines w \<and> files w1 = files w \<and> engines w1 \<subseteq> insert pid (engines w)"
    by (rule engine_osD(7) [OF os q])
  note kill = engine_osD(10,11) [OF os]
  show "files w' = files w" and "case r of Inl _ \<Rightarrow> engines w' \<subseteq> engines w
      | Inr c \<Rightarrow> vc_child c \<notin> engines w \<and> engines w' \<subseteq> insert (vc_child c) (engines w)"
  proof (atomize (full), cases q)
    case (Inl e)
    then show "files w' = files w \<and> (case r of Inl _ \<Rightarrow> engines w' \<subseteq> engines w
      | Inr c \<Rightarrow> vc_child c \<notin> engines w \<and> engines w' \<subseteq> insert (vc_child c) (engines w))"
      using assms(2) q spawn by (cases e) (auto simp: run_engine_def)
  next
    case (Inr child)
    obtain a w2 where a: "await_engine env kind port child (start_polls env) w1 = (a, w2)" by fastforce
    have k: "files w2 = files w" "engines w2 \<subseteq> insert child (engines w)" "child \<notin> engines w"
      using await_engine_keeps [OF os a] spawn Inr by auto
    show "files w' = files w \<and> (case r of Inl _ \<Rightarrow> engines w' \<subseteq> engines w
      | Inr c \<Rightarrow> vc_child c \<notin> engines w \<and> engines w' \<subseteq> insert (vc_child c) (engines w))"
      using assms(2) q a k kill(1) [of child w2] kill(2) [of child w2] kill(1) [of child "start_kill env child w2"] kill(2) [of child "start_kill env child w2"] Inr
      by (auto simp: run_engine_def split: option.splits sum.splits)
  qed
qed

lemma write_engine_config_keeps:
  assumes os: "engine_os files engines env" and "write_engine_config env kind value w = (r, w')"
    and ok: "\<And>p bs v. is_ok (fst (write_flush env p bs v))"
  shows "engines w' \<subseteq> engines w"
    and "case r of Inl _ \<Rightarrow> files w' = files w | Inr path \<Rightarrow> path \<notin> files w \<and> files w' = insert path (files w)"
proof -
  obtain u w1 where u: "new_v4 env w = (u, w1)" by fastforce
  define path where "path = engine_config_path env kind u"
  obtain c w2 where c: "create_new_0600 env path w1 = (c, w2)" by fastforce
  have "engines w' \<subseteq> engines w \<and> (case r of Inl _ \<Rightarrow> files w' = files w | Inr path \<Rightarrow> path \<notin> files w \<and> files w' = insert path (files w))"
  proof (cases "json_to_vec env value")
    case (Inl e)
    then show ?thesis using assms(2) u engine_osD(2) [OF os u]
      by (auto simp: write_engine_config_def act_of_def act_bind_def Let_def)
  next
    case (Inr bs)
    obtain f w3 where f: "write_flush env path bs w2 = (f, w3)" by fastforce
    then have "\<exists>x. f = Inr x" using ok [of path bs w2] by (auto simp: is_ok_iff)
    then show ?thesis
      using assms(2) u c f engine_osD(2) [OF os u] engine_osD(3) [OF os c] engine_osD(4) [OF os f] Inr
      by (cases c) (auto simp: write_engine_config_def act_of_def act_err_def act_bind_def act_return_def Let_def path_def [symmetric])
  qed
  then show "engines w' \<subseteq> engines w"
    and "case r of Inl _ \<Rightarrow> files w' = files w | Inr path \<Rightarrow> path \<notin> files w \<and> files w' = insert path (files w)" by simp_all
qed

definition started_clean :: "('w \<Rightarrow> string set) \<Rightarrow> ('w \<Rightarrow> nat set) \<Rightarrow> 'w \<Rightarrow> (vless_error + vless_connector) \<times> 'w \<Rightarrow> bool" where
  "started_clean files engines w res \<longleftrightarrow> (case res of (r, w') \<Rightarrow> files w' = files w
     \<and> (case r of Inl _ \<Rightarrow> engines w' \<subseteq> engines w | Inr c \<Rightarrow> engines w' \<subseteq> insert (vc_child c) (engines w)))"

lemma started_clean_trans:
  "files w1 = files w \<Longrightarrow> engines w1 \<subseteq> engines w \<Longrightarrow> started_clean files engines w1 res \<Longrightarrow> started_clean files engines w res"
  by (auto simp: started_clean_def split: prod.splits sum.splits)

lemma start_engine_clean:
  assumes os: "engine_os files engines env" and ok: "\<And>p bs v. is_ok (fst (write_flush env p bs v))"
  shows "started_clean files engines w (start_engine env cfg kind w)"
proof -
  obtain b w1 where b: "bind_loopback env w = (b, w1)" by fastforce
  note b1 = engine_osD(1) [OF os b]
  show ?thesis
  proof (cases "\<exists>port config. b = Inr port \<and> engine_config cfg kind port = Inr config")
    case False
    then show ?thesis using b b1
      by (cases b; cases "engine_config cfg kind (projr b)")
        (auto simp: start_engine_def act_of_def act_err_def act_bind_def started_clean_def)
  next
    case True
    then obtain port config where p: "b = Inr port" "engine_config cfg kind port = Inr config" by blast
    obtain q w2 where q: "write_engine_config env kind config w1 = (q, w2)" by fastforce
    note k = write_engine_config_keeps [OF os q ok]
    show ?thesis
    proof (cases q)
      case (Inl e)
      then show ?thesis using b p q k b1
        by (auto simp: start_engine_def act_of_def act_err_def act_bind_def started_clean_def)
    next
      case (Inr path)
      obtain r w3 where r: "run_engine env kind port path w2 = (r, w3)" by fastforce
      have "start_engine env cfg kind w = (r, unlink env path w3)"
        using b p q r Inr by (simp add: start_engine_def act_of_def act_err_def act_bind_def)
      moreover have "files (unlink env path w3) = files w"
        using run_engine_keeps(1) [OF os r] k(2) b1 Inr engine_osD(5) [OF os, of path w3] by auto
      moreover have sub: "engines w2 \<subseteq> engines w" using k(1) b1 by blast
      have "case r of Inl _ \<Rightarrow> engines (unlink env path w3) \<subseteq> engines w
          | Inr c \<Rightarrow> engines (unlink env path w3) \<subseteq> insert (vc_child c) (engines w)"
        using run_engine_keeps(2) [OF os r] order_trans [OF engine_osD(6) [OF os, of path w3]] sub by (cases r) (simp_all, blast+)
      ultimately show ?thesis by (simp add: started_clean_def)
    qed
  qed
qed

lemma try_engines_clean:
  assumes "engine_os files engines env" and "\<And>p bs v. is_ok (fst (write_flush env p bs v))"
  shows "started_clean files engines w (try_engines env cfg kinds failures w)"
proof (induction kinds arbitrary: failures w)
  case (Cons kind kinds)
  obtain r w1 where r: "start_engine env cfg kind w = (r, w1)" by fastforce
  with start_engine_clean [OF assms, of w cfg kind] have c: "started_clean files engines w (r, w1)" by simp
  show ?case
  proof (cases r)
    case (Inl e)
    then have "files w1 = files w" "engines w1 \<subseteq> engines w" using c by (simp_all add: started_clean_def)
    then show ?thesis using Inl r started_clean_trans [OF _ _ Cons.IH] by simp
  next
    case (Inr x)
    then show ?thesis using r c by simp
  qed
qed (simp add: started_clean_def)

lemma start_engine_loopback:
  "start_engine env cfg kind w = (Inr c, w') \<Longrightarrow> sock_ip (vc_socks_addr c) = IpV4 0x7F000001"
  by (auto simp: start_engine_def act_bind_Inr run_engine_def split: prod.splits sum.splits option.splits spawn_error.splits)

lemma try_engines_loopback:
  "try_engines env cfg kinds failures w = (Inr c, w') \<Longrightarrow> sock_ip (vc_socks_addr c) = IpV4 0x7F000001"
  by (induction kinds arbitrary: failures w) (auto split: prod.splits sum.splits dest: start_engine_loopback)


text \<open>A failed write leaves the file with the user's id in the temporary directory: it is not owned by anything yet.\<close>

lemma failed_write_leaves_file:
  assumes "engine_os files engines env" and "new_v4 env w = (u, w1)" and "json_to_vec env value = Inr bs"
    and "create_new_0600 env (engine_config_path env kind u) w1 = (Inr (), w2)"
    and "write_flush env (engine_config_path env kind u) bs w2 = (Inl e, w3)"
  shows "write_engine_config env kind value w = (Inl (VIo e), w3) \<and> engine_config_path env kind u \<in> files w3 - files w"
  using assms(2-) engine_osD(2) [OF assms(1,2)] engine_osD(3) [OF assms(1,4)] engine_osD(4) [OF assms(1,5)]
  by (simp add: write_engine_config_def act_of_def act_err_def act_bind_def Let_def)

type_synonym example_os = "string set \<times> nat set \<times> nat"

definition example_engine_env :: "example_os vless_env" where
  "example_engine_env =
     \<lparr> getenv = (\<lambda>_. None), bind_loopback = (\<lambda>w. (Inr 9, w)), temp_join = (\<lambda>s. ''/tmp/'' @ s), new_v4 = (\<lambda>w. (''u'', w)),
       json_to_vec = (\<lambda>_. Inr []),
       create_new_0600 = (\<lambda>p (f, e, n). if p \<in> f then (Inl ''exists'', (f, e, n)) else (Inr (), (insert p f, e, n))),
       write_flush = (\<lambda>_ _ w. (Inr (), w)), unlink = (\<lambda>p (f, e, n). (f - {p}, e, n)),
       spawn = (\<lambda>prog _ (f, e, n). if prog = ''sing-box'' then (Inr n, (f, insert n e, Suc n)) else (Inl SpawnNotFound, (f, e, n))),
       try_wait = (\<lambda>_ w. (Inr None, w)), probe = (\<lambda>_ w. (True, w)), start_kill = (\<lambda>pid (f, e, n). (f, e - {pid}, n)), start_polls = 1 \<rparr>"

definition example_running :: "example_os \<Rightarrow> nat set" where
  "example_running = (\<lambda>(f, e, n). {k \<in> e. k < n})"

lemma example_engine_os: "engine_os fst example_running example_engine_env"
  by (auto simp: engine_os_def example_engine_env_def example_running_def split: if_splits)

lemma example_start_engine:
  assumes "engine_config example_vless Xray 9 = Inr x" and "engine_config example_vless SingBox 9 = Inr y"
  shows "vless_start example_engine_env example_vless ({}, {}, 0) = (Inr \<lparr> vc_socks_addr = SockV4 0x7F000001 9, vc_child = 0 \<rparr>, ({}, {0}, 1))"
proof -
  have "start_engine example_engine_env example_vless Xray ({}, {}, 0) = (Inl (VEngine ''binary `xray` was not found''), ({}, {}, 0))"
    using assms(1) by (simp add: start_engine_def example_engine_env_def act_bind_def act_of_def act_err_def act_return_def
        write_engine_config_def run_engine_def engine_binary_def Let_def)
  moreover have "start_engine example_engine_env example_vless SingBox ({}, {}, 0)
      = (Inr \<lparr> vc_socks_addr = SockV4 0x7F000001 9, vc_child = 0 \<rparr>, ({}, {0}, 1))"
    using assms(2) by (simp add: start_engine_def example_engine_env_def act_bind_def act_of_def act_err_def act_return_def
        write_engine_config_def run_engine_def engine_binary_def Let_def)
  moreover have "to_ascii_lowercase (or_default ''auto'' (getenv example_engine_env ''EASY_VLESS_ENGINE'')) = ''auto''"
    by (simp add: example_engine_env_def to_ascii_lowercase_def ascii_lower_def)
  ultimately show ?thesis by (simp add: vless_start_def engine_candidates_def act_bind_def act_of_def)
qed


end
