(* ===== verification/Shadowsocks.thy ===== *)
theory Shadowsocks
  imports Socks
begin

text \<open>
  The Shadowsocks AEAD client (\<^verbatim>\<open>crates/shadowsocks\<close>): the target header, the key schedule,
  and the two directions of the chunk pump. MD5, HKDF and AES-GCM are other crates: they
  enter as the fields of the record \<open>crypto\<close>, and what the code relies on is stated by
  \<open>crypto_ok\<close>.
\<close>

datatype ss_error = SsIo io_kind | SsConfig string | SsCrypto string | SsTransport string

subsection \<open>The target header\<close>

definition encode_socks_addr :: "string \<Rightarrow> u16 \<Rightarrow> bytes" where
  "encode_socks_addr host port =
     (case parse_ip host of
        Some (IpV4 v) \<Rightarrow> [0x01] @ octets4 v
      | Some (IpV6 v) \<Rightarrow> [0x04] @ octets6 v
      | None \<Rightarrow>
          (let n = min (length host) 255 in [0x03, word_of_nat n] @ take n (as_bytes host)))
     @ to_be 2 (unat port)"

text \<open>
  The header of a Shadowsocks connection means what the proxy was asked for: the
  address reader of the SOCKS5 server, given the header, finds the same host name (or the
  canonical text of the same IP address) and the same port, and stops right behind it. A
  host name of more than 255 bytes is silently cut, so another host is asked for.
\<close>

theorem encode_socks_addr_reads_back:
  assumes "valid_utf8 (take 255 (as_bytes host))"
  shows "read_address (hd (encode_socks_addr host port)) (s\<lparr>rx := tl (encode_socks_addr host port) @ rest\<rparr>)
       = (Inr (case parse_ip host of Some ip \<Rightarrow> show_ip ip | None \<Rightarrow> take 255 host, port), s\<lparr>rx := rest\<rparr>)"
proof -
  define t where "t = (case parse_ip host of
      Some (IpV4 v) \<Rightarrow> TV4 v | Some (IpV6 v) \<Rightarrow> TV6 v | None \<Rightarrow> TDomain (take 255 host))"
  have b: "encode_socks_addr host port = target_bytes t @ to_be 2 (unat port)"
    by (auto simp: t_def encode_socks_addr_def socks5_consts Let_def take_as_bytes min_def
        split: option.splits ip_addr.splits)
  have ok: "target_ok t" using assms
    by (auto simp: t_def take_as_bytes split: option.splits ip_addr.splits)
  have host: "target_host t = (case parse_ip host of Some ip \<Rightarrow> show_ip ip | None \<Rightarrow> take 255 host)"
    by (auto simp: t_def split: option.splits ip_addr.splits)
  have ne: "target_bytes t \<noteq> []" by (cases t) simp_all
  then have "read_address (hd (target_bytes t)) (s\<lparr>rx := tl (encode_socks_addr host port) @ rest\<rparr>)
      = (Inr (target_host t, port), s\<lparr>rx := tl (encode_socks_addr host port) @ rest, rx := rest\<rparr>)"
    using ok b by (intro read_address_ok) simp_all
  then show ?thesis using b ne host by simp
qed

theorem encode_socks_addr_reads_back_witness:
  "read_address (hd (encode_socks_addr ''x.io'' 443)) (stream_of (tl (encode_socks_addr ''x.io'' 443) @ [9]))
     = (Inr (''x.io'', 443), stream_of [9])"
proof -
  have "valid_utf8 (take 255 (as_bytes ''x.io''))"
    by (rule valid_utf8_ascii) (simp add: as_bytes_def byte_of_def)
  moreover have "parse_ip ''x.io'' = None" by (rule parse_ip_name) simp_all
  ultimately show ?thesis
    using encode_socks_addr_reads_back [where host = "''x.io''" and port = 443 and s = "stream_of []" and rest = "[9]"] by (simp add: stream_of_def)
qed

subsection \<open>Keys\<close>

datatype aead_method = Aes128Gcm | Aes256Gcm

definition parse_method :: "string \<Rightarrow> ss_error + aead_method" where
  "parse_method name =
     (let n = to_ascii_lowercase name in
      if n = ''aes-128-gcm'' then Inr Aes128Gcm
      else if n = ''aes-256-gcm'' then Inr Aes256Gcm
      else Inl (SsConfig (''unsupported method `'' @ n @
        ''`. Supported: aes-128-gcm, aes-256-gcm. SS2022 / chacha20 not in this build.'')))"

fun key_len :: "aead_method \<Rightarrow> nat" where
  "key_len Aes128Gcm = 16"
| "key_len Aes256Gcm = 32"

definition salt_len :: "aead_method \<Rightarrow> nat" where
  "salt_len m = key_len m"

definition INFO :: bytes where
  "INFO = as_bytes ''ss-subkey''"

definition MAX_CHUNK :: nat where
  "MAX_CHUNK = 0x3fff"

record 'key crypto =
  md5 :: "bytes \<Rightarrow> bytes"
  hkdf_expand :: "bytes \<Rightarrow> bytes \<Rightarrow> bytes \<Rightarrow> nat \<Rightarrow> bytes option"
  new_from_slice :: "aead_method \<Rightarrow> bytes \<Rightarrow> string + 'key"
  encrypt :: "'key \<Rightarrow> bytes \<Rightarrow> bytes \<Rightarrow> string + bytes"
  decrypt :: "'key \<Rightarrow> bytes \<Rightarrow> bytes \<Rightarrow> string + bytes"

text \<open>
  The documented behaviour of the crates: MD5 digests have 16 bytes; HKDF gives as many bytes
  as asked for, up to 255 blocks; a key of the method's length is accepted; AES-GCM adds a tag of
  16 bytes to a plaintext of at most \<open>2 ^ 36\<close> bytes and decrypts under the same key and nonce
  what it encrypted.
\<close>

definition crypto_ok :: "'key crypto \<Rightarrow> bool" where
  "crypto_ok cr \<longleftrightarrow>
     (\<forall>x. length (md5 cr x) = 16)
   \<and> (\<forall>k salt info n. n \<le> 5100 \<longrightarrow> (\<exists>okm. hkdf_expand cr k salt info n = Some okm \<and> length okm = n))
   \<and> (\<forall>m k. length k = key_len m \<longrightarrow> is_ok (new_from_slice cr m k))
   \<and> (\<forall>k nc p. length p \<le> 2 ^ 36 \<longrightarrow> (\<exists>c. encrypt cr k nc p = Inr c \<and> length c = length p + 16 \<and> decrypt cr k nc c = Inr p))"

text \<open>\<^verbatim>\<open>evp_bytes_to_key\<close> loops until it has enough bytes; a digest that were empty would not end it.\<close>

partial_function (option) evp_loop :: "(bytes \<Rightarrow> bytes) \<Rightarrow> bytes \<Rightarrow> nat \<Rightarrow> bytes \<Rightarrow> bytes \<Rightarrow> bytes option" where
  "evp_loop md pw len out prev =
     (if length out < len then (let d = md (prev @ pw) in evp_loop md pw len (out @ d) d) else Some (take len out))"

definition evp_bytes_to_key :: "'key crypto \<Rightarrow> bytes \<Rightarrow> nat \<Rightarrow> bytes option" where
  "evp_bytes_to_key cr pw len = evp_loop (md5 cr) pw len [] []"

definition hkdf_subkey :: "'key crypto \<Rightarrow> bytes \<Rightarrow> bytes \<Rightarrow> nat \<Rightarrow> ss_error + bytes" where
  "hkdf_subkey cr key salt len = ok_or (SsCrypto ''HKDF expand failed'') (hkdf_expand cr key salt INFO len)"

definition nonce :: "u64 \<Rightarrow> bytes" where
  "nonce n = to_le 8 (unat n) @ replicate 4 0"

definition cipher_new :: "'key crypto \<Rightarrow> aead_method \<Rightarrow> bytes \<Rightarrow> ss_error + 'key" where
  "cipher_new cr m key = map_err SsCrypto (new_from_slice cr m key)"

definition seal :: "'key crypto \<Rightarrow> 'key \<Rightarrow> u64 \<Rightarrow> bytes \<Rightarrow> ss_error + bytes" where
  "seal cr k n p = map_err SsCrypto (encrypt cr k (nonce n) p)"

definition open_box :: "'key crypto \<Rightarrow> 'key \<Rightarrow> u64 \<Rightarrow> bytes \<Rightarrow> ss_error + bytes" where
  "open_box cr k n c = map_err SsCrypto (decrypt cr k (nonce n) c)"

lemma nonce_inject: "nonce m = nonce n \<Longrightarrow> m = n"
proof -
  assume "nonce m = nonce n"
  then have "of_le (to_le 8 (unat m)) = of_le (to_le 8 (unat n))" by (simp add: nonce_def)
  then show ?thesis using unat_word_bound(3) [of m] unat_word_bound(3) [of n] by (simp add: word_unat_eq_iff)
qed

lemma evp_loop_enough: "len \<le> length out \<Longrightarrow> evp_loop md pw len out prev = Some (take len out)"
  by (simp add: evp_loop.simps)

lemma evp_loop_step:
  "length out < len \<Longrightarrow> evp_loop md pw len out prev = evp_loop md pw len (out @ md (prev @ pw)) (md (prev @ pw))"
  by (simp add: evp_loop.simps [of md pw len out prev] Let_def)

text \<open>
  The key derivation returns for both methods, with a key of exactly the method's
  length: the digest of the password, followed for the 256-bit method by the digest of that
  digest and the password.
\<close>

theorem evp_bytes_to_key_value:
  assumes "crypto_ok cr"
  shows "\<exists>key. evp_bytes_to_key cr pw (key_len m) = Some key \<and> length key = key_len m
     \<and> key = (case m of Aes128Gcm \<Rightarrow> md5 cr pw | Aes256Gcm \<Rightarrow> md5 cr pw @ md5 cr (md5 cr pw @ pw))"
proof -
  have l: "length (md5 cr x) = 16" for x using assms by (simp add: crypto_ok_def)
  show ?thesis
    by (cases m) (simp_all add: evp_bytes_to_key_def evp_loop_step evp_loop_enough l)
qed

subsection \<open>The encrypting direction\<close>

function chunks :: "nat \<Rightarrow> 'a list \<Rightarrow> 'a list list" where
  "chunks n xs = (if xs = [] \<or> n = 0 then [] else take n xs # chunks n (drop n xs))"
  by auto
termination by (relation "measure (length \<circ> snd)") auto

declare chunks.simps [simp del]

text \<open>The \<^verbatim>\<open>for\<close> loop over the chunks of one read from the local side: seal both parts, write both.\<close>

fun pump_chunks :: "'key crypto \<Rightarrow> 'key \<Rightarrow> u64 \<Rightarrow> bytes list \<Rightarrow> (ss_error, u64) io" where
  "pump_chunks cr k n [] = io_return n"
| "pump_chunks cr k n (chunk # cs) =
     io_bind (io_lift (seal cr k n (to_be 2 (length chunk)))) (\<lambda>c_len.
     io_bind (io_lift (seal cr k (n + 1) chunk)) (\<lambda>c_body.
     io_bind (write_all SsIo c_len) (\<lambda>_.
     io_bind (write_all SsIo c_body) (\<lambda>_. pump_chunks cr k (n + 2) cs))))"

definition pump_up :: "'key crypto \<Rightarrow> 'key \<Rightarrow> u64 \<Rightarrow> bytes \<Rightarrow> (ss_error, u64) io" where
  "pump_up cr k enc_nonce plain = pump_chunks cr k enc_nonce (chunks MAX_CHUNK plain)"

text \<open>\<^verbatim>\<open>SsStream::handshake\<close> sends its own random salt and derives the sending key from it.\<close>

definition handshake :: "'key crypto \<Rightarrow> aead_method \<Rightarrow> bytes \<Rightarrow> bytes \<Rightarrow> (ss_error, 'key) io" where
  "handshake cr m master salt =
     io_bind (write_all SsIo salt) (\<lambda>_.
       io_lift (and_then (hkdf_subkey cr master salt (key_len m)) (cipher_new cr m)))"

fun pump_ups :: "'key crypto \<Rightarrow> 'key \<Rightarrow> u64 \<Rightarrow> bytes list \<Rightarrow> (ss_error, u64) io" where
  "pump_ups cr k n [] = io_return n"
| "pump_ups cr k n (p # ps) = io_bind (pump_up cr k n p) (\<lambda>n'. pump_ups cr k n' ps)"

text \<open>What a sequence of chunks looks like on the wire.\<close>

fun seal_calls :: "u64 \<Rightarrow> bytes list \<Rightarrow> (u64 \<times> bytes) list" where
  "seal_calls n [] = []"
| "seal_calls n (c # cs) = (n, to_be 2 (length c)) # (n + 1, c) # seal_calls (n + 2) cs"

definition sealed :: "'key crypto \<Rightarrow> 'key \<Rightarrow> u64 \<times> bytes \<Rightarrow> bytes" where
  "sealed cr k x = (case encrypt cr k (nonce (fst x)) (snd x) of Inl e \<Rightarrow> [] | Inr c \<Rightarrow> c)"

lemma concat_chunks: "0 < n \<Longrightarrow> concat (chunks n xs) = xs"
  by (induction n xs rule: chunks.induct) (subst chunks.simps, auto)

lemma chunks_bound: "c \<in> set (chunks n xs) \<Longrightarrow> c \<noteq> [] \<and> length c \<le> n"
proof (induction n xs rule: chunks.induct)
  case (1 n xs)
  then show ?case by (subst (asm) (2) chunks.simps) (auto split: if_splits)
qed

subsection \<open>The decrypting direction\<close>

record 'key reader =
  dec :: "'key option"
  dec_nonce :: u64
  raw :: bstream

definition read_chunk :: "'key crypto \<Rightarrow> aead_method \<Rightarrow> bytes \<Rightarrow> 'key reader \<Rightarrow> (ss_error + bytes) \<times> 'key reader" where
  "read_chunk cr m master r =
     (case (case dec r of
              Some k \<Rightarrow> (Inr k, r)
            | None \<Rightarrow>
                (case read_exact SsIo (salt_len m) (raw r) of
                   (Inl e, s) \<Rightarrow> (Inl e, r\<lparr>raw := s\<rparr>)
                 | (Inr salt, s) \<Rightarrow>
                     (case and_then (hkdf_subkey cr master salt (key_len m)) (cipher_new cr m) of
                        Inl e \<Rightarrow> (Inl e, r\<lparr>raw := s\<rparr>)
                      | Inr k \<Rightarrow> (Inr k, r\<lparr>raw := s, dec := Some k\<rparr>))))
      of (Inl e, r1) \<Rightarrow> (Inl e, r1)
       | (Inr k, r1) \<Rightarrow>
           (case read_exact id 18 (raw r1) of
              (Inl e, s) \<Rightarrow>
                if e = UnexpectedEof then (Inr [], r1\<lparr>raw := s\<rparr>) else (Inl (SsIo e), r1\<lparr>raw := s\<rparr>)
            | (Inr len_c, s) \<Rightarrow>
                (case open_box cr k (dec_nonce r1) len_c of
                   Inl e \<Rightarrow> (Inl e, r1\<lparr>raw := s\<rparr>)
                 | Inr len_b \<Rightarrow>
                     let r2 = r1\<lparr>raw := s, dec_nonce := dec_nonce r1 + 1\<rparr> in
                     if length len_b \<noteq> 2 then (Inl (SsCrypto ''bad length block''), r2)
                     else let len = of_be [len_b ! 0, len_b ! 1] in
                       if len = 0 \<or> MAX_CHUNK < len
                       then (Inl (SsCrypto (''invalid chunk length '' @ show_nat len)), r2)
                       else case read_exact SsIo (len + 16) s of
                         (Inl e, s') \<Rightarrow> (Inl e, r2\<lparr>raw := s'\<rparr>)
                       | (Inr body_c, s') \<Rightarrow>
                           (case open_box cr k (dec_nonce r2) body_c of
                              Inl e \<Rightarrow> (Inl e, r2\<lparr>raw := s'\<rparr>)
                            | Inr body \<Rightarrow> (Inr body, r2\<lparr>raw := s', dec_nonce := dec_nonce r2 + 1\<rparr>)))))"

fun read_chunks :: "'key crypto \<Rightarrow> aead_method \<Rightarrow> bytes \<Rightarrow> nat \<Rightarrow> 'key reader \<Rightarrow> (ss_error + bytes) \<times> 'key reader" where
  "read_chunks cr m master 0 r = (Inr [], r)"
| "read_chunks cr m master (Suc n) r =
     (case read_chunk cr m master r of
        (Inl e, r') \<Rightarrow> (Inl e, r')
      | (Inr b, r') \<Rightarrow>
          (case read_chunks cr m master n r' of
             (Inl e, r'') \<Rightarrow> (Inl e, r'')
           | (Inr bs, r'') \<Rightarrow> (Inr (b @ bs), r'')))"

lemma seal_open:
  assumes "crypto_ok cr" and "length p \<le> MAX_CHUNK"
  obtains c where "seal cr k n p = Inr c" and "length c = length p + 16" and "open_box cr k n c = Inr p"
proof -
  have "length p \<le> 2 ^ 36" using assms(2) by (simp add: MAX_CHUNK_def)
  then obtain c where "encrypt cr k (nonce n) p = Inr c" "length c = length p + 16" "decrypt cr k (nonce n) c = Inr p"
    using assms(1) unfolding crypto_ok_def by metis
  then show ?thesis using that by (simp add: seal_def open_box_def)
qed

lemma read_chunk_sealed:
  assumes cr: "crypto_ok cr" and k: "dec r = Some k"
    and c: "seal cr k (dec_nonce r) (to_be 2 (length chunk)) = Inr c_len" "seal cr k (dec_nonce r + 1) chunk = Inr c_body"
    and len: "chunk \<noteq> []" "length chunk \<le> MAX_CHUNK"
    and rx: "rx (raw r) = c_len @ c_body @ rest"
  shows "read_chunk cr m master r = (Inr chunk, r\<lparr>raw := (raw r)\<lparr>rx := rest\<rparr>, dec_nonce := dec_nonce r + 2\<rparr>)"
proof -
  have l: "length c_len = 18" "open_box cr k (dec_nonce r) c_len = Inr (to_be 2 (length chunk))"
    using seal_open [OF cr, of "to_be 2 (length chunk)" k "dec_nonce r"] c(1) by (auto simp: MAX_CHUNK_def)
  have b: "length c_body = length chunk + 16" "open_box cr k (dec_nonce r + 1) c_body = Inr chunk"
    using seal_open [OF cr len(2), of k "dec_nonce r + 1"] c(2) by auto
  have "length chunk < 256 ^ 2" using len by (simp add: MAX_CHUNK_def)
  moreover have "[to_be 2 (length chunk) ! 0, to_be 2 (length chunk) ! 1] = to_be 2 (length chunk)"
    by (simp add: to_be_2)
  ultimately have n: "of_be [to_be 2 (length chunk) ! 0, to_be 2 (length chunk) ! Suc 0] = length chunk"
    by (metis One_nat_def of_be_to_be_id)
  have "read_exact id 18 (raw r) = (Inr c_len, (raw r)\<lparr>rx := c_body @ rest\<rparr>)"
    using rx l(1) by simp
  moreover have "read_exact SsIo (length chunk + 16) ((raw r)\<lparr>rx := c_body @ rest\<rparr>) = (Inr c_body, (raw r)\<lparr>rx := rest\<rparr>)"
    using b(1) by simp
  ultimately show ?thesis
    using k l(2) b(2) n len by (simp add: read_chunk_def add.assoc)
qed

lemma seal_sealed: "crypto_ok cr \<Longrightarrow> length p \<le> MAX_CHUNK \<Longrightarrow> seal cr k n p = Inr (sealed cr k (n, p))"
  by (rule seal_open [of cr p k n]) (auto simp: seal_def sealed_def split: sum.splits)

lemma seal_len_sealed: "crypto_ok cr \<Longrightarrow> seal cr k n (to_be 2 l) = Inr (sealed cr k (n, to_be 2 l))"
  by (rule seal_sealed) (simp_all add: MAX_CHUNK_def)

lemma pump_chunks_wire:
  assumes "crypto_ok cr" and "tx_cap s = None" and "\<And>c. c \<in> set cs \<Longrightarrow> length c \<le> MAX_CHUNK"
  shows "pump_chunks cr k n cs s
       = (Inr (n + 2 * word_of_nat (length cs)), s\<lparr>tx := tx s @ concat (map (sealed cr k) (seal_calls n cs))\<rparr>)"
  using assms(2,3)
proof (induction cs arbitrary: n s)
  case (Cons c cs)
  then show ?case
    by (simp add: io_defs io_bind_def seal_sealed [OF assms(1)] seal_len_sealed [OF assms(1)] algebra_simps)
qed (simp add: io_defs)

lemma seal_calls_append:
  "seal_calls n (cs @ ds) = seal_calls n cs @ seal_calls (n + 2 * word_of_nat (length cs)) ds"
  by (induction cs arbitrary: n) (simp_all add: algebra_simps)

definition all_chunks :: "bytes list \<Rightarrow> bytes list" where
  "all_chunks ps = concat (map (chunks MAX_CHUNK) ps)"

lemma pump_ups_wire:
  assumes "crypto_ok cr" and "tx_cap s = None"
  shows "pump_ups cr k n ps s
       = (Inr (n + 2 * word_of_nat (length (all_chunks ps))),
          s\<lparr>tx := tx s @ concat (map (sealed cr k) (seal_calls n (all_chunks ps)))\<rparr>)"
  using assms(2) unfolding all_chunks_def
proof (induction ps arbitrary: n s)
  case Nil
  then show ?case by (simp add: io_defs)
next
  case (Cons p ps)
  then show ?case
    by (simp add: pump_up_def io_bind_def pump_chunks_wire [OF assms(1)] chunks_bound
        seal_calls_append algebra_simps)
qed

lemma read_chunks_wire:
  assumes cr: "crypto_ok cr" and "dec r = Some k" and "\<And>c. c \<in> set cs \<Longrightarrow> c \<noteq> [] \<and> length c \<le> MAX_CHUNK"
    and "rx (raw r) = concat (map (sealed cr k) (seal_calls (dec_nonce r) cs)) @ rest"
  shows "read_chunks cr m master (length cs) r
       = (Inr (concat cs), r\<lparr>raw := (raw r)\<lparr>rx := rest\<rparr>, dec_nonce := dec_nonce r + 2 * word_of_nat (length cs)\<rparr>)"
  using assms(2-4)
proof (induction cs arbitrary: r)
  case Nil
  then show ?case by (simp add: rx_same)
next
  case (Cons c cs)
  let ?rest = "concat (map (sealed cr k) (seal_calls (dec_nonce r + 2) cs)) @ rest"
  let ?r = "r\<lparr>raw := (raw r)\<lparr>rx := ?rest\<rparr>, dec_nonce := dec_nonce r + 2\<rparr>"
  have "read_chunk cr m master r = (Inr c, ?r)"
    by (rule read_chunk_sealed [OF cr Cons.prems(1) seal_len_sealed [OF cr] seal_sealed [OF cr]])
      (use Cons.prems in simp_all)
  then show ?case using Cons.IH [of ?r] Cons.prems by (simp add: algebra_simps)
qed

lemma chunks_max: "c \<in> set (all_chunks ps) \<Longrightarrow> c \<noteq> [] \<and> length c \<le> MAX_CHUNK"
  by (auto simp: all_chunks_def dest: chunks_bound)

lemma concat_all_chunks: "concat (all_chunks ps) = concat ps"
  unfolding all_chunks_def by (induction ps) (simp_all add: concat_chunks MAX_CHUNK_def)

text \<open>The first chunk is preceded by the peer's salt.\<close>

lemma read_chunk_salt:
  assumes "dec r = None" and "rx (raw r) = salt @ bs" and "length salt = salt_len m"
    and "and_then (hkdf_subkey cr master salt (key_len m)) (cipher_new cr m) = Inr k"
  shows "read_chunk cr m master r = read_chunk cr m master (r\<lparr>raw := (raw r)\<lparr>rx := bs\<rparr>, dec := Some k\<rparr>)"
  using assms by (simp add: read_chunk_def)

definition fresh_reader :: "bytes \<Rightarrow> 'key reader" where
  "fresh_reader bs = \<lparr> dec = None, dec_nonce = 0, raw = stream_of bs \<rparr>"

lemma read_chunks_fresh:
  assumes cr: "crypto_ok cr" and "\<And>c. c \<in> set cs \<Longrightarrow> c \<noteq> [] \<and> length c \<le> MAX_CHUNK"
    and "length salt = salt_len m" and "and_then (hkdf_subkey cr master salt (key_len m)) (cipher_new cr m) = Inr k"
  shows "fst (read_chunks cr m master (length cs)
           (fresh_reader (salt @ concat (map (sealed cr k) (seal_calls 0 cs)) @ rest))) = Inr (concat cs)"
proof (cases cs)
  case (Cons c ds)
  let ?w = "concat (map (sealed cr k) (seal_calls 0 cs)) @ rest"
  let ?r = "\<lparr> dec = Some k, dec_nonce = 0, raw = stream_of ?w \<rparr>"
  have "read_chunk cr m master (fresh_reader (salt @ ?w)) = read_chunk cr m master ?r"
    by (subst read_chunk_salt [where salt = salt and bs = ?w and k = k])
      (use assms(3,4) in \<open>simp_all add: fresh_reader_def stream_of_def\<close>)
  then have "read_chunks cr m master (length cs) (fresh_reader (salt @ ?w)) = read_chunks cr m master (length cs) ?r"
    using Cons by simp
  also have "fst \<dots> = Inr (concat cs)"
    using read_chunks_wire [OF cr, of ?r k cs rest m master] assms(2) by simp
  finally show ?thesis .
qed simp

lemma seal_calls_nonces:
  "map fst (seal_calls n cs) = map (\<lambda>i. n + word_of_nat i) [0..<2 * length cs]"
proof (induction cs arbitrary: n)
  case (Cons c cs)
  have "[0..<2 * length (c # cs)] = 0 # 1 # map (\<lambda>i. i + 2) [0..<2 * length cs]"
    using map_add_upt [of 2 "2 * length cs"] by (simp add: upt_conv_Cons numeral_2_eq_2 del: upt_Suc)
  then show ?case using Cons by (simp add: comp_def algebra_simps del: upt_Suc)
qed simp

lemma seal_calls_distinct:
  assumes "2 * length cs \<le> 2 ^ 64" shows "distinct (map (nonce \<circ> fst) (seal_calls 0 cs))"
proof -
  have "inj_on (word_of_nat :: nat \<Rightarrow> u64) (set [0..<2 * length cs])"
    using assms by (auto intro!: inj_onI simp: word_of_nat_eq_iff take_bit_nat_eq_self)
  then have "distinct (map fst (seal_calls 0 cs))"
    by (simp add: seal_calls_nonces distinct_map)
  moreover have "inj nonce" by (rule injI) (rule nonce_inject)
  ultimately have "distinct (map nonce (map fst (seal_calls 0 cs)))"
    by (metis distinct_map inj_on_subset subset_UNIV)
  then show ?thesis by simp
qed

text \<open>
  The encrypted channel is transparent: whatever the local side writes, in pieces of
  any size, the bytes that the handshake and the pump put on the wire are decoded by a
  reader that knows only the master key into exactly the concatenated plaintext, the bytes
  behind them are left alone, and the sender has used every nonce of the session at most once.
\<close>

theorem shadowsocks_channel_transparent:
  assumes "crypto_ok cr" and "length salt = salt_len m" and "tx_cap s = None"
    and "2 * length (all_chunks ps) \<le> 2 ^ 64"
  shows "\<exists>k n wire.
      io_bind (handshake cr m master salt) (\<lambda>k. pump_ups cr k 0 ps) s = (Inr n, s\<lparr>tx := tx s @ salt @ wire\<rparr>)
    \<and> fst (read_chunks cr m master (length (all_chunks ps)) (fresh_reader (salt @ wire @ rest))) = Inr (concat ps)
    \<and> wire = concat (map (sealed cr k) (seal_calls 0 (all_chunks ps)))
    \<and> distinct (map (nonce \<circ> fst) (seal_calls 0 (all_chunks ps)))"
proof -
  have "key_len m \<le> 5100" by (cases m) simp_all
  then obtain okm where okm: "hkdf_expand cr master salt INFO (key_len m) = Some okm" "length okm = key_len m"
    using assms(1) unfolding crypto_ok_def by metis
  moreover have "is_ok (new_from_slice cr m okm)"
    using assms(1) okm(2) unfolding crypto_ok_def by blast
  ultimately obtain k where "new_from_slice cr m okm = Inr k"
    by (auto simp: is_ok_iff)
  then have k: "and_then (hkdf_subkey cr master salt (key_len m)) (cipher_new cr m) = Inr k"
    using okm by (simp add: hkdf_subkey_def cipher_new_def)
  let ?wire = "concat (map (sealed cr k) (seal_calls 0 (all_chunks ps)))"
  have "handshake cr m master salt s = (Inr k, s\<lparr>tx := tx s @ salt\<rparr>)"
    using assms(3) k by (simp add: handshake_def io_defs)
  then have "io_bind (handshake cr m master salt) (\<lambda>k. pump_ups cr k 0 ps) s
      = (Inr (2 * word_of_nat (length (all_chunks ps))), s\<lparr>tx := tx s @ salt @ ?wire\<rparr>)"
    using pump_ups_wire [OF assms(1), of "s\<lparr>tx := tx s @ salt\<rparr>" k 0 ps] assms(3) by (simp add: io_bind_def)
  moreover have "fst (read_chunks cr m master (length (all_chunks ps)) (fresh_reader (salt @ ?wire @ rest))) = Inr (concat ps)"
    by (rule trans [OF read_chunks_fresh [OF assms(1) chunks_max assms(2) k]]) (simp_all add: concat_all_chunks)
  ultimately show ?thesis using seal_calls_distinct [OF assms(4)] by blast
qed

text \<open>An instance of the crypto record that meets the documented behaviour, with a tag of zeros.\<close>

definition example_crypto :: "unit crypto" where
  "example_crypto =
     \<lparr> md5 = (\<lambda>x. replicate 16 0), hkdf_expand = (\<lambda>k salt info n. Some (replicate n 0)),
       new_from_slice = (\<lambda>m k. Inr ()), encrypt = (\<lambda>k nc p. Inr (p @ replicate 16 0)),
       decrypt = (\<lambda>k nc c. Inr (take (length c - 16) c)) \<rparr>"

lemma example_crypto_ok: "crypto_ok example_crypto"
  by (simp add: crypto_ok_def example_crypto_def)

theorem evp_bytes_to_key_value_witness:
  "\<exists>key. evp_bytes_to_key example_crypto [1] (key_len Aes256Gcm) = Some key \<and> length key = 32"
  using evp_bytes_to_key_value [OF example_crypto_ok, of "[1]" Aes256Gcm] by auto

theorem shadowsocks_channel_transparent_witness:
  "\<exists>wire. fst (read_chunks example_crypto Aes128Gcm [5] 2 (fresh_reader (replicate 16 7 @ wire))) = Inr [1, 2, 3]"
proof -
  have "all_chunks [[1, 2], [3]] = [[1, 2], [3]]" by (simp add: all_chunks_def chunks.simps MAX_CHUNK_def)
  moreover have "tx_cap (stream_of []) = None" by (simp add: stream_of_def)
  moreover have "length (replicate 16 7) = salt_len Aes128Gcm" by (simp add: salt_len_def)
  moreover have "2 * length (all_chunks [[1, 2], [3]]) \<le> 2 ^ 64" using calculation(1) by simp
  ultimately obtain wire where
    "fst (read_chunks example_crypto Aes128Gcm [5] (length (all_chunks [[1, 2], [3]]))
       (fresh_reader (replicate 16 7 @ wire @ []))) = Inr (concat [[1, 2], [3]])"
    using shadowsocks_channel_transparent [OF example_crypto_ok, of "replicate 16 7" Aes128Gcm "stream_of []"
        "[[1, 2], [3]]" "[5]" "[]"] by blast
  moreover have "length (all_chunks [[1, 2], [3]]) = 2" using \<open>all_chunks _ = _\<close> by simp
  ultimately show ?thesis by auto
qed

end
