(* ===== verification/Websocket.thy ===== *)
theory Websocket
  imports Byte_Stream
begin

text \<open>
  The WebSocket client and the raw HTTP upgrade (\<^verbatim>\<open>crates/websocket\<close>): the handshakes, the
  frame reader and writer, base64, and the task that pumps frames. The hash
  function and the random bytes come from other crates: \<open>sha1\<close>, the key and the mask keys are
  parameters.
\<close>

datatype ws_error = WIo io_kind | Handshake string | Protocol string

subsection \<open>Base64\<close>

definition base64_table :: string where
  "base64_table = ''ABCDEFGHIJKLMNOPQRSTUVWXYZabcdefghijklmnopqrstuvwxyz0123456789+/''"

definition base64_sym :: "u32 \<Rightarrow> char" where
  "base64_sym n = base64_table ! unat n"

definition base64_group :: "u8 \<Rightarrow> u8 \<Rightarrow> u8 \<Rightarrow> u32" where
  "base64_group a b c = push_bit 16 (ucast a) OR push_bit 8 (ucast b) OR ucast c"

fun base64_encode :: "bytes \<Rightarrow> string" where
  "base64_encode [] = []"
| "base64_encode [a] =
     (let n = base64_group a 0 0 in
      [base64_sym (drop_bit 18 n AND 63), base64_sym (drop_bit 12 n AND 63), CHR ''='', CHR ''=''])"
| "base64_encode [a, b] =
     (let n = base64_group a b 0 in
      [base64_sym (drop_bit 18 n AND 63), base64_sym (drop_bit 12 n AND 63),
       base64_sym (drop_bit 6 n AND 63), CHR ''=''])"
| "base64_encode (a # b # c # bs) =
     (let n = base64_group a b c in
      [base64_sym (drop_bit 18 n AND 63), base64_sym (drop_bit 12 n AND 63),
       base64_sym (drop_bit 6 n AND 63), base64_sym (n AND 63)] @ base64_encode bs)"

text \<open>The reference reader of padded base64 (RFC 4648), one group of four symbols at a time.\<close>

fun index_of :: "char \<Rightarrow> string \<Rightarrow> nat option" where
  "index_of c [] = None"
| "index_of c (d # s) = (if c = d then Some 0 else map_option Suc (index_of c s))"

fun base64_decode :: "string \<Rightarrow> bytes option" where
  "base64_decode [] = Some []"
| "base64_decode (w # x # y # z # s) =
     (case (index_of w base64_table, index_of x base64_table) of
        (Some p, Some q) \<Rightarrow>
          (if y = CHR ''='' \<and> z = CHR ''='' \<and> s = [] then Some [word_of_nat (p * 4 + q div 16)]
           else case index_of y base64_table of
             None \<Rightarrow> None
           | Some r \<Rightarrow>
               (if z = CHR ''='' \<and> s = []
                then Some [word_of_nat (p * 4 + q div 16), word_of_nat (q mod 16 * 16 + r div 4)]
                else case index_of z base64_table of
                  None \<Rightarrow> None
                | Some t \<Rightarrow>
                    map_option (\<lambda>bs. [word_of_nat (p * 4 + q div 16), word_of_nat (q mod 16 * 16 + r div 4),
                                      word_of_nat (r mod 4 * 64 + t)] @ bs) (base64_decode s)))
      | _ \<Rightarrow> None)"
| "base64_decode _ = None"

lemma unat_base64_group: "unat (base64_group a b c) = unat a * 65536 + unat b * 256 + unat c"
proof -
  have d1: "push_bit 8 (ucast b :: u32) OR ucast c = push_bit 8 (ucast b) + ucast c"
    by (rule disjunctive_add [symmetric]) (auto simp: bit_simps dest: bit_imp_le_length)
  have d2: "push_bit 16 (ucast a :: u32) OR (push_bit 8 (ucast b) OR ucast c)
          = push_bit 16 (ucast a) + (push_bit 8 (ucast b) OR ucast c)"
    by (rule disjunctive_add [symmetric]) (auto simp: bit_simps dest: bit_imp_le_length)
  have "base64_group a b c = push_bit 16 (ucast a) + (push_bit 8 (ucast b) + ucast c)"
    by (simp only: base64_group_def or.assoc d2) (simp only: d1)
  then have "base64_group a b c = word_of_nat (unat a * 65536 + unat b * 256 + unat c)"
    by (simp add: push_bit_eq_mult)
  moreover have "unat a * 65536 + unat b * 256 + unat c < 4294967296"
    using unat_byte_less [of a] unat_byte_less [of b] unat_byte_less [of c] by linarith
  then have "unat (word_of_nat (unat a * 65536 + unat b * 256 + unat c) :: u32)
      = unat a * 65536 + unat b * 256 + unat c"
    by (intro unat_word_of_nat) simp
  ultimately show ?thesis by metis
qed

text \<open>The four symbols of a group as numbers of the three bytes.\<close>

lemma base64_horner:
  fixes p x y u :: nat
  assumes "p < 64" "x < 64" "y < 64" "u < 64" and n: "n = ((p * 64 + x) * 64 + y) * 64 + u"
  shows "n div 262144 mod 64 = p" "n div 4096 mod 64 = x" "n div 64 mod 64 = y" "n mod 64 = u"
proof -
  have dm: "(k * 64 + d) div 64 = k" "(k * 64 + d) mod 64 = d" if "d < 64" for k d :: nat
    using that by simp_all
  have a: "n div 64 = (p * 64 + x) * 64 + y" "n mod 64 = u" unfolding n by (rule dm; fact)+
  have b: "n div 4096 = p * 64 + x" using div_mult2_eq [of n 64 64] a dm [of y "p * 64 + x"] assms by simp
  have "n div 262144 = p" using div_mult2_eq [of n 4096 64] b assms by simp
  then show "n div 262144 mod 64 = p" "n div 4096 mod 64 = x" "n div 64 mod 64 = y" "n mod 64 = u"
    using a b dm [of y "p * 64 + x"] dm [of x p] assms by simp_all
qed

lemma base64_regroup:
  fixes a b c :: nat
  assumes "a = p * 4 + q" "b = r * 16 + s" "c = t * 64 + u"
  shows "a * 65536 + b * 256 + c = ((p * 64 + (q * 16 + r)) * 64 + (s * 4 + t)) * 64 + u"
  unfolding assms by simp

lemma base64_digits:
  "unat (drop_bit 18 (base64_group a b c) AND 63) = unat a div 4"
  "unat (drop_bit 12 (base64_group a b c) AND 63) = unat a mod 4 * 16 + unat b div 16"
  "unat (drop_bit 6 (base64_group a b c) AND 63) = unat b mod 16 * 4 + unat c div 64"
  "unat (base64_group a b c AND 63) = unat c mod 64"
proof -
  have m: "unat (w AND 63) = unat w mod 64" for w :: u32
  proof -
    have "w AND 63 = take_bit 6 w" by (simp add: take_bit_eq_mask mask_eq_exp_minus_1)
    then show ?thesis by (simp only: unsigned_take_bit_eq) (simp add: take_bit_eq_mod)
  qed
  let ?p = "unat a div 4" and ?x = "unat a mod 4 * 16 + unat b div 16"
    and ?y = "unat b mod 16 * 4 + unat c div 64" and ?u = "unat c mod 64"
  have le: "unat a < 256" "unat b < 256" "unat c < 256" by simp_all
  have d: "unat a mod 4 < 4" "unat b mod 16 < 16" "unat b div 16 < 16" "unat c div 64 < 4" "?p < 64"
    using le by (simp_all add: less_mult_imp_div_less)
  have x: "?x < 64" using d(1,3) by linarith
  have y: "?y < 64" using d(2,4) by linarith
  have n: "unat (base64_group a b c) = ((?p * 64 + ?x) * 64 + ?y) * 64 + ?u"
    unfolding unat_base64_group
    by (rule base64_regroup) (simp_all only: div_mult_mod_eq)
  note h = base64_horner [OF d(5) x y _ n]
  show "unat (drop_bit 18 (base64_group a b c) AND 63) = ?p"
    "unat (drop_bit 12 (base64_group a b c) AND 63) = ?x"
    "unat (drop_bit 6 (base64_group a b c) AND 63) = ?y"
    "unat (base64_group a b c AND 63) = ?u"
    using h unfolding m unat_drop_bit_eq by (simp_all add: drop_bit_eq_div)
qed

lemma index_of_nth: "distinct s \<Longrightarrow> i < length s \<Longrightarrow> index_of (s ! i) s = Some i"
  by (induction s arbitrary: i) (auto simp: nth_Cons split: nat.splits)

lemma base64_table_props:
  "distinct base64_table" "length base64_table = 64" "CHR ''='' \<notin> set base64_table"
  by (simp_all add: base64_table_def)

lemma base64_sym_index:
  assumes "unat n < 64"
  shows "index_of (base64_sym n) base64_table = Some (unat n)" "base64_sym n \<noteq> CHR ''=''"
proof -
  show "index_of (base64_sym n) base64_table = Some (unat n)"
    using assms base64_table_props by (simp add: base64_sym_def index_of_nth)
  have "base64_sym n \<in> set base64_table"
    using assms base64_table_props(2) by (simp add: base64_sym_def)
  then show "base64_sym n \<noteq> CHR ''=''" using base64_table_props(3) by (intro notI) (simp only:)
qed

lemma and_63_less: "unat (n AND 63 :: u32) < 64"
  using word_and_le1 [of n 63] by (simp add: word_le_nat_alt)

lemmas base64_sym_and = base64_sym_index [OF and_63_less]

lemma byte_join:
  "word_of_nat (unat a div 4 * 4 + (unat a mod 4 * 16 + unat b div 16) div 16) = (a :: u8)"
  "word_of_nat ((unat a mod 4 * 16 + unat b div 16) mod 16 * 16 + (unat b mod 16 * 4 + unat c div 64) div 4) = (b :: u8)"
  "word_of_nat ((unat b mod 16 * 4 + unat c div 64) mod 4 * 64 + unat c mod 64) = (c :: u8)"
proof -
  have "unat b div 16 < 16" "unat c div 64 < 4"
    using unat_byte_less [of b] unat_byte_less [of c] by (simp_all add: less_mult_imp_div_less)
  then show
    "word_of_nat (unat a div 4 * 4 + (unat a mod 4 * 16 + unat b div 16) div 16) = a"
    "word_of_nat ((unat a mod 4 * 16 + unat b div 16) mod 16 * 16 + (unat b mod 16 * 4 + unat c div 64) div 4) = b"
    "word_of_nat ((unat b mod 16 * 4 + unat c div 64) mod 4 * 64 + unat c mod 64) = c"
    by (simp_all add: div_mult_mod_eq del: of_nat_add of_nat_mult)
qed

text \<open>
  Base64 encoding is faithful: the reference decoder of padded base64 recovers every
  byte string from its encoding, and the encoding has the length the padding rule gives.
\<close>

theorem base64_roundtrip:
  "base64_decode (base64_encode bs) = Some bs \<and> length (base64_encode bs) = 4 * ((length bs + 2) div 3)"
proof (induction bs rule: base64_encode.induct)
  case (2 a)
  then show ?case
    using byte_join(1) [of a 0] by (simp add: Let_def base64_sym_and base64_digits del: of_nat_add of_nat_mult)
next
  case (3 a b)
  then show ?case
    using byte_join(1) [of a b] byte_join(2) [of a b 0] by (simp add: Let_def base64_sym_and base64_digits del: of_nat_add of_nat_mult)
next
  case (4 a b c bs)
  have "(5 + length bs) div 3 = Suc (Suc (Suc (length bs)) div 3)" by presburger
  with 4 show ?case
    using byte_join(1) [of a b] byte_join(2) [of a b c] byte_join(3) [of b c]
    by (simp add: Let_def base64_sym_and base64_digits del: of_nat_add of_nat_mult)
qed simp

subsection \<open>Response headers\<close>

definition HEADER_END :: string where
  "HEADER_END = CRLF @ CRLF"

text \<open>
  \<^verbatim>\<open>read_headers\<close> reads single bytes until the buffer ends with an empty line, or gives up at
  8192 bytes; \<open>too_large\<close> is the message of the two copies of it in the crate.
\<close>

function read_headers_from :: "string \<Rightarrow> bytes \<Rightarrow> (ws_error, string) io" where
  "read_headers_from too_large buf s =
     (if length buf < 8192 then
        (case read_exact WIo 1 s of
           (Inl e, t) \<Rightarrow> (Inl e, t)
         | (Inr tmp, t) \<Rightarrow>
             let buf' = buf @ tmp in
             if suffix (as_bytes HEADER_END) buf' then (Inr (from_utf8_lossy buf'), t)
             else read_headers_from too_large buf' t)
      else (Inl (Handshake too_large), s))"
  by pat_completeness auto
termination
  by (relation "measure (\<lambda>(m, buf, s). 8192 - length buf)") (auto simp: read_exact_def split: if_splits)

declare read_headers_from.simps [simp del]

definition read_headers :: "(ws_error, string) io" where
  "read_headers = read_headers_from ''WebSocket response headers too large'' []"

definition upgrade_read_headers :: "(ws_error, string) io" where
  "upgrade_read_headers = read_headers_from ''HTTP response headers too large'' []"

lemma read_headers_from_stops:
  assumes "rx s = h @ rest" and "length (buf @ h) \<le> 8192" and "h \<noteq> []" and "suffix (as_bytes HEADER_END) (buf @ h)"
    and "\<And>k. k < length h \<Longrightarrow> 0 < k \<Longrightarrow> \<not> suffix (as_bytes HEADER_END) (buf @ take k h)"
  shows "read_headers_from m buf s = (Inr (from_utf8_lossy (buf @ h)), s\<lparr>rx := rest\<rparr>)"
  using assms
proof (induction h arbitrary: buf s)
  case (Cons b h)
  have rd: "read_exact WIo (Suc 0) s = (Inr [b], s\<lparr>rx := h @ rest\<rparr>)"
    using Cons.prems(1) by (simp add: read_exact_def)
  show ?case
  proof (cases "h = []")
    case True
    then show ?thesis
      using Cons.prems(2,4) by (subst read_headers_from.simps) (simp add: Let_def rd)
  next
    case False
    have "\<not> suffix (as_bytes HEADER_END) (buf @ [b])" using Cons.prems(5) [of 1] False by simp
    moreover have "read_headers_from m (buf @ [b]) (s\<lparr>rx := h @ rest\<rparr>)
        = (Inr (from_utf8_lossy (buf @ b # h)), s\<lparr>rx := rest\<rparr>)"
      using Cons.IH [of "s\<lparr>rx := h @ rest\<rparr>" "buf @ [b]"] Cons.prems(2,4) False
        Cons.prems(5) [of "Suc k" for k] by simp
    ultimately show ?thesis
      using Cons.prems(2) by (subst read_headers_from.simps) (auto simp: Let_def rd)
  qed
qed simp

definition header_value :: "string \<Rightarrow> string \<Rightarrow> string option" where
  "header_value headers name =
     (case find (\<lambda>line. case split_once CHR '':'' line of None \<Rightarrow> False | Some (k, v) \<Rightarrow> eq_ignore_ascii_case k name)
             (str_lines headers) of
        None \<Rightarrow> None
      | Some line \<Rightarrow> (case split_once CHR '':'' line of None \<Rightarrow> None | Some (k, v) \<Rightarrow> Some (trim v)))"

definition value_has_token :: "string \<Rightarrow> string \<Rightarrow> bool" where
  "value_has_token v token = list_ex (\<lambda>part. eq_ignore_ascii_case (trim part) token) (split_on CHR '','' v)"

definition header_has_token :: "string \<Rightarrow> string \<Rightarrow> string \<Rightarrow> bool" where
  "header_has_token headers name token =
     (case header_value headers name of None \<Rightarrow> False | Some v \<Rightarrow> value_has_token v token)"

text \<open>The copy in \<^verbatim>\<open>http_upgrade.rs\<close> looks at every line with that name, not only the first.\<close>

definition upgrade_header_has_token :: "string \<Rightarrow> string \<Rightarrow> string \<Rightarrow> bool" where
  "upgrade_header_has_token headers name token =
     list_ex (\<lambda>line. case split_once CHR '':'' line of
                       None \<Rightarrow> False
                     | Some (k, v) \<Rightarrow> eq_ignore_ascii_case k name \<and> value_has_token v token)
       (str_lines headers)"

definition first_line_or :: "string \<Rightarrow> string \<Rightarrow> string" where
  "first_line_or d headers = (case str_lines headers of [] \<Rightarrow> d | l # ls \<Rightarrow> l)"

definition status_code :: "string \<Rightarrow> string option" where
  "status_code headers =
     (case split_whitespace (first_line_or [] headers) of a # b # ws \<Rightarrow> Some b | _ \<Rightarrow> None)"

subsection \<open>Handshakes\<close>

definition GUID :: string where
  "GUID = ''258EAFA5-E914-47DA-95CA-C5AB0DC85B11''"

definition accept_key :: "(bytes \<Rightarrow> bytes) \<Rightarrow> string \<Rightarrow> string" where
  "accept_key sha1 key = base64_encode (sha1 (as_bytes key @ as_bytes GUID))"

definition websocket_request :: "string \<Rightarrow> string \<Rightarrow> string \<Rightarrow> string" where
  "websocket_request host path key =
     ''GET '' @ path @ '' HTTP/1.1'' @ CRLF @ ''Host: '' @ host @ CRLF @ ''Upgrade: websocket'' @ CRLF @
     ''Connection: Upgrade'' @ CRLF @ ''Sec-WebSocket-Key: '' @ key @ CRLF @
     ''Sec-WebSocket-Version: 13'' @ CRLF @ CRLF"

definition websocket_client :: "(bytes \<Rightarrow> bytes) \<Rightarrow> bytes \<Rightarrow> string \<Rightarrow> string \<Rightarrow> (ws_error, unit) io" where
  "websocket_client sha1 key_raw host path0 =
     (let path = (if path0 = [] then ''/'' else path0);
          key = base64_encode key_raw in
      io_bind (write_all WIo (as_bytes (websocket_request host path key))) (\<lambda>_.
      io_bind read_headers (\<lambda>headers.
        if status_code headers \<noteq> Some ''101'' then
          io_fail (Handshake (''WebSocket expected 101, got '' @ first_line_or ''empty'' headers))
        else if \<not> header_has_token headers ''upgrade'' ''websocket''
              \<or> \<not> header_has_token headers ''connection'' ''upgrade'' then
          io_fail (Handshake ''WebSocket response is missing required Upgrade headers'')
        else case header_value headers ''sec-websocket-accept'' of
          None \<Rightarrow> io_fail (Handshake ''WebSocket response is missing Sec-WebSocket-Accept'')
        | Some got \<Rightarrow>
            if \<not> eq_ignore_ascii_case got (accept_key sha1 key)
            then io_fail (Handshake ''Sec-WebSocket-Accept mismatch'')
            else io_return ())))"

definition upgrade_request :: "string \<Rightarrow> string \<Rightarrow> string" where
  "upgrade_request host path =
     ''GET '' @ path @ '' HTTP/1.1'' @ CRLF @ ''Host: '' @ host @ CRLF @ ''Connection: Upgrade'' @ CRLF @
     ''Upgrade: websocket'' @ CRLF @ CRLF"

definition http_upgrade :: "string \<Rightarrow> string \<Rightarrow> (ws_error, unit) io" where
  "http_upgrade host path0 =
     (let path = (if path0 = [] then ''/'' else path0) in
      io_bind (write_all WIo (as_bytes (upgrade_request host path))) (\<lambda>_.
      io_bind upgrade_read_headers (\<lambda>headers.
        if status_code headers \<noteq> Some ''101'' then
          io_fail (Handshake (''HTTP Upgrade expected 101, got '' @ first_line_or ''empty'' headers))
        else if \<not> upgrade_header_has_token headers ''upgrade'' ''websocket''
              \<or> \<not> upgrade_header_has_token headers ''connection'' ''upgrade'' then
          io_fail (Handshake ''HTTP Upgrade response is missing required Upgrade headers'')
        else io_return ())))"

subsection \<open>Frames\<close>

type_synonym mask_key = "u8 \<times> u8 \<times> u8 \<times> u8"

fun mask_byte :: "mask_key \<Rightarrow> nat \<Rightarrow> u8" where
  "mask_byte (a, b, c, d) i = [a, b, c, d] ! (i mod 4)"

definition apply_mask :: "mask_key \<Rightarrow> bytes \<Rightarrow> bytes" where
  "apply_mask m p = map (\<lambda>(i, b). b XOR mask_byte m i) (enumerate 0 p)"

fun mask_bytes :: "mask_key \<Rightarrow> bytes" where
  "mask_bytes (a, b, c, d) = [a, b, c, d]"

definition mask_of_bytes :: "bytes \<Rightarrow> mask_key" where
  "mask_of_bytes bs = (bs ! 0, bs ! 1, bs ! 2, bs ! 3)"

text \<open>The bytes \<^verbatim>\<open>write_frame\<close> sends; \<open>None\<close> is \<^verbatim>\<open>mask = false\<close>, otherwise the random key.\<close>

definition ws_frame :: "u8 \<Rightarrow> bytes \<Rightarrow> mask_key option \<Rightarrow> bytes" where
  "ws_frame opcode p mkey =
     (let mb = (if mkey = None then 0 else 0x80 :: u8); len = length p in
      [0x80 OR opcode]
      @ (if len < 126 then [mb OR word_of_nat len]
         else if len \<le> 65535 then [mb OR 126] @ to_be 2 len
         else [mb OR 127] @ to_be 8 len)
      @ (case mkey of None \<Rightarrow> p | Some m \<Rightarrow> mask_bytes m @ apply_mask m p))"

definition write_frame :: "u8 \<Rightarrow> bytes \<Rightarrow> mask_key option \<Rightarrow> (ws_error, unit) io" where
  "write_frame opcode p mkey = write_all WIo (ws_frame opcode p mkey)"

definition read_len :: "u8 \<Rightarrow> (ws_error, nat) io" where
  "read_len b1 =
     (let len = unat (b1 AND 0x7f) in
      if len = 126 then io_bind (read_exact WIo 2) (\<lambda>ext. io_return (of_be ext))
      else if len = 127 then io_bind (read_exact WIo 8) (\<lambda>ext. io_return (of_be ext))
      else io_return len)"

text \<open>One iteration of the loop in \<^verbatim>\<open>read_data_frame\<close>, up to the \<^verbatim>\<open>match\<close> on the opcode.\<close>

definition read_frame :: "(ws_error, u8 \<times> bytes) io" where
  "read_frame =
     io_bind (read_exact WIo 2) (\<lambda>hdr.
       let opcode = hdr ! 0 AND 0x0f; masked = (hdr ! 1 AND 0x80 \<noteq> 0) in
       io_bind (read_len (hdr ! 1)) (\<lambda>len.
       io_bind (if masked then io_bind (read_exact WIo 4) (\<lambda>m. io_return (mask_of_bytes m))
                else io_return (0, 0, 0, 0)) (\<lambda>m.
         if 1000000 < len then io_fail (Protocol ''WS frame too large'')
         else io_bind (if len = 0 then io_return [] else read_exact WIo len) (\<lambda>p.
           io_return (opcode, if masked then apply_mask m p else p)))))"

lemma read_len_shrinks: "length (rx (snd (read_len b s))) \<le> length (rx s)"
  by (auto simp: read_len_def io_bind_def io_defs read_exact_def Let_def)

lemma read_frame_shrinks:
  assumes "read_frame s = (Inr x, t)" shows "length (rx t) + 2 \<le> length (rx s)"
proof -
  let ?s1 = "s\<lparr>rx := drop 2 (rx s)\<rparr>"
  let ?b1 = "take 2 (rx s) ! 1"
  from assms have two: "2 \<le> length (rx s)"
    by (auto simp: read_frame_def io_bind_def read_exact_def split: if_splits)
  with assms obtain len t1 where l: "read_len ?b1 ?s1 = (Inr len, t1)"
    and "length (rx t) \<le> length (rx t1)"
    by (auto simp: read_frame_def io_bind_def read_exact_def io_defs Let_def
        split: if_splits prod.splits sum.splits)
  moreover have "length (rx t1) \<le> length (rx ?s1)"
    using read_len_shrinks [of ?b1 ?s1] l by simp
  ultimately show ?thesis using two by simp
qed

function read_data_frame :: "(nat \<Rightarrow> mask_key) \<Rightarrow> (ws_error, bytes) io" where
  "read_data_frame keys s =
     (case read_frame s of
        (Inl e, t) \<Rightarrow> (Inl e, t)
      | (Inr (opcode, p), t) \<Rightarrow>
          if opcode \<le> 0x2 then (Inr p, t)
          else if opcode = 0x8 then (Inl (Protocol ''WS close''), t)
          else if opcode = 0x9 then
            read_data_frame (keys \<circ> Suc) (snd (write_frame 0xA p (Some (keys 0)) t))
          else if opcode = 0xA then read_data_frame keys t
          else (Inl (Protocol (''unsupported WS opcode '' @ show_nat (unat opcode))), t))"
  by pat_completeness auto
termination
  by (relation "measure (\<lambda>(keys, s). length (rx s))")
    (auto simp: write_frame_def dest!: read_frame_shrinks [OF sym])

declare read_data_frame.simps [simp del]

lemma length_apply_mask [simp]: "length (apply_mask m p) = length p"
  by (simp add: apply_mask_def)

lemma apply_mask_Nil [simp]: "apply_mask m [] = []"
  by (simp add: apply_mask_def)

lemma apply_mask_twice [simp]: "apply_mask m (apply_mask m p) = p"
  by (rule nth_equalityI) (auto simp: apply_mask_def nth_enumerate_eq xor.assoc)

lemma mask_of_bytes_mask_bytes [simp]: "mask_of_bytes (mask_bytes m) = m"
  by (cases m) (simp add: mask_of_bytes_def)

lemma length_mask_bytes [simp]: "length (mask_bytes m) = 4"
  by (cases m) simp

lemma bit_0x80: "bit (0x80 :: u8) n \<longleftrightarrow> n = 7"
  using bit_exp_iff [where 'a = u8, of 7 n] by auto

lemma byte_flags:
  fixes w :: u8
  assumes "unat w < 128"
  shows "w AND 0x7f = w" "w AND 0x80 = 0" "(0x80 OR w) AND 0x7f = w" "(0x80 OR w) AND 0x80 \<noteq> 0"
proof -
  have t: "take_bit 7 w = w"
    using assms by (intro take_bit_word_small) simp
  have m: "v AND 0x7f = take_bit 7 v" for v :: u8
    by (simp add: take_bit_eq_mask mask_eq_exp_minus_1)
  have e: "v AND 0x80 = 0 \<longleftrightarrow> \<not> bit v 7" for v :: u8
    using and_exp_eq_0_iff_not_bit [of v 7] by simp
  have b: "\<not> bit w 7" using t by (metis bit_take_bit_iff less_irrefl)
  show "w AND 0x7f = w" "w AND 0x80 = 0" by (simp_all add: m t e b)
  show "(0x80 OR w) AND 0x80 \<noteq> 0" by (simp add: e bit_or_iff bit_0x80)
  have "take_bit 7 (0x80 OR w) = take_bit 7 w"
    by (rule bit_eqI) (auto simp: bit_take_bit_iff bit_or_iff bit_0x80)
  then show "(0x80 OR w) AND 0x7f = w" by (simp add: m t)
qed

lemma opcode_nibble:
  fixes op :: u8
  assumes "unat op < 16" shows "(0x80 OR op) AND 0x0f = op"
proof -
  have t: "take_bit 4 op = op" using assms by (intro take_bit_word_small) simp
  have m: "v AND 0x0f = take_bit 4 v" for v :: u8
    by (simp add: take_bit_eq_mask mask_eq_exp_minus_1)
  have "take_bit 4 (0x80 OR op) = take_bit 4 op"
    by (rule bit_eqI) (auto simp: bit_take_bit_iff bit_or_iff bit_0x80)
  then show ?thesis by (simp add: m t)
qed

lemma read_len_ws:
  assumes "length p \<le> 1000000"
    and "bs = (if length p < 126 then [] else if length p \<le> 65535 then to_be 2 (length p) else to_be 8 (length p))"
    and "b1 AND 0x7f = (if length p < 126 then word_of_nat (length p) else if length p \<le> 65535 then 126 else 127)"
    and "rx s = bs @ r"
  shows "read_len b1 s = (Inr (length p), s\<lparr>rx := r\<rparr>)"
proof (cases "length p < 126")
  case True
  then have "unat (b1 AND 0x7f) = length p" using assms(3) by simp
  then show ?thesis using True assms by (simp add: read_len_def io_defs)
next
  case False
  have "length p < 256 ^ 2 \<Longrightarrow> of_be (to_be 2 (length p)) = length p" by (rule of_be_to_be_id)
  moreover have "of_be (to_be 8 (length p)) = length p" using assms(1) by (intro of_be_to_be_id) simp
  ultimately show ?thesis using False assms by (auto simp: read_len_def io_defs)
qed

lemma read_frame_ws:
  assumes "unat op < 16" and "length p \<le> 1000000" and "rx s = ws_frame op p m @ rest"
  shows "read_frame s = (Inr (op, p), s\<lparr>rx := rest\<rparr>)"
proof -
  define mb where "mb = (if m = None then 0 else 0x80 :: u8)"
  define l7 where "l7 = (if length p < 126 then word_of_nat (length p) else if length p \<le> 65535 then 126 else 127 :: u8)"
  define ext where "ext = (if length p < 126 then [] else if length p \<le> 65535 then to_be 2 (length p) else to_be 8 (length p))"
  define body where "body = (case m of None \<Rightarrow> p | Some k \<Rightarrow> mask_bytes k @ apply_mask k p)"
  have l7: "unat l7 < 128" by (auto simp: l7_def)
  have f: "rx s = [0x80 OR op, mb OR l7] @ (ext @ body @ rest)"
    using assms(3) by (simp add: ws_frame_def Let_def mb_def l7_def ext_def body_def)
  have len: "read_len (mb OR l7) (s\<lparr>rx := ext @ body @ rest\<rparr>) = (Inr (length p), s\<lparr>rx := body @ rest\<rparr>)"
    using read_len_ws [OF assms(2) ext_def, of "mb OR l7" "s\<lparr>rx := ext @ body @ rest\<rparr>"] byte_flags [OF l7]
    by (auto simp: mb_def l7_def)
  have msk: "(mb OR l7) AND 0x80 = 0 \<longleftrightarrow> m = None" using byte_flags [OF l7] by (simp add: mb_def)
  have hdr: "read_exact WIo 2 s = (Inr [0x80 OR op, mb OR l7], s\<lparr>rx := ext @ body @ rest\<rparr>)"
    using f by simp
  have start: "read_frame s =
     io_bind (if m \<noteq> None then io_bind (read_exact WIo 4) (\<lambda>k. io_return (mask_of_bytes k)) else io_return (0, 0, 0, 0))
       (\<lambda>k. io_bind (if length p = 0 then io_return [] else read_exact WIo (length p))
         (\<lambda>q. io_return (op, if m \<noteq> None then apply_mask k q else q))) (s\<lparr>rx := body @ rest\<rparr>)"
    using assms(2) msk
    by (simp add: read_frame_def io_bind_def [of "read_exact WIo 2"] hdr io_bind_def [of "read_len _"] len
        opcode_nibble [OF assms(1)] Let_def)
  show ?thesis
    by (cases m; cases "p = []") (simp_all add: start body_def io_defs io_bind_assoc io_bind_def)
qed

text \<open>
  What a server may put between two data frames: pings and pongs, each with a payload and
  possibly a mask. The client answers every ping, in order, with a masked pong.
\<close>

record ctrl =
  is_ping :: bool
  ctrl_payload :: bytes
  ctrl_mask :: "mask_key option"

definition ctrl_bytes :: "ctrl \<Rightarrow> bytes" where
  "ctrl_bytes c = ws_frame (if is_ping c then 0x9 else 0xA) (ctrl_payload c) (ctrl_mask c)"

fun pong_bytes :: "(nat \<Rightarrow> mask_key) \<Rightarrow> ctrl list \<Rightarrow> bytes" where
  "pong_bytes keys [] = []"
| "pong_bytes keys (c # cs) =
     (if is_ping c then ws_frame 0xA (ctrl_payload c) (Some (keys 0)) @ pong_bytes (keys \<circ> Suc) cs
      else pong_bytes keys cs)"

lemma read_data_frame_ctrls:
  assumes "list_all (\<lambda>c. length (ctrl_payload c) \<le> 1000000) cs" and "length p \<le> 1000000" and "op \<le> 2"
    and "tx_cap s = None" and "rx s = concat (map ctrl_bytes cs) @ ws_frame op p m @ rest"
  shows "read_data_frame keys s = (Inr p, s\<lparr>rx := rest, tx := tx s @ pong_bytes keys cs\<rparr>)"
  using assms
proof (induction cs arbitrary: s keys)
  case Nil
  have "unat op < 16" using Nil.prems(3) by (simp add: word_le_nat_alt)
  then have "read_frame s = (Inr (op, p), s\<lparr>rx := rest\<rparr>)"
    using Nil.prems by (intro read_frame_ws) simp_all
  then show ?case using Nil.prems(3) by (subst read_data_frame.simps) simp
next
  case (Cons c cs)
  let ?r = "concat (map ctrl_bytes cs) @ ws_frame op p m @ rest"
  have "read_frame s = (Inr (if is_ping c then 0x9 else 0xA, ctrl_payload c), s\<lparr>rx := ?r\<rparr>)"
    using Cons.prems by (intro read_frame_ws [where m = "ctrl_mask c"]) (simp_all add: ctrl_bytes_def [of c])
  then show ?case
    using Cons.prems Cons.IH [of "s\<lparr>rx := ?r, tx := tx s @ ws_frame 0xA (ctrl_payload c) (Some (keys 0))\<rparr>" "keys \<circ> Suc"]
      Cons.IH [of "s\<lparr>rx := ?r\<rparr>" keys]
    by (subst read_data_frame.simps) (simp add: write_frame_def comp_def)
qed

definition unframe_data :: "bytes \<Rightarrow> (bytes \<times> bytes) option" where
  "unframe_data bs =
     (case read_data_frame (\<lambda>_. (0, 0, 0, 0)) (stream_of bs) of (Inr p, t) \<Rightarrow> Some (p, rx t) | _ \<Rightarrow> None)"

definition data_frame :: "bytes \<Rightarrow> bytes" where
  "data_frame p = ws_frame 0x2 p None"

definition frame_ok :: "bytes \<Rightarrow> bool" where
  "frame_ok p \<longleftrightarrow> length p \<le> 1000000"

lemma read_data_frame_one:
  "frame_ok p \<Longrightarrow> tx_cap s = None \<Longrightarrow> rx s = data_frame p @ rest
   \<Longrightarrow> read_data_frame keys s = (Inr p, s\<lparr>rx := rest\<rparr>)"
  using read_data_frame_ctrls [of "[]" p 2 s None rest keys] by (simp add: frame_ok_def data_frame_def)

interpretation ws_frames: framing data_frame unframe_data frame_ok
proof
  fix p rest assume "frame_ok p"
  then show "unframe_data (data_frame p @ rest) = Some (p, rest)"
    by (simp add: unframe_data_def read_data_frame_one)
qed

text \<open>
  A data frame of the server with the control frames before it, and the byte stream that
  repeated calls of \<^verbatim>\<open>read_data_frame\<close> deliver (each with its own random mask keys).
\<close>

record segment =
  seg_ctrls :: "ctrl list"
  seg_opcode :: u8
  seg_payload :: bytes
  seg_mask :: "mask_key option"

definition seg_ok :: "segment \<Rightarrow> bool" where
  "seg_ok g \<longleftrightarrow> list_all (\<lambda>c. length (ctrl_payload c) \<le> 1000000) (seg_ctrls g)
     \<and> length (seg_payload g) \<le> 1000000 \<and> seg_opcode g \<le> 2"

definition seg_bytes :: "segment \<Rightarrow> bytes" where
  "seg_bytes g = concat (map ctrl_bytes (seg_ctrls g)) @ ws_frame (seg_opcode g) (seg_payload g) (seg_mask g)"

fun seg_pongs :: "(nat \<Rightarrow> nat \<Rightarrow> mask_key) \<Rightarrow> segment list \<Rightarrow> bytes" where
  "seg_pongs keys [] = []"
| "seg_pongs keys (g # gs) = pong_bytes (keys 0) (seg_ctrls g) @ seg_pongs (keys \<circ> Suc) gs"

fun read_stream :: "(nat \<Rightarrow> nat \<Rightarrow> mask_key) \<Rightarrow> nat \<Rightarrow> (ws_error, bytes) io" where
  "read_stream keys 0 = io_return []"
| "read_stream keys (Suc n) =
     io_bind (read_data_frame (keys 0)) (\<lambda>p. io_bind (read_stream (keys \<circ> Suc) n) (\<lambda>q. io_return (p @ q)))"

text \<open>
  C20. The byte stream behind the WebSocket is faithful: from any sequence of data frames
  up to the one-megabyte limit (all three length encodings, masked or not, text, binary or
  continuation) with any pings and pongs in between, the client delivers exactly the
  concatenated payloads, leaves the bytes behind the last frame untouched, and has answered
  every ping, in order, by a pong that echoes its payload.
\<close>

theorem ws_stream_faithful:
  assumes "list_all seg_ok gs" and "tx_cap s = None" and "rx s = concat (map seg_bytes gs) @ rest"
  shows "read_stream keys (length gs) s
       = (Inr (concat (map seg_payload gs)), s\<lparr>rx := rest, tx := tx s @ seg_pongs keys gs\<rparr>)"
  using assms
proof (induction gs arbitrary: s keys)
  case Nil
  then show ?case by (simp add: io_defs)
next
  case (Cons g gs)
  let ?t = "s\<lparr>rx := concat (map seg_bytes gs) @ rest, tx := tx s @ pong_bytes (keys 0) (seg_ctrls g)\<rparr>"
  have "read_data_frame (keys 0) s = (Inr (seg_payload g), ?t)"
    using Cons.prems 
    by (intro read_data_frame_ctrls [where op = "seg_opcode g" and m = "seg_mask g"])
      (simp_all add: seg_ok_def [of g] seg_bytes_def [of g])
  then show ?case
    using Cons.IH [of ?t "keys \<circ> Suc"] Cons.prems by (simp add: io_bind_def io_defs comp_def)
qed

definition example_segment :: segment where
  "example_segment =
     \<lparr> seg_ctrls = [\<lparr> is_ping = True, ctrl_payload = [1, 2], ctrl_mask = None \<rparr>], seg_opcode = 1,
       seg_payload = [5, 6, 7, 8, 9], seg_mask = Some (9, 8, 7, 6) \<rparr>"

theorem ws_stream_faithful_witness:
  "fst (read_stream (\<lambda>_ _. (1, 2, 3, 4)) 2 (stream_of (seg_bytes example_segment @ seg_bytes example_segment @ [130])))
     = Inr [5, 6, 7, 8, 9, 5, 6, 7, 8, 9]"
  using ws_stream_faithful [of "[example_segment, example_segment]"
      "stream_of (seg_bytes example_segment @ seg_bytes example_segment @ [130])" "[130]" "\<lambda>_ _. (1, 2, 3, 4)"]
  by (simp add: example_segment_def seg_ok_def numeral_2_eq_2)

text \<open>
  The WebSocket handshake succeeds exactly on a 101 response whose head carries the
  upgrade tokens and the accept key for the random key that was sent; it writes nothing
  but the request, and consumes the response head up to its empty line and not one byte of
  the stream behind it.
\<close>

theorem websocket_handshake_exact:
  assumes "rx s = as_bytes h @ rest" and "length h \<le> 8192" and "suffix HEADER_END h"
    and "\<forall>k < length h. \<not> suffix HEADER_END (take k h)" and "tx_cap s = None"
  shows "websocket_client sha1 key host path s = (Inr (), t) \<longleftrightarrow>
      status_code (from_utf8_lossy (as_bytes h)) = Some ''101''
    \<and> header_has_token (from_utf8_lossy (as_bytes h)) ''upgrade'' ''websocket''
    \<and> header_has_token (from_utf8_lossy (as_bytes h)) ''connection'' ''upgrade''
    \<and> (\<exists>got. header_value (from_utf8_lossy (as_bytes h)) ''sec-websocket-accept'' = Some got
         \<and> eq_ignore_ascii_case got (base64_encode (sha1 (as_bytes (base64_encode key) @ as_bytes GUID))))
    \<and> t = s\<lparr>rx := rest, tx := tx s @ as_bytes (websocket_request host (if path = [] then ''/'' else path) (base64_encode key))\<rparr>"
proof -
  let ?req = "as_bytes (websocket_request host (if path = [] then ''/'' else path) (base64_encode key))"
  let ?h = "from_utf8_lossy (as_bytes h)"
  have "as_bytes h \<noteq> []" using assms(3) by (auto simp: HEADER_END_def as_bytes_def)
  then have rd: "read_headers (s\<lparr>tx := tx s @ ?req\<rparr>) = (Inr ?h, s\<lparr>rx := rest, tx := tx s @ ?req\<rparr>)"
    using read_headers_from_stops [of "s\<lparr>tx := tx s @ ?req\<rparr>" "as_bytes h" rest "[]"] assms
    by (simp add: read_headers_def take_as_bytes)
  show ?thesis
    using assms(5) by (auto simp: websocket_client_def Let_def io_bind_def [of read_headers] rd accept_key_def
        io_defs split: option.splits)
qed

definition example_sha1 :: "bytes \<Rightarrow> bytes" where
  "example_sha1 bs = [0, 0, 0]"

definition example_response :: string where
  "example_response = ''HTTP/1.1 101 OK'' @ CRLF @ ''Upgrade: websocket'' @ CRLF @ ''Connection: Upgrade'' @ CRLF
     @ ''Sec-WebSocket-Accept: AAAA'' @ CRLF @ CRLF"

lemma example_head_facts:
  "suffix HEADER_END example_response" "\<forall>k < length example_response. \<not> suffix HEADER_END (take k example_response)"
  "length example_response \<le> 8192" "list_all (\<lambda>c. (of_char c :: nat) < 128) example_response"
  by code_simp+

lemma example_response_facts:
  "status_code example_response = Some ''101''"
  "header_has_token example_response ''upgrade'' ''websocket''"
  "header_has_token example_response ''connection'' ''upgrade''"
  "header_value example_response ''sec-websocket-accept'' = Some ''AAAA''"
  by code_simp+

theorem websocket_handshake_exact_witness:
  "fst (websocket_client example_sha1 (replicate 16 0) ''h'' [] (stream_of (as_bytes example_response @ [130, 0]))) = Inr ()"
proof -
  have "base64_encode [0, 0, 0] = ''AAAA''" by (simp add: base64_group_def base64_sym_def base64_table_def)
  then show ?thesis
    using websocket_handshake_exact [of "stream_of (as_bytes example_response @ [130, 0])" example_response "[130, 0]"
      example_sha1 "replicate 16 0" "''h''" "[]"
      "(stream_of (as_bytes example_response @ [130, 0]))\<lparr>rx := [130, 0],
         tx := as_bytes (websocket_request ''h'' ''/'' (base64_encode (replicate 16 0)))\<rparr>"]
      example_head_facts example_response_facts
    by (simp add: from_utf8_lossy_ascii example_sha1_def)
qed

subsection \<open>The pump task\<close>

text \<open>
  The spawned task selects between local data, which it sends as one masked binary frame,
  and the next data frame. When local data is ready first, the pending call of
  \<^verbatim>\<open>read_data_frame\<close> is dropped: the \<open>k\<close> bytes it had already consumed are gone. It is
  pending after \<open>k\<close> bytes exactly when it would still ask for more after them.
\<close>

record pump =
  p_ws :: bstream
  p_local :: bytes

definition pending_after :: "nat \<Rightarrow> bstream \<Rightarrow> bool" where
  "pending_after k s \<longleftrightarrow> k \<le> length (rx s)
     \<and> fst (read_data_frame (\<lambda>_. (0, 0, 0, 0)) (stream_of (take k (rx s)))) = Inl (WIo UnexpectedEof)"

definition pump_deliver :: "(nat \<Rightarrow> mask_key) \<Rightarrow> pump \<Rightarrow> pump option" where
  "pump_deliver keys s =
     (case read_data_frame keys (p_ws s) of
        (Inl e, t) \<Rightarrow> None
      | (Inr p, t) \<Rightarrow> Some (s\<lparr>p_ws := t, p_local := p_local s @ p\<rparr>))"

definition pump_upload :: "nat \<Rightarrow> mask_key \<Rightarrow> bytes \<Rightarrow> pump \<Rightarrow> pump option" where
  "pump_upload k key chunk s =
     (if chunk = [] \<or> 16384 < length chunk \<or> \<not> pending_after k (p_ws s) then None
      else case write_frame 0x2 chunk (Some key) ((p_ws s)\<lparr>rx := drop k (rx (p_ws s))\<rparr>) of
        (Inl e, t) \<Rightarrow> None
      | (Inr u, t) \<Rightarrow> Some (s\<lparr>p_ws := t\<rparr>))"

inductive pump_step :: "pump \<Rightarrow> pump \<Rightarrow> bool" where
  step_deliver: "pump_deliver keys s = Some t \<Longrightarrow> pump_step s t"
| step_upload: "pump_upload k key chunk s = Some t \<Longrightarrow> pump_step s t"

text \<open>The same task when a frame is never dropped half-read: uploads happen between frames.\<close>

inductive whole_frame_step :: "pump \<Rightarrow> pump \<Rightarrow> bool" where
  whole_deliver: "pump_deliver keys s = Some t \<Longrightarrow> whole_frame_step s t"
| whole_upload: "pump_upload 0 key chunk s = Some t \<Longrightarrow> whole_frame_step s t"

definition pump_init :: "bytes list \<Rightarrow> pump \<Rightarrow> bool" where
  "pump_init ps s \<longleftrightarrow> list_all frame_ok ps \<and> s = \<lparr> p_ws = stream_of (concat (map data_frame ps)), p_local = [] \<rparr>"

definition pump_inv :: "bytes list \<Rightarrow> pump \<Rightarrow> bool" where
  "pump_inv ps s \<longleftrightarrow> list_all frame_ok ps \<and> tx_cap (p_ws s) = None \<and> rx_end (p_ws s) = UnexpectedEof
     \<and> (\<exists>before after. ps = before @ after \<and> p_local s = concat before
          \<and> rx (p_ws s) = concat (map data_frame after))"

lemma pump_inv_deliver:
  assumes "pump_inv ps s" and "pump_deliver keys s = Some t" shows "pump_inv ps t"
proof -
  from assms(1) obtain before after where b: "ps = before @ after" "p_local s = concat before"
    "rx (p_ws s) = concat (map data_frame after)" and c: "tx_cap (p_ws s) = None"
    "rx_end (p_ws s) = UnexpectedEof" "list_all frame_ok ps"
    by (auto simp: pump_inv_def)
  show ?thesis
  proof (cases after)
    case Nil
    then have "rx (p_ws s) = []" using b by simp
    then have "read_frame (p_ws s) = (Inl (WIo UnexpectedEof), (p_ws s)\<lparr>rx := []\<rparr>)"
      using c by (simp add: read_frame_def io_bind_def)
    then show ?thesis using assms(2) by (simp add: pump_deliver_def read_data_frame.simps)
  next
    case (Cons p ps')
    then have "read_data_frame keys (p_ws s) = (Inr p, (p_ws s)\<lparr>rx := concat (map data_frame ps')\<rparr>)"
      using b c by (intro read_data_frame_one) simp_all
    then have "t = s\<lparr>p_ws := (p_ws s)\<lparr>rx := concat (map data_frame ps')\<rparr>, p_local := p_local s @ p\<rparr>"
      using assms(2) by (simp add: pump_deliver_def)
    then have "ps = (before @ [p]) @ ps' \<and> p_local t = concat (before @ [p])
        \<and> rx (p_ws t) = concat (map data_frame ps')" and "tx_cap (p_ws t) = None" "rx_end (p_ws t) = UnexpectedEof"
      using b c Cons by simp_all
    then show ?thesis using c(3) unfolding pump_inv_def by blast
  qed
qed

lemma pump_inv_upload: "pump_inv ps s \<Longrightarrow> pump_upload 0 key chunk s = Some t \<Longrightarrow> pump_inv ps t"
  by (auto simp: pump_inv_def pump_upload_def write_frame_def split: if_splits) blast

lemma pump_inv_init: "pump_init ps s \<Longrightarrow> pump_inv ps s"
  unfolding pump_init_def pump_inv_def
  by (intro conjI; (rule exI [of _ "[]"], rule exI [of _ ps])?) simp_all

interpretation ws_pump: inductive_invariant "pump_init ps" whole_frame_step "pump_inv ps"
  by unfold_locales
    (auto elim!: whole_frame_step.cases intro: pump_inv_init pump_inv_deliver pump_inv_upload)


definition example_pump :: "bytes \<Rightarrow> pump" where
  "example_pump p = \<lparr> p_ws = stream_of (data_frame p), p_local = [] \<rparr>"

lemma example_pump_init: "frame_ok p \<Longrightarrow> pump_init [p] (example_pump p)"
  by (simp add: pump_init_def example_pump_def)


text \<open>
  The task as written is not transparent: an upload that arrives after the two header
  bytes of a frame have been consumed drops them, and payload bytes are then taken for a
  frame header. Here the server sends one frame with payload 82 01 58 and the local side
  receives the single byte 58.
\<close>

theorem ws_pump_drops_half_read_frame:
  "\<exists>s. reachable (pump_init [[0x82, 0x01, 0x58]]) pump_step s \<and> p_local s = [0x58] \<and> rx (p_ws s) = []"
proof -
  let ?p = "[0x82, 0x01, 0x58] :: bytes" and ?k = "(0, 0, 0, 0) :: mask_key"
  let ?s0 = "example_pump ?p"
  let ?ws = "\<lparr> rx = [0x82, 0x01, 0x58], rx_end = UnexpectedEof, tx = ws_frame 2 [7] (Some ?k), tx_cap = None \<rparr>"
  have f: "data_frame ?p = [0x82, 0x03] @ ?p" by (simp add: data_frame_def ws_frame_def)
  have "read_frame (stream_of [0x82, 0x03]) = (Inl (WIo UnexpectedEof), (stream_of [])\<lparr>rx := []\<rparr>)"
    by (simp add: read_frame_def io_bind_def read_exact_def read_len_def io_defs Let_def stream_of_def)
  then have "pending_after 2 (p_ws ?s0)"
    by (simp add: pending_after_def example_pump_def f read_data_frame.simps)
  then have "pump_upload 2 ?k [7] ?s0 = Some \<lparr> p_ws = ?ws, p_local = [] \<rparr>"
    by (simp add: pump_upload_def write_frame_def example_pump_def f stream_of_def)
  then have u: "pump_step ?s0 \<lparr> p_ws = ?ws, p_local = [] \<rparr>" by (rule step_upload)
  have "data_frame [0x58] = ?p" by (simp add: data_frame_def ws_frame_def)
  then have "read_data_frame (\<lambda>_. ?k) ?ws = (Inr [0x58], ?ws\<lparr>rx := []\<rparr>)"
    by (intro read_data_frame_one) (simp_all add: frame_ok_def)
  then have "pump_deliver (\<lambda>_. ?k) \<lparr> p_ws = ?ws, p_local = [] \<rparr>
      = Some \<lparr> p_ws = ?ws\<lparr>rx := []\<rparr>, p_local = [0x58] \<rparr>"
    by (simp add: pump_deliver_def)
  then have d: "pump_step \<lparr> p_ws = ?ws, p_local = [] \<rparr> \<lparr> p_ws = ?ws\<lparr>rx := []\<rparr>, p_local = [0x58] \<rparr>"
    by (rule step_deliver)
  have "reachable (pump_init [?p]) pump_step ?s0"
    by (simp add: reach_init [where init = "pump_init [?p]"] example_pump_init frame_ok_def)
  then have "reachable (pump_init [?p]) pump_step \<lparr> p_ws = ?ws\<lparr>rx := []\<rparr>, p_local = [0x58] \<rparr>"
    using u d by (blast intro: reach_step)
  then show ?thesis by (intro exI [of _ "\<lparr> p_ws = ?ws\<lparr>rx := []\<rparr>, p_local = [0x58] \<rparr>"]) simp
qed

end
