(* ===== verification/Transport.thy ===== *)
theory Transport
  imports Websocket Http_Head Os Config_Import
begin

text \<open>
  Dialling the server (\<^verbatim>\<open>crates/tls\<close>): the resolver cache, the TLS settings, the five transports and the pool of idle
  streams. Name resolution, TCP, OpenSSL and SHA-1 are other programs, fields of \<open>dial_env\<close> over the state \<open>'w\<close> of the
  machine; time is in nanoseconds. A TLS stream is the plaintext stream inside the session.
\<close>

subsection \<open>ALPN\<close>

fun encode_alpn_wire :: "string list \<Rightarrow> bytes" where
  "encode_alpn_wire [] = []"
| "encode_alpn_wire (p # ps) =
     (if p = [] \<or> 255 < length p then [] else word_of_nat (length p) # as_bytes p) @ encode_alpn_wire ps"

definition alpn_for_profile :: "tls_fingerprint_profile \<Rightarrow> string list \<Rightarrow> transport \<Rightarrow> string list" where
  "alpn_for_profile profile user transport =
     (if user \<noteq> [] then user
      else case profile of
             FpDefault \<Rightarrow> [] | FpCustom \<Rightarrow> []
           | _ \<Rightarrow> (case transport of Wss \<Rightarrow> [''http/1.1''] | HttpUpgrade \<Rightarrow> [''http/1.1''] | _ \<Rightarrow> []))"

subsection \<open>The request\<close>

record dial_request =
  dr_host :: string
  dr_port :: u16
  dr_transport :: transport
  dr_tls :: tls_settings

definition dial_from_profile :: "string \<Rightarrow> u16 \<Rightarrow> transport \<Rightarrow> tls_settings \<Rightarrow> dial_request" where
  "dial_from_profile host port transport tls = \<lparr> dr_host = host, dr_port = port, dr_transport = transport, dr_tls = tls \<rparr>"

definition nonempty :: "string option \<Rightarrow> string option" where
  "nonempty s = (case s of None \<Rightarrow> None | Some t \<Rightarrow> if t = [] then None else Some t)"

definition unwrap_or :: "'a option \<Rightarrow> 'a \<Rightarrow> 'a" where
  "unwrap_or x d = (case x of None \<Rightarrow> d | Some y \<Rightarrow> y)"

definition dial_sni :: "dial_request \<Rightarrow> string" where
  "dial_sni req = unwrap_or (nonempty (tls_sni (dr_tls req))) (dr_host req)"

definition dial_host_header :: "dial_request \<Rightarrow> string" where
  "dial_host_header req =
     unwrap_or (nonempty (case nonempty (tls_host (dr_tls req)) of Some h \<Rightarrow> Some h | None \<Rightarrow> tls_sni (dr_tls req))) (dr_host req)"

definition dial_path :: "dial_request \<Rightarrow> string" where
  "dial_path req = unwrap_or (nonempty (tls_path (dr_tls req))) ''/''"

subsection \<open>The machine\<close>

datatype transport_error = TIo string | TTls string | TWs ws_error | TOther string

record tls_setup =
  ssl_min_tls12 :: bool
  ssl_verify :: bool
  ssl_alpn :: "bytes option"
  ssl_server_name :: string

datatype wait_error = TimedOutAfter | FailedWith string

record 'w dial_env =
  lookup_host :: "string \<Rightarrow> u16 \<Rightarrow> 'w \<Rightarrow> (string + sock_addr list) \<times> 'w"
  tcp_connect :: "sock_addr list \<Rightarrow> 'w \<Rightarrow> (wait_error + bstream) \<times> 'w"
  tls_connect :: "tls_setup \<Rightarrow> bstream \<Rightarrow> 'w \<Rightarrow> (wait_error + bstream) \<times> 'w"
  acquire_permit :: "'w \<Rightarrow> (wait_error + unit) \<times> 'w"
  draw_ws_key :: "'w \<Rightarrow> bytes \<times> 'w"
  instant_now :: "'w \<Rightarrow> nat"
  sha1_digest :: "bytes \<Rightarrow> bytes"

record 'w net =
  nw_cache :: "(string, nat \<times> sock_addr list) table"
  nw_sys :: 'w

definition on_sys :: "('w \<Rightarrow> 'r \<times> 'w) \<Rightarrow> 'w net \<Rightarrow> 'r \<times> 'w net" where
  "on_sys f s = (case f (nw_sys s) of (r, w) \<Rightarrow> (r, s\<lparr>nw_sys := w\<rparr>))"

subsection \<open>TCP with a resolver cache\<close>

definition CACHE_TTL :: nat where "CACHE_TTL = 60 * 1000000000"

definition host_key_text :: "string \<Rightarrow> u16 \<Rightarrow> string" where
  "host_key_text host port = host @ '':'' @ show_nat (unat port)"

definition cached :: "nat \<Rightarrow> string \<Rightarrow> (string, nat \<times> sock_addr list) table
    \<Rightarrow> sock_addr list option \<times> (string, nat \<times> sock_addr list) table" where
  "cached now key cache =
     (case tget key cache of
        None \<Rightarrow> (None, cache)
      | Some (at, addrs) \<Rightarrow> if CACHE_TTL < now - at then (None, tdel key cache) else (Some addrs, cache))"

definition resolve_cached :: "('w, 'a) dial_env_scheme \<Rightarrow> string \<Rightarrow> u16 \<Rightarrow> ('w net, transport_error, sock_addr list) act" where
  "resolve_cached env host port s =
     (let key = host_key_text host port in
      case cached (instant_now env (nw_sys s)) key (nw_cache s) of
        (Some addrs, cache) \<Rightarrow> (Inr addrs, s\<lparr>nw_cache := cache\<rparr>)
      | (None, cache) \<Rightarrow>
          (case on_sys (lookup_host env host port) (s\<lparr>nw_cache := cache\<rparr>) of
             (Inl e, s1) \<Rightarrow> (Inl (TOther (''resolve '' @ key @ '': '' @ e)), s1)
           | (Inr addrs, s1) \<Rightarrow>
               if addrs = [] then (Inl (TOther (''no addresses for '' @ host)), s1)
               else (Inr addrs, s1\<lparr>nw_cache := tput key (instant_now env (nw_sys s1), addrs) (nw_cache s1)\<rparr>)))"

definition connect_tcp :: "('w, 'a) dial_env_scheme \<Rightarrow> string \<Rightarrow> u16 \<Rightarrow> ('w net, transport_error, bstream) act" where
  "connect_tcp env host port =
     act_bind (resolve_cached env host port) (\<lambda>addrs s.
       case on_sys (tcp_connect env addrs) s of
         (Inl TimedOutAfter, s1) \<Rightarrow> (Inl (TOther (''TCP connect to '' @ host_key_text host port @ '' timed out'')), s1)
       | (Inl (FailedWith e), s1) \<Rightarrow> (Inl (TIo e), s1)
       | (Inr stream, s1) \<Rightarrow> (Inr stream, s1))"

subsection \<open>TLS\<close>

definition tls_setup_for :: "dial_request \<Rightarrow> tls_setup" where
  "tls_setup_for req =
     (let alpn = alpn_for_profile (tls_fingerprint (dr_tls req)) (tls_alpn (dr_tls req)) (dr_transport req) in
      \<lparr> ssl_min_tls12 = True, ssl_verify = tls_verify (dr_tls req),
        ssl_alpn = (if alpn = [] then None else Some (encode_alpn_wire alpn)), ssl_server_name = dial_sni req \<rparr>)"

definition openssl_connect :: "('w, 'a) dial_env_scheme \<Rightarrow> dial_request \<Rightarrow> ('w net, transport_error, bstream) act" where
  "openssl_connect env req =
     act_bind (connect_tcp env (dr_host req) (dr_port req)) (\<lambda>tcp s.
       case on_sys (tls_connect env (tls_setup_for req) tcp) s of
         (Inl TimedOutAfter, s1) \<Rightarrow>
           (Inl (TTls (''TLS handshake to '' @ host_key_text (dr_host req) (dr_port req) @ '' timed out'')), s1)
       | (Inl (FailedWith e), s1) \<Rightarrow> (Inl (TTls e), s1)
       | (Inr stream, s1) \<Rightarrow> (Inr stream, s1))"

subsection \<open>The transports\<close>

datatype dialled =
    PlainTcp bstream
  | TlsOver tls_setup bstream
  | WsOver "tls_setup option" bstream
  | UpgradedOver "tls_setup option" bstream

definition run_ws :: "('w, 'a) dial_env_scheme \<Rightarrow> dial_request \<Rightarrow> tls_setup option \<Rightarrow> bstream \<Rightarrow> ('w net, transport_error, dialled) act" where
  "run_ws env req tls stream s =
     (let (key, s1) = on_sys (draw_ws_key env) s in
      case websocket_client (sha1_digest env) key (dial_host_header req) (dial_path req) stream of
        (Inl e, _) \<Rightarrow> (Inl (TWs e), s1)
      | (Inr _, stream1) \<Rightarrow> (Inr (WsOver tls stream1), s1))"

definition run_upgrade :: "dial_request \<Rightarrow> tls_setup option \<Rightarrow> bstream \<Rightarrow> ('w net, transport_error, dialled) act" where
  "run_upgrade req tls stream s =
     (case http_upgrade (dial_host_header req) (dial_path req) stream of
        (Inl e, _) \<Rightarrow> (Inl (TWs e), s)
      | (Inr _, stream1) \<Rightarrow> (Inr (UpgradedOver tls stream1), s))"

definition dial_unlocked :: "('w, 'a) dial_env_scheme \<Rightarrow> dial_request \<Rightarrow> ('w net, transport_error, dialled) act" where
  "dial_unlocked env req =
     (case dr_transport req of
        Direct \<Rightarrow> act_bind (connect_tcp env (dr_host req) (dr_port req)) (\<lambda>tcp. act_return (PlainTcp tcp))
      | Tls \<Rightarrow> act_bind (openssl_connect env req) (\<lambda>tls. act_return (TlsOver (tls_setup_for req) tls))
      | WebSocket \<Rightarrow> act_bind (connect_tcp env (dr_host req) (dr_port req)) (run_ws env req None)
      | Wss \<Rightarrow> act_bind (openssl_connect env req) (run_ws env req (Some (tls_setup_for req)))
      | HttpUpgrade \<Rightarrow>
          if tls_sni (dr_tls req) \<noteq> None \<or> tls_alpn (dr_tls req) \<noteq> []
          then act_bind (openssl_connect env req) (run_upgrade req (Some (tls_setup_for req)))
          else act_bind (connect_tcp env (dr_host req) (dr_port req)) (run_upgrade req None))"

definition dial :: "('w, 'a) dial_env_scheme \<Rightarrow> dial_request \<Rightarrow> ('w net, transport_error, dialled) act" where
  "dial env req s =
     (case on_sys (acquire_permit env) s of
        (Inl TimedOutAfter, s1) \<Rightarrow> (Inl (TOther ''too many concurrent tunnel handshakes''), s1)
      | (Inl (FailedWith _), s1) \<Rightarrow> (Inl (TOther ''tunnel handshake limiter closed''), s1)
      | (Inr _, s1) \<Rightarrow> dial_unlocked env req s1)"

subsection \<open>The resolver cache\<close>

text \<open>
  Every entry of the cache is an answer the resolver gave for that host and port; \<open>asked\<close> lists the answers so far with
  the instants at which they were stored.
\<close>

definition cache_ok :: "(string \<times> u16 \<times> nat \<times> sock_addr list) list \<Rightarrow> (string, nat \<times> sock_addr list) table \<Rightarrow> bool" where
  "cache_ok asked cache \<longleftrightarrow>
     (\<forall>host port at addrs. tget (host_key_text host port) cache = Some (at, addrs) \<longrightarrow> (host, port, at, addrs) \<in> set asked)"

lemma host_key_text_inject: "host_key_text h p = host_key_text h' p' \<longleftrightarrow> h = h' \<and> p = p'"
proof
  assume k: "host_key_text h p = host_key_text h' p'"
  have "rsplit_once CHR '':'' (host_key_text h p) = Some (h, show_nat (unat p))"
    "rsplit_once CHR '':'' (host_key_text h' p') = Some (h', show_nat (unat p'))"
    using rsplit_once_append [OF show_nat_no_colon] by (simp_all add: host_key_text_def)
  then show "h = h' \<and> p = p'" using k by (simp add: show_nat_inject word_unat_eq_iff)
qed simp

lemma tget_tdel_Some: "tget k (tdel k' c) = Some v \<Longrightarrow> twf c \<Longrightarrow> tget k c = Some v"
  by (simp add: tbl.lookup_remove split: if_splits)

lemma resolve_cached_sound:
  assumes "twf (nw_cache s)" and "cache_ok asked (nw_cache s)" and "resolve_cached env host port s = (Inr addrs, s')"
  shows "(\<exists>at. (host, port, at, addrs) \<in> set asked \<and> instant_now env (nw_sys s) - at \<le> CACHE_TTL \<and> s' = s)
       \<or> (fst (lookup_host env host port (nw_sys s)) = Inr addrs \<and> addrs \<noteq> [] \<and> twf (nw_cache s')
          \<and> cache_ok ((host, port, instant_now env (nw_sys s'), addrs) # asked) (nw_cache s'))"
proof (cases "cached (instant_now env (nw_sys s)) (host_key_text host port) (nw_cache s)")
  case (Pair r cache)
  show ?thesis
  proof (cases r)
    case (Some a)
    then obtain at where at: "tget (host_key_text host port) (nw_cache s) = Some (at, a)" "cache = nw_cache s"
      "instant_now env (nw_sys s) - at \<le> CACHE_TTL"
      using Pair by (auto simp: cached_def split: option.splits if_splits)
    then have "(host, port, at, a) \<in> set asked" using assms(2) by (simp add: cache_ok_def)
    moreover have "addrs = a" "s' = s" using assms(3) Pair Some at(2) by (simp_all add: resolve_cached_def Let_def)
    ultimately show ?thesis using at(3) by blast
  next
    case None
    then have c: "cache = nw_cache s \<or> cache = tdel (host_key_text host port) (nw_cache s)"
      using Pair by (auto simp: cached_def split: option.splits if_splits)
    then have w: "twf cache" using assms(1) by (auto simp: tbl.wf_remove)
    have "tget k (nw_cache s) = Some v" if "tget k cache = Some v" for k v
      using c that assms(1) tget_tdel_Some by metis
    then have ok: "cache_ok asked cache" using assms(2) unfolding cache_ok_def by blast
    obtain x w' where x: "lookup_host env host port (nw_sys s) = (x, w')" by fastforce
    then show ?thesis using assms(3) Pair None w ok
      by (auto simp: resolve_cached_def on_sys_def cache_ok_def tbl.wf_insert tbl.lookup_insert host_key_text_inject Let_def
          split: sum.splits if_splits)
  qed
qed

subsection \<open>What a dialled stream has sent\<close>

lemma read_exact_keeps: "read_exact conv n s = (r, t) \<Longrightarrow> tx t = tx s"
  using read_exact_tx [of conv n s] by simp

lemma read_headers_from_tx: "tx (snd (read_headers_from m buf s)) = tx s"
proof (induction m buf s rule: read_headers_from.induct)
  case (1 m buf s)
  obtain r t where r: "read_exact WIo 1 s = (r, t)" by fastforce
  show ?case
  proof (cases r)
    case (Inl e)
    then show ?thesis using r read_exact_keeps [OF r] by (subst read_headers_from.simps) simp
  next
    case (Inr b)
    then show ?thesis using r read_exact_keeps [OF r] 1 [OF _ r [symmetric], of b "buf @ b"]
      by (subst read_headers_from.simps) (simp add: Let_def)
  qed
qed

lemma write_all_Inr: "write_all conv bs s = (Inr u, t) \<Longrightarrow> tx t = tx s @ bs"
  by (auto simp: write_all_def split: option.splits if_splits)

lemma websocket_client_tx:
  assumes "websocket_client sha1 key host path s = (Inr u, t)"
  shows "tx t = tx s @ as_bytes (websocket_request host (if path = [] then ''/'' else path) (base64_encode key))"
proof -
  obtain s1 h s2 where w: "write_all WIo (as_bytes (websocket_request host (if path = [] then ''/'' else path) (base64_encode key))) s = (Inr (), s1)"
    and h: "read_headers s1 = (Inr h, s2)" and t: "t = s2"
    using assms by (auto simp: websocket_client_def Let_def io_bind_Inr io_defs split: if_splits option.splits)
  have "tx (snd (read_headers s1)) = tx s1" by (simp add: read_headers_def read_headers_from_tx)
  then show ?thesis using write_all_Inr [OF w] h t by simp
qed

lemma http_upgrade_tx:
  assumes "http_upgrade host path s = (Inr u, t)"
  shows "tx t = tx s @ as_bytes (upgrade_request host (if path = [] then ''/'' else path))"
proof -
  obtain s1 h s2 where w: "write_all WIo (as_bytes (upgrade_request host (if path = [] then ''/'' else path))) s = (Inr (), s1)"
    and h: "upgrade_read_headers s1 = (Inr h, s2)" and t: "t = s2"
    using assms by (auto simp: http_upgrade_def Let_def io_bind_Inr io_defs split: if_splits)
  have "tx (snd (upgrade_read_headers s1)) = tx s1" by (simp add: upgrade_read_headers_def read_headers_from_tx)
  then show ?thesis using write_all_Inr [OF w] h t by simp
qed

lemma base64_encode_graph: "list_all graph_char (base64_encode bs)"
proof -
  have t: "list_all graph_char base64_table" by (simp add: base64_table_def graph_char_def)
  have s: "graph_char (base64_sym (n AND 63))" for n
    using t nth_mem [of "unat (n AND 63)" base64_table] and_63_less [of n] base64_table_props(2)
    by (simp add: base64_sym_def list_all_iff)
  show ?thesis by (induction bs rule: base64_encode.induct) (simp_all add: Let_def s, simp_all add: graph_char_def)
qed

lemma no_break_breaks: "\<not> list_ex breaks_line s \<Longrightarrow> no_break s"
  by (auto simp: no_break_def list_ex_iff breaks_line_def)

subsection \<open>The head lines of an upgrade\<close>

definition ws_lines :: "string \<Rightarrow> string \<Rightarrow> string \<Rightarrow> string list" where
  "ws_lines host path key =
     [''GET '' @ path @ '' HTTP/1.1'', ''Host: '' @ host, ''Upgrade: websocket'', ''Connection: Upgrade'',
      ''Sec-WebSocket-Key: '' @ key, ''Sec-WebSocket-Version: 13'']"

definition upgrade_lines :: "string \<Rightarrow> string \<Rightarrow> string list" where
  "upgrade_lines host path =
     [''GET '' @ path @ '' HTTP/1.1'', ''Host: '' @ host, ''Connection: Upgrade'', ''Upgrade: websocket'']"

lemma ws_request_seen:
  assumes "no_break host" and "no_break path" and "no_break key"
  shows "seen_request (websocket_request host path key) = Some (ws_lines host path key, [])"
    and "seen_request (upgrade_request host path) = Some (upgrade_lines host path, [])"
proof -
  have "list_all line_ok (ws_lines host path key)" "list_all line_ok (upgrade_lines host path)"
    using assms by (simp_all add: ws_lines_def upgrade_lines_def line_ok_def no_break_def)
  moreover have "websocket_request host path key = head_text (ws_lines host path key) @ CRLF @ []"
    "upgrade_request host path = head_text (upgrade_lines host path) @ CRLF @ []"
    by (simp_all add: websocket_request_def upgrade_request_def ws_lines_def upgrade_lines_def head_text_def)
  moreover have "ws_lines host path key \<noteq> []" "upgrade_lines host path \<noteq> []" by (simp_all add: ws_lines_def upgrade_lines_def)
  ultimately show "seen_request (websocket_request host path key) = Some (ws_lines host path key, [])"
    "seen_request (upgrade_request host path) = Some (upgrade_lines host path, [])"
    using seen_request_lines by metis+
qed

text \<open>A reader of the ALPN extension.\<close>

function decode_alpn_wire :: "bytes \<Rightarrow> string list" where
  "decode_alpn_wire [] = []"
| "decode_alpn_wire (n # bs) = str_of_bytes (take (unat n) bs) # decode_alpn_wire (drop (unat n) bs)"
  by pat_completeness auto
termination by (relation "measure length") auto

lemma alpn_wire_roundtrip:
  "list_all (\<lambda>a. a \<noteq> [] \<and> length a \<le> 255) ps \<Longrightarrow> decode_alpn_wire (encode_alpn_wire ps) = ps"
  by (induction ps) (simp_all add: unat_word_of_nat)

definition fresh_streams :: "('w, 'a) dial_env_scheme \<Rightarrow> bool" where
  "fresh_streams env \<longleftrightarrow>
     (\<forall>addrs w b w'. tcp_connect env addrs w = (Inr b, w') \<longrightarrow> tx b = [])
   \<and> (\<forall>setup c w b w'. tls_connect env setup c w = (Inr b, w') \<longrightarrow> tx b = [])"

definition profile_dial :: "connection_config \<Rightarrow> dial_request" where
  "profile_dial cfg = dial_from_profile (cfg_host cfg) (cfg_port cfg) (cfg_transport cfg) (cfg_tls cfg)"

definition tls_as_configured :: "connection_config \<Rightarrow> tls_setup \<Rightarrow> bool" where
  "tls_as_configured cfg setup \<longleftrightarrow>
     ssl_min_tls12 setup \<and> ssl_verify setup = tls_verify (cfg_tls cfg)
   \<and> ssl_server_name setup = (case tls_sni (cfg_tls cfg) of Some n \<Rightarrow> if n = [] then cfg_host cfg else n | None \<Rightarrow> cfg_host cfg)
   \<and> (if tls_alpn (cfg_tls cfg) = [] then map_option decode_alpn_wire (ssl_alpn setup) \<in> {None, Some [''http/1.1'']}
      else map_option decode_alpn_wire (ssl_alpn setup) = Some (tls_alpn (cfg_tls cfg)))"

lemma connect_tcp_fresh: "fresh_streams env \<Longrightarrow> connect_tcp env host port s = (Inr b, s') \<Longrightarrow> tx b = []"
  by (auto simp: connect_tcp_def act_bind_Inr on_sys_def fresh_streams_def split: prod.splits sum.splits wait_error.splits)

lemma openssl_connect_fresh: "fresh_streams env \<Longrightarrow> openssl_connect env req s = (Inr b, s') \<Longrightarrow> tx b = []"
  by (auto simp: openssl_connect_def act_bind_Inr on_sys_def fresh_streams_def split: prod.splits sum.splits wait_error.splits) blast

lemma run_ws_sent:
  assumes "tx c = []" and "run_ws env req t c s = (Inr d, s')" and "no_break (dial_host_header req)" and "no_break (dial_path req)"
  shows "\<exists>b key. d = WsOver t b \<and> seen_request (str_of_bytes (tx b)) = Some (ws_lines (dial_host_header req) (dial_path req) key, [])"
proof -
  obtain key b where w: "websocket_client (sha1_digest env) key (dial_host_header req) (dial_path req) c = (Inr (), b)"
    and d: "d = WsOver t b"
    using assms(2) by (auto simp: run_ws_def on_sys_def Let_def split: prod.splits sum.splits)
  have p: "dial_path req \<noteq> []" by (simp add: dial_path_def unwrap_or_def nonempty_def split: option.splits)
  have "no_break (base64_encode key)" by (rule no_break_graph [OF base64_encode_graph])
  with websocket_client_tx [OF w] p assms(1) ws_request_seen(1) [OF assms(3,4)] show ?thesis by (simp add: d) blast
qed

lemma run_upgrade_sent:
  assumes "tx c = []" and "run_upgrade req t c s = (Inr d, s')" and "no_break (dial_host_header req)" and "no_break (dial_path req)"
  shows "\<exists>b. d = UpgradedOver t b \<and> seen_request (str_of_bytes (tx b)) = Some (upgrade_lines (dial_host_header req) (dial_path req), [])"
proof -
  obtain b where w: "http_upgrade (dial_host_header req) (dial_path req) c = (Inr (), b)" and d: "d = UpgradedOver t b"
    using assms(2) by (auto simp: run_upgrade_def split: prod.splits sum.splits)
  have p: "dial_path req \<noteq> []" by (simp add: dial_path_def unwrap_or_def nonempty_def split: option.splits)
  have "no_break []" by (simp add: no_break_def)
  with http_upgrade_tx [OF w] p assms(1) ws_request_seen(2) [OF assms(3,4)] show ?thesis by (simp add: d)
qed

lemma profile_dial_no_break:
  assumes "valid_config cenv cfg"
  shows "no_break (dial_host_header (profile_dial cfg))" and "no_break (dial_path (profile_dial cfg))"
  using valid_endpoint(3) [OF assms] valid_transport(1-3) [OF assms]
  by (auto simp: profile_dial_def dial_from_profile_def dial_host_header_def dial_path_def unwrap_or_def nonempty_def
      split: option.splits intro!: no_break_breaks) (auto simp: no_break_def breaks_line_def)

lemma tls_setup_configured: "valid_config cenv cfg \<Longrightarrow> tls_as_configured cfg (tls_setup_for (profile_dial cfg))"
proof -
  assume v: "valid_config cenv cfg"
  have "list_all (\<lambda>a. a \<noteq> [] \<and> length a \<le> 255) (tls_alpn (cfg_tls cfg))"
    using valid_transport(4) [OF v] by (auto simp: list_all_iff)
  then show ?thesis
    using alpn_wire_roundtrip [of "tls_alpn (cfg_tls cfg)"] alpn_wire_roundtrip [of "[''http/1.1'']"]
    by (auto simp: tls_as_configured_def tls_setup_for_def profile_dial_def dial_from_profile_def alpn_for_profile_def
        dial_sni_def unwrap_or_def nonempty_def Let_def split: option.splits tls_fingerprint_profile.splits transport.splits)
qed

definition sent_request :: "bstream \<Rightarrow> string list \<Rightarrow> bool" where
  "sent_request b ls \<longleftrightarrow> seen_request (str_of_bytes (tx b)) = Some (ls, [])"


definition example_dial_env :: "unit dial_env" where
  "example_dial_env =
     \<lparr> lookup_host = (\<lambda>_ port w. (Inr [SockV4 1 port], w)), tcp_connect = (\<lambda>_ w. (Inr (stream_of (as_bytes example_response)), w)),
       tls_connect = (\<lambda>_ b w. (Inr (b\<lparr>tx := []\<rparr>), w)), acquire_permit = (\<lambda>w. (Inr (), w)), draw_ws_key = (\<lambda>w. (replicate 16 0, w)),
       instant_now = (\<lambda>_. 0), sha1_digest = example_sha1 \<rparr>"

definition example_net :: "unit net" where
  "example_net = \<lparr> nw_cache = [], nw_sys = () \<rparr>"

lemma example_handshake:
  "\<exists>t. websocket_client example_sha1 key host path (stream_of (as_bytes example_response)) = (Inr (), t)"
proof -
  let ?s = "stream_of (as_bytes example_response)"
  have b: "base64_encode [0, 0, 0] = ''AAAA''" by (simp add: base64_group_def base64_sym_def base64_table_def)
  have "as_bytes example_response \<noteq> []" by (simp add: example_response_def as_bytes_def)
  then have rd: "read_headers (?s\<lparr>tx := x\<rparr>) = (Inr example_response, ?s\<lparr>rx := [], tx := x\<rparr>)" for x
    using read_headers_from_stops [of "?s\<lparr>tx := x\<rparr>" "as_bytes example_response" "[]" "[]"] example_head_facts
    by (simp add: read_headers_def take_as_bytes stream_of_def from_utf8_lossy_ascii)
  show ?thesis
    using example_response_facts b
    by (simp add: websocket_client_def Let_def io_bind_def [of read_headers] io_bind_def [of "write_all _ _"] write_all_def
        stream_of_def) (simp add: rd [unfolded stream_of_def, simplified] accept_key_def example_sha1_def io_defs)
qed


end
