(* ===== verification/Idle_Pool.thy ===== *)
theory Idle_Pool
  imports Transport
begin

text \<open>
  The pool of idle streams (\<^verbatim>\<open>crates/tls/src/pool.rs\<close>). \<open>fill_one\<close> runs in tasks of its own: a task goes through the atomic
  actions between its awaits one at a time, so that tasks and callers of \<open>take\<close> interleave freely. Counters are
  natural numbers, as fewer than \<open>2^64\<close> tasks exist; instants are in nanoseconds.
\<close>

definition MAX_IDLE_AGE :: nat where "MAX_IDLE_AGE = 25 * 1000000000"

text \<open>A task will look at the queue; will count itself; was one too many; is dialling; has a stream to store.\<close>

datatype 'c fill_state = FillStart | FillCount | FillReject | FillDial | FillStore 'c

record 'c pool =
  pl_max :: nat
  pl_idle :: "(nat \<times> 'c) list"
  pl_filling :: nat
  pl_tasks :: "'c fill_state list"

definition pool_new :: "nat \<Rightarrow> 'c pool" where
  "pool_new max_idle = \<lparr> pl_max = max max_idle 1, pl_idle = [], pl_filling = 0, pl_tasks = [] \<rparr>"

fun pop_fresh :: "nat \<Rightarrow> (nat \<times> 'c) list \<Rightarrow> 'c option \<times> (nat \<times> 'c) list" where
  "pop_fresh now [] = (None, [])"
| "pop_fresh now ((at, stream) # q) = (if now - at < MAX_IDLE_AGE then (Some stream, q) else pop_fresh now q)"

definition spawn_fill :: "nat \<Rightarrow> 'c pool \<Rightarrow> 'c pool" where
  "spawn_fill n p = p\<lparr>pl_tasks := pl_tasks p @ replicate n FillStart\<rparr>"

definition take_idle :: "nat \<Rightarrow> 'c pool \<Rightarrow> 'c option \<times> 'c pool" where
  "take_idle now p = (case pop_fresh now (pl_idle p) of (stream, q) \<Rightarrow> (stream, spawn_fill 1 (p\<lparr>pl_idle := q\<rparr>)))"

definition pool_take :: "('w, 'a) dial_env_scheme \<Rightarrow> dial_request \<Rightarrow> dialled pool \<times> 'w net
    \<Rightarrow> (transport_error + dialled) \<times> dialled pool \<times> 'w net" where
  "pool_take env req s =
     (case take_idle (instant_now env (nw_sys (snd s))) (fst s) of
        (Some stream, p) \<Rightarrow> (Inr stream, p, snd s)
      | (None, p) \<Rightarrow> (case dial env req (snd s) of (r, n) \<Rightarrow> (r, p, n)))"

definition end_task :: "nat \<Rightarrow> 'c pool \<Rightarrow> 'c pool" where
  "end_task i p = p\<lparr>pl_tasks := take i (pl_tasks p) @ drop (Suc i) (pl_tasks p)\<rparr>"

text \<open>The next atomic action of task \<open>i\<close>; \<open>result\<close> is what its dial returned, if it was dialling.\<close>

definition fill_advance :: "nat \<Rightarrow> 'c option \<Rightarrow> nat \<Rightarrow> 'c pool \<Rightarrow> 'c pool" where
  "fill_advance now result i p =
     (if length (pl_tasks p) \<le> i then p
      else case pl_tasks p ! i of
        FillStart \<Rightarrow>
          if pl_max p \<le> length (pl_idle p) then end_task i p else p\<lparr>pl_tasks := (pl_tasks p)[i := FillCount]\<rparr>
      | FillCount \<Rightarrow>
          p\<lparr>pl_filling := pl_filling p + 1,
            pl_tasks := (pl_tasks p)[i := if pl_max p \<le> pl_filling p then FillReject else FillDial]\<rparr>
      | FillReject \<Rightarrow> end_task i (p\<lparr>pl_filling := pl_filling p - 1\<rparr>)
      | FillDial \<Rightarrow>
          (case result of
             None \<Rightarrow> end_task i (p\<lparr>pl_filling := pl_filling p - 1\<rparr>)
           | Some stream \<Rightarrow> p\<lparr>pl_filling := pl_filling p - 1, pl_tasks := (pl_tasks p)[i := FillStore stream]\<rparr>)
      | FillStore stream \<Rightarrow>
          end_task i (if length (pl_idle p) < pl_max p then p\<lparr>pl_idle := pl_idle p @ [(now, stream)]\<rparr> else p))"

subsection \<open>All interleavings\<close>

definition stored :: "'c fill_state list \<Rightarrow> 'c list" where
  "stored ts = concat (map (\<lambda>t. case t of FillStore c \<Rightarrow> [c] | _ \<Rightarrow> []) ts)"

definition held :: "'c pool \<times> 'c list \<Rightarrow> 'c list" where
  "held s = snd s @ map snd (pl_idle (fst s)) @ stored (pl_tasks (fst s))"

text \<open>The pool with the streams it has handed out. A new connection is one that is not yet known.\<close>

inductive pool_step :: "'c pool \<times> 'c list \<Rightarrow> 'c pool \<times> 'c list \<Rightarrow> bool" where
  taken: "take_idle now p = (Some c, p') \<Longrightarrow> pool_step (p, g) (p', g @ [c])"
| missed: "take_idle now p = (None, p') \<Longrightarrow> pool_step (p, g) (p', g)"
| filled: "pool_step (p, g) (spawn_fill n p, g)"
| advanced: "(case result of None \<Rightarrow> True | Some c \<Rightarrow> c \<notin> set (held (p, g))) \<Longrightarrow> pool_step (p, g) (fill_advance now result i p, g)"

definition pool_init :: "nat \<Rightarrow> 'c pool \<times> 'c list \<Rightarrow> bool" where
  "pool_init m s \<longleftrightarrow> s = (pool_new m, [])"

definition dialling :: "'c pool \<Rightarrow> nat" where
  "dialling p = length (filter (\<lambda>t. t = FillDial) (pl_tasks p))"

definition counted :: "'c pool \<Rightarrow> nat" where
  "counted p = length (filter (\<lambda>t. t = FillDial \<or> t = FillReject) (pl_tasks p))"

definition pool_inv :: "nat \<Rightarrow> 'c pool \<times> 'c list \<Rightarrow> bool" where
  "pool_inv m s \<longleftrightarrow>
     pl_max (fst s) = max m 1 \<and> length (pl_idle (fst s)) \<le> pl_max (fst s) \<and> pl_filling (fst s) = counted (fst s)
   \<and> dialling (fst s) \<le> pl_max (fst s) \<and> distinct (held s)"

lemma pop_fresh_spec:
  "case pop_fresh now q of
     (None, r) \<Rightarrow> r = [] \<and> list_all (\<lambda>x. MAX_IDLE_AGE \<le> now - fst x) q
   | (Some c, r) \<Rightarrow> (\<exists>old at. q = old @ (at, c) # r \<and> now - at < MAX_IDLE_AGE \<and> list_all (\<lambda>x. MAX_IDLE_AGE \<le> now - fst x) old)"
proof (induction q)
  case (Cons x q)
  obtain at c where x: "x = (at, c)" by fastforce
  show ?case
  proof (cases "now - at < MAX_IDLE_AGE")
    case True
    then show ?thesis by (auto simp: x intro!: exI [of _ "[]"])
  next
    case False
    show ?thesis
    proof (cases "pop_fresh now q")
      case (Pair r rest)
      show ?thesis
      proof (cases r)
        case None
        then show ?thesis using Cons Pair False by (simp add: x)
      next
        case (Some d)
        then obtain old t where "q = old @ (t, d) # rest" "now - t < MAX_IDLE_AGE" "list_all (\<lambda>x. MAX_IDLE_AGE \<le> now - fst x) old"
          using Cons Pair by auto
        then show ?thesis using Pair Some False by (auto simp: x intro!: exI [of _ "(at, c) # old"])
      qed
    qed
  qed
qed simp

lemma dialling_le_counted: "dialling p \<le> counted p"
proof -
  have "length (filter (\<lambda>t. t = FillDial) ts) \<le> length (filter (\<lambda>t. t = FillDial \<or> t = FillReject) ts)" for ts :: "'a fill_state list"
    by (induction ts) auto
  then show ?thesis by (simp add: dialling_def counted_def)
qed

lemma split_task: "i < length ts \<Longrightarrow> \<exists>ys zs. ts = ys @ ts ! i # zs \<and> length ys = i"
  by (intro exI [of _ "take i ts"] exI [of _ "drop (Suc i) ts"]) (simp add: id_take_nth_drop min_def)

lemmas pool_defs = pool_inv_def held_def stored_def dialling_def counted_def end_task_def spawn_fill_def

lemma fill_advance_at:
  assumes "pl_tasks p = ys @ t # zs"
  shows "fill_advance now result (length ys) p =
     (case t of
        FillStart \<Rightarrow> p\<lparr>pl_tasks := (if pl_max p \<le> length (pl_idle p) then ys @ zs else ys @ FillCount # zs)\<rparr>
      | FillCount \<Rightarrow>
          p\<lparr>pl_filling := pl_filling p + 1, pl_tasks := ys @ (if pl_max p \<le> pl_filling p then FillReject else FillDial) # zs\<rparr>
      | FillReject \<Rightarrow> p\<lparr>pl_filling := pl_filling p - 1, pl_tasks := ys @ zs\<rparr>
      | FillDial \<Rightarrow>
          p\<lparr>pl_filling := pl_filling p - 1, pl_tasks := (case result of None \<Rightarrow> ys @ zs | Some c \<Rightarrow> ys @ FillStore c # zs)\<rparr>
      | FillStore c \<Rightarrow>
          p\<lparr>pl_idle := (if length (pl_idle p) < pl_max p then pl_idle p @ [(now, c)] else pl_idle p), pl_tasks := ys @ zs\<rparr>)"
  using assms by (simp add: fill_advance_def end_task_def split: fill_state.split option.split)

lemma pool_inv_advance:
  assumes inv: "pool_inv m (p, g)" and new: "case result of None \<Rightarrow> True | Some c \<Rightarrow> c \<notin> set (held (p, g))"
  shows "pool_inv m (fill_advance now result i p, g)"
proof (cases "i < length (pl_tasks p)")
  case False
  then show ?thesis using inv by (simp add: fill_advance_def)
next
  case True
  obtain ys t zs where t: "pl_tasks p = ys @ t # zs" and i: "i = length ys" using split_task [OF True] by metis
  have le: "dialling p \<le> pl_filling p" using dialling_le_counted [of p] inv by (simp add: pool_inv_def)
  show ?thesis
    unfolding i fill_advance_at [OF t] using inv new le t
    by (cases t; cases result) (simp_all add: pool_defs, auto)
qed

lemma pool_inv_take:
  assumes "pool_inv m (p, g)" and "take_idle now p = (r, p')"
  shows "pool_inv m (p', case r of None \<Rightarrow> g | Some c \<Rightarrow> g @ [c])"
proof -
  obtain q where q: "pop_fresh now (pl_idle p) = (r, q)" and p': "p' = spawn_fill 1 (p\<lparr>pl_idle := q\<rparr>)"
    using assms(2) by (auto simp: take_idle_def split: prod.splits)
  show ?thesis
  proof (cases r)
    case None
    then have "q = []" using q pop_fresh_spec [of now "pl_idle p"] by simp
    then show ?thesis using None assms(1) by (auto simp: p' pool_defs)
  next
    case (Some c)
    then obtain old at where "pl_idle p = old @ (at, c) # q" using q pop_fresh_spec [of now "pl_idle p"] by auto
    then show ?thesis using Some assms(1) by (auto simp: p' pool_defs)
  qed
qed

lemma pool_inv_step: "pool_step s t \<Longrightarrow> pool_inv m s \<Longrightarrow> pool_inv m t"
proof (induction rule: pool_step.induct)
  case (taken now p c p' g)
  then show ?case using pool_inv_take [of m p g now "Some c"] by simp
next
  case (missed now p p' g)
  then show ?case using pool_inv_take [of m p g now None] by simp
next
  case (filled p g n)
  then show ?case by (auto simp: pool_defs)
next
  case (advanced result p g now i)
  then show ?case by (rule pool_inv_advance [rotated])
qed

interpretation idle: inductive_invariant "pool_init m" pool_step "pool_inv m"
  by unfold_locales (auto simp: pool_inv_step, auto simp: pool_init_def pool_new_def pool_defs)


text \<open>A pool whose first refill has just stored its stream.\<close>

definition example_pool :: "char pool" where
  "example_pool = fill_advance 1 None 0 (fill_advance 0 (Some CHR ''s'') 0 (fill_advance 0 None 0 (fill_advance 0 None 0
     (spawn_fill 1 (pool_new 4)))))"

lemma example_pool_reachable: "reachable (pool_init 4) pool_step (example_pool, [])"
proof -
  let ?s = "\<lambda>p. reachable (pool_init 4) pool_step (p, [] :: string)"
  have "?s (pool_new 4)" by (rule reach_init) (simp add: pool_init_def)
  then have "?s (spawn_fill 1 (pool_new 4))" by (rule reach_step) (rule pool_step.filled)
  then have "?s (fill_advance 0 None 0 (spawn_fill 1 (pool_new 4)))" by (rule reach_step) (rule pool_step.advanced, simp)
  then have "?s (fill_advance 0 None 0 (fill_advance 0 None 0 (spawn_fill 1 (pool_new 4))))"
    by (rule reach_step) (rule pool_step.advanced, simp)
  then have "?s (fill_advance 0 (Some CHR ''s'') 0 (fill_advance 0 None 0 (fill_advance 0 None 0 (spawn_fill 1 (pool_new 4)))))"
    by (rule reach_step) (rule pool_step.advanced, simp add: held_def stored_def fill_advance_def spawn_fill_def pool_new_def)
  then show ?thesis unfolding example_pool_def by (rule reach_step) (rule pool_step.advanced, simp)
qed


end
