(* ===== verification/Ssh.thy ===== *)
theory Ssh
  imports Secrets Zones Transport
begin

text \<open>
  SSH sessions (\<^verbatim>\<open>crates/ssh/src/host_key.rs\<close>, \<^verbatim>\<open>session.rs\<close>, \<^verbatim>\<open>error.rs\<close>): the options of a connection, the verification
  of the host key, authentication and the channels of the upstream. The SSH protocol, the \<^verbatim>\<open>known_hosts\<close> file, key files and
  the agent belong to the crate \<^verbatim>\<open>russh\<close>: they are the fields of \<open>ssh_env\<close> over the state \<open>'w\<close> of the machine. That crate
  calls the handler with the key of the server during the key exchange, and goes on only when the handler accepts it.
\<close>

datatype ssh_error =
    SshProtocol string
  | AuthenticationFailed
  | HostKeyMismatch string u16
  | HostKeyChanged string u16 nat
  | SshTimeout u64
  | SshIo string
  | SshSecrets string
  | SshConfig string
  | SshZones string
  | Russh string

record ssh_key =
  key_algorithm :: string
  key_blob :: bytes

datatype keys_error = KeyChanged nat | KeysOther string
datatype hash_alg = HashSha256 | HashSha512
datatype auth_result = AuthSuccess | AuthFailure
datatype agent_identity = AgentPublicKey ssh_key | AgentCertificate ssh_key

record ssh_client_config =
  keepalive_interval :: u64
  keepalive_max :: nat
  window_size :: nat
  maximum_packet_size :: nat

record 'w ssh_env = "'w vault_env" +
  check_known_hosts :: "string \<Rightarrow> u16 \<Rightarrow> ssh_key \<Rightarrow> string \<Rightarrow> 'w \<Rightarrow> keys_error + bool"
  learn_known_hosts :: "string \<Rightarrow> u16 \<Rightarrow> ssh_key \<Rightarrow> string \<Rightarrow> 'w \<Rightarrow> (keys_error + unit) \<times> 'w"
  config_dir :: "'w \<Rightarrow> string option"
  ssh_tcp :: "string \<Rightarrow> u16 \<Rightarrow> u64 \<Rightarrow> 'w \<Rightarrow> (wait_error + bstream) \<times> 'w"
  ssh_kex :: "ssh_client_config \<Rightarrow> u64 \<Rightarrow> dialled \<Rightarrow> 'w \<Rightarrow> (wait_error + ssh_key \<times> nat) \<times> 'w"
  auth_password :: "nat \<Rightarrow> string \<Rightarrow> string \<Rightarrow> 'w \<Rightarrow> (string + auth_result) \<times> 'w"
  auth_none :: "nat \<Rightarrow> string \<Rightarrow> 'w \<Rightarrow> (string + auth_result) \<times> 'w"
  auth_publickey :: "nat \<Rightarrow> string \<Rightarrow> ssh_key \<Rightarrow> hash_alg option \<Rightarrow> 'w \<Rightarrow> (string + auth_result) \<times> 'w"
  auth_agent :: "nat \<Rightarrow> string \<Rightarrow> ssh_key \<Rightarrow> hash_alg option \<Rightarrow> nat \<Rightarrow> 'w \<Rightarrow> (string + auth_result) \<times> 'w"
  best_rsa_hash :: "nat \<Rightarrow> 'w \<Rightarrow> (string + hash_alg option option) \<times> 'w"
  decode_secret_key :: "string \<Rightarrow> string option \<Rightarrow> keys_error + ssh_key"
  load_secret_key :: "string \<Rightarrow> string option \<Rightarrow> 'w \<Rightarrow> keys_error + ssh_key"
  agent_connect :: "'w \<Rightarrow> (string + nat) \<times> 'w"
  agent_identities :: "nat \<Rightarrow> 'w \<Rightarrow> (string + agent_identity list) \<times> 'w"
  is_rsa :: "string \<Rightarrow> bool"
  open_channel :: "nat \<Rightarrow> string \<Rightarrow> u32 \<Rightarrow> 'w \<Rightarrow> (string + bstream) \<times> 'w"

fun show_secrets_error :: "secrets_error \<Rightarrow> string" where
  "show_secrets_error (SecNotFound k) = ''secret not found: '' @ k"
| "show_secrets_error InvalidRef = ''invalid secret reference''"
| "show_secrets_error (Crypto e) = ''encryption error: '' @ e"
| "show_secrets_error (SecIo e) = ''I/O error: '' @ e"
| "show_secrets_error (SecSerde e) = ''serialization error: '' @ e"
| "show_secrets_error (Backend e) = ''secret service unavailable: '' @ e"

fun from_keys_error :: "keys_error \<Rightarrow> ssh_error" where
  "from_keys_error (KeyChanged line) = HostKeyChanged [] 0 line"
| "from_keys_error (KeysOther e) = Russh e"

subsection \<open>Host keys\<close>

record verifier =
  vf_host :: string
  vf_port :: u16
  vf_policy :: host_key_policy
  vf_path :: string
  vf_pending :: "ssh_key option"

definition verifier_new :: "string \<Rightarrow> u16 \<Rightarrow> host_key_policy \<Rightarrow> string \<Rightarrow> verifier" where
  "verifier_new host port policy path = \<lparr> vf_host = host, vf_port = port, vf_policy = policy, vf_path = path, vf_pending = None \<rparr>"

definition verify :: "('w, 'a) ssh_env_scheme \<Rightarrow> verifier \<Rightarrow> ssh_key \<Rightarrow> 'w \<Rightarrow> (ssh_error + bool) \<times> verifier \<times> 'w" where
  "verify env v key w =
     (let w1 = snd (create_dir_all env (parent_dir (vf_path v)) w) in
      case check_known_hosts env (vf_host v) (vf_port v) key (vf_path v) w1 of
        Inr True \<Rightarrow> (Inr True, v, w1)
      | Inr False \<Rightarrow>
          (case vf_policy v of
             Strict \<Rightarrow> (Inl (HostKeyMismatch (vf_host v) (vf_port v)), v, w1)
           | Tofu \<Rightarrow>
               (case learn_known_hosts env (vf_host v) (vf_port v) key (vf_path v) w1 of
                  (Inl e, w2) \<Rightarrow> (Inl (from_keys_error e), v, w2)
                | (Inr _, w2) \<Rightarrow> (Inr True, v, w2))
           | Ask \<Rightarrow> (Inl (HostKeyMismatch (vf_host v) (vf_port v)), v\<lparr>vf_pending := Some key\<rparr>, w1))
      | Inl (KeyChanged line) \<Rightarrow> (Inl (HostKeyChanged (vf_host v) (vf_port v) line), v, w1)
      | Inl e \<Rightarrow> (Inl (from_keys_error e), v, w1))"

definition learn_pending :: "('w, 'a) ssh_env_scheme \<Rightarrow> verifier \<Rightarrow> 'w \<Rightarrow> (ssh_error + unit) \<times> verifier \<times> 'w" where
  "learn_pending env v w =
     (case vf_pending v of
        None \<Rightarrow> (Inl (SshConfig ''no pending host key''), v, w)
      | Some key \<Rightarrow>
          (case learn_known_hosts env (vf_host v) (vf_port v) key (vf_path v) w of
             (Inl e, w1) \<Rightarrow> (Inl (from_keys_error e), v\<lparr>vf_pending := None\<rparr>, w1)
           | (Inr _, w1) \<Rightarrow> (Inr (), v\<lparr>vf_pending := None\<rparr>, w1)))"

subsection \<open>Options\<close>

record ssh_options =
  so_host :: string
  so_port :: u16
  so_username :: string
  so_auth :: auth_method
  so_keepalive :: u64
  so_timeout :: u64
  so_policy :: host_key_policy
  so_known_hosts :: "string option"
  so_zone :: "string option"

definition ssh_options_from :: "connection_config \<Rightarrow> ssh_error + ssh_options" where
  "ssh_options_from cfg =
     (case cfg_settings cfg of
        SetSsh keepalive tmo policy \<Rightarrow>
          (case cfg_username cfg of
             None \<Rightarrow> Inl (SshConfig ''SSH username required'')
           | Some user \<Rightarrow>
               Inr \<lparr> so_host = cfg_host cfg, so_port = cfg_port cfg,
                     so_username = ssh_username_for_zone user (cfg_selected_zone cfg), so_auth = cfg_authentication cfg,
                     so_keepalive = keepalive, so_timeout = tmo, so_policy = policy, so_known_hosts = None,
                     so_zone = nonempty (map_option trim (cfg_selected_zone cfg)) \<rparr>)
      | _ \<Rightarrow> Inl (SshConfig ''connection settings are not SSH''))"

definition default_known_hosts :: "('w, 'a) ssh_env_scheme \<Rightarrow> 'w \<Rightarrow> string" where
  "default_known_hosts env w = (case config_dir env w of Some dir \<Rightarrow> dir @ ''/known_hosts'' | None \<Rightarrow> ''known_hosts'')"

definition NO_ZONE :: string where
  "NO_ZONE = ''This SSH profile cannot select an exit zone. Clear the saved zone to use the server's automatic routing; Smart Config tunneling is not implemented yet.''"

subsection \<open>Authentication\<close>

definition secret_or :: "('w, 'a) ssh_env_scheme \<Rightarrow> file_store \<Rightarrow> secret_ref \<Rightarrow> ('w, ssh_error, string) act" where
  "secret_or env st r w = (map_err (\<lambda>e. SshSecrets (show_secrets_error e)) (get_secret env st r w), w)"

definition load_optional_passphrase :: "('w, 'a) ssh_env_scheme \<Rightarrow> file_store \<Rightarrow> secret_ref option
    \<Rightarrow> ('w, ssh_error, string option) act" where
  "load_optional_passphrase env st passphrase =
     (case passphrase of
        Some r \<Rightarrow> act_bind (secret_or env st r) (\<lambda>p. act_return (Some p))
      | None \<Rightarrow> act_return None)"

definition russh_act :: "('w \<Rightarrow> (string + 'b) \<times> 'w) \<Rightarrow> ('w, ssh_error, 'b) act" where
  "russh_act f w = (case f w of (r, w1) \<Rightarrow> (map_err Russh r, w1))"

definition rsa_hash :: "('w, 'a) ssh_env_scheme \<Rightarrow> nat \<Rightarrow> ssh_key \<Rightarrow> ('w, ssh_error, hash_alg option) act" where
  "rsa_hash env h key =
     (if is_rsa env (key_algorithm key)
      then act_bind (russh_act (best_rsa_hash env h)) (\<lambda>b. act_return (case b of None \<Rightarrow> Some HashSha512 | Some x \<Rightarrow> x))
      else act_return None)"

fun try_identities :: "('w, 'a) ssh_env_scheme \<Rightarrow> nat \<Rightarrow> string \<Rightarrow> nat \<Rightarrow> auth_result \<Rightarrow> agent_identity list
    \<Rightarrow> ('w, ssh_error, auth_result) act" where
  "try_identities env h user agent last' [] = act_return last'"
| "try_identities env h user agent last' (i # is) =
     act_bind (case i of AgentPublicKey key \<Rightarrow> act_bind (rsa_hash env h key) (\<lambda>a. act_return (key, a))
                       | AgentCertificate key \<Rightarrow> act_return (key, None)) (\<lambda>(key, alg) w.
       case auth_agent env h user key alg agent w of
         (Inr AuthSuccess, w1) \<Rightarrow> (Inr AuthSuccess, w1)
       | (Inr AuthFailure, w1) \<Rightarrow> try_identities env h user agent AuthFailure is w1
       | (Inl _, w1) \<Rightarrow> try_identities env h user agent last' is w1)"

definition auth_step :: "('w, 'a) ssh_env_scheme \<Rightarrow> file_store \<Rightarrow> nat \<Rightarrow> string \<Rightarrow> auth_method \<Rightarrow> ('w, ssh_error, auth_result) act" where
  "auth_step env st h user auth =
     (case auth of
        Password None \<Rightarrow> act_fail (SshConfig ''password secret reference missing'')
      | Password (Some r) \<Rightarrow> act_bind (secret_or env st r) (\<lambda>pw. russh_act (auth_password env h user pw))
      | PrivateKey path passphrase key_material \<Rightarrow>
          act_bind (load_optional_passphrase env st passphrase) (\<lambda>pass.
          act_bind (case key_material of
                      Some r \<Rightarrow> act_bind (secret_or env st r) (\<lambda>pem w. (map_err from_keys_error (decode_secret_key env pem pass), w))
                    | None \<Rightarrow>
                        (case path of
                           Some p \<Rightarrow> (\<lambda>w. (map_err from_keys_error (load_secret_key env p pass w), w))
                         | None \<Rightarrow> act_fail (SshConfig ''private key path or key material required''))) (\<lambda>key.
          act_bind (rsa_hash env h key) (\<lambda>alg. russh_act (auth_publickey env h user key alg))))
      | Agent \<Rightarrow>
          act_bind (\<lambda>w. case agent_connect env w of
                          (r, w1) \<Rightarrow> (map_err (\<lambda>e. SshConfig (''SSH agent unavailable: '' @ e)) r, w1)) (\<lambda>agent.
          act_bind (russh_act (agent_identities env agent)) (\<lambda>is. try_identities env h user agent AuthFailure is))
      | AuthNone \<Rightarrow> russh_act (auth_none env h user))"

definition authenticate :: "('w, 'a) ssh_env_scheme \<Rightarrow> file_store \<Rightarrow> nat \<Rightarrow> string \<Rightarrow> auth_method \<Rightarrow> ('w, ssh_error, unit) act" where
  "authenticate env st h user auth =
     act_bind (auth_step env st h user auth) (\<lambda>r.
       if r = AuthSuccess then act_return () else act_fail AuthenticationFailed)"

subsection \<open>Sessions\<close>

record ssh_session =
  ss_handle :: nat
  ss_host :: string
  ss_port :: u16

definition client_config_for :: "ssh_options \<Rightarrow> ssh_client_config" where
  "client_config_for opts =
     \<lparr> keepalive_interval = max (so_keepalive opts) 5, keepalive_max = 5, window_size = 4 * 1024 * 1024,
       maximum_packet_size = 32768 \<rparr>"

text \<open>The key exchange, in which the handler verifies the key of the server, within the time limit.\<close>

definition connect_stream :: "('w, 'a) ssh_env_scheme \<Rightarrow> ssh_options \<Rightarrow> dialled \<Rightarrow> ('w, ssh_error, nat) act" where
  "connect_stream env opts stream w =
     (let v = verifier_new (so_host opts) (so_port opts) (so_policy opts)
                (case so_known_hosts opts of Some p \<Rightarrow> p | None \<Rightarrow> default_known_hosts env w) in
      case ssh_kex env (client_config_for opts) (max (so_timeout opts) 1) stream w of
        (Inl TimedOutAfter, w1) \<Rightarrow> (Inl (SshTimeout (so_timeout opts)), w1)
      | (Inl (FailedWith e), w1) \<Rightarrow> (Inl (Russh e), w1)
      | (Inr (key, h), w1) \<Rightarrow>
          (case verify env v key w1 of
             (Inl e, _, w2) \<Rightarrow> (Inl e, w2)
           | (Inr False, _, w2) \<Rightarrow> (Inl (Russh ''Unknown server key''), w2)
           | (Inr True, _, w2) \<Rightarrow> (Inr h, w2)))"

definition connect_over_transport_inner :: "('w, 'a) ssh_env_scheme \<Rightarrow> ssh_options \<Rightarrow> file_store option \<Rightarrow> string option
    \<Rightarrow> dialled \<Rightarrow> ('w, ssh_error, ssh_session) act" where
  "connect_over_transport_inner env opts secrets password stream =
     (if so_zone opts \<noteq> None then act_fail (SshZones NO_ZONE)
      else
        act_bind (connect_stream env opts stream) (\<lambda>h.
        act_bind (case password of
                    Some pw \<Rightarrow>
                      act_bind (russh_act (auth_password env h (so_username opts) pw)) (\<lambda>r.
                        if r = AuthSuccess then act_return () else act_fail AuthenticationFailed)
                  | None \<Rightarrow>
                      (case secrets of
                         None \<Rightarrow> act_fail (SshConfig ''secrets store missing'')
                       | Some st \<Rightarrow> authenticate env st h (so_username opts) (so_auth opts))) (\<lambda>_.
          act_return \<lparr> ss_handle = h, ss_host = so_host opts, ss_port = so_port opts \<rparr>)))"

definition connect_over_transport :: "('w, 'a) ssh_env_scheme \<Rightarrow> ssh_options \<Rightarrow> file_store \<Rightarrow> dialled \<Rightarrow> ('w, ssh_error, ssh_session) act" where
  "connect_over_transport env opts st stream = connect_over_transport_inner env opts (Some st) None stream"

definition connect_over_transport_password :: "('w, 'a) ssh_env_scheme \<Rightarrow> ssh_options \<Rightarrow> string \<Rightarrow> dialled
    \<Rightarrow> ('w, ssh_error, ssh_session) act" where
  "connect_over_transport_password env opts password stream = connect_over_transport_inner env opts None (Some password) stream"

definition connect_once :: "('w, 'a) ssh_env_scheme \<Rightarrow> ssh_options \<Rightarrow> file_store \<Rightarrow> ('w, ssh_error, ssh_session) act" where
  "connect_once env opts st =
     act_bind (\<lambda>w. case ssh_tcp env (so_host opts) (so_port opts) (max (so_timeout opts) 1) w of
                      (Inl TimedOutAfter, w1) \<Rightarrow> (Inl (SshTimeout (so_timeout opts)), w1)
                    | (Inl (FailedWith e), w1) \<Rightarrow> (Inl (SshIo e), w1)
                    | (Inr tcp, w1) \<Rightarrow> (Inr tcp, w1)) (\<lambda>tcp.
     act_bind (connect_stream env opts (PlainTcp tcp)) (\<lambda>h.
     act_bind (authenticate env st h (so_username opts) (so_auth opts)) (\<lambda>_.
       act_return \<lparr> ss_handle = h, ss_host = so_host opts, ss_port = so_port opts \<rparr>)))"

definition ssh_connect :: "('w, 'a) ssh_env_scheme \<Rightarrow> ssh_options \<Rightarrow> file_store \<Rightarrow> ('w, ssh_error, ssh_session) act" where
  "ssh_connect env opts st = (if so_zone opts \<noteq> None then act_fail (SshZones NO_ZONE) else connect_once env opts st)"

definition open_direct_tcpip :: "('w, 'a) ssh_env_scheme \<Rightarrow> ssh_session \<Rightarrow> string \<Rightarrow> u16 \<Rightarrow> ('w, ssh_error, bstream) act" where
  "open_direct_tcpip env s host port = russh_act (open_channel env (ss_handle s) host (ucast port))"

definition BULLET :: string where "BULLET = [CHR 0xE2, CHR 0x80, CHR 0xA2]"

fun show_ssh_error :: "ssh_error \<Rightarrow> string" where
  "show_ssh_error (SshProtocol e) = ''SSH protocol error: '' @ e"
| "show_ssh_error AuthenticationFailed =
     ''SSH authentication failed.'' @ [LF, LF]
     @ ''The server accepted the TCP connection, but rejected the supplied credentials.'' @ [LF, LF] @ ''Possible causes:'' @ [LF]
     @ BULLET @ '' incorrect username'' @ [LF] @ BULLET @ '' incorrect password'' @ [LF]
     @ BULLET @ '' public-key authentication required'' @ [LF] @ BULLET @ '' account disabled''"
| "show_ssh_error (HostKeyMismatch host port) =
     ''SSH host key verification failed.'' @ [LF, LF]
     @ ''The server's host key does not match known_hosts (or is unknown under Strict policy).'' @ [LF, LF]
     @ ''This can indicate a misconfiguration or a man-in-the-middle attack.'' @ [LF, LF] @ ''Host: '' @ host_key_text host port"
| "show_ssh_error (HostKeyChanged host port line) =
     ''SSH host key changed for '' @ host_key_text host port @ '' (known_hosts line '' @ show_nat line @ '')''"
| "show_ssh_error (SshTimeout n) = ''connection timed out after '' @ show_nat (unat n) @ ''s''"
| "show_ssh_error (SshIo e) = ''I/O error: '' @ e"
| "show_ssh_error (SshSecrets e) = ''secrets error: '' @ e"
| "show_ssh_error (SshConfig e) = ''configuration error: '' @ e"
| "show_ssh_error (SshZones e) = e"
| "show_ssh_error (Russh e) = e"

definition ssh_upstream_connect :: "('w, 'a) ssh_env_scheme \<Rightarrow> ssh_session \<Rightarrow> string \<Rightarrow> u16 \<Rightarrow> ('w, string, bstream) act" where
  "ssh_upstream_connect env s host port w =
     (case open_direct_tcpip env s host port w of (r, w1) \<Rightarrow> (map_err show_ssh_error r, w1))"

subsection \<open>The host key decides\<close>

text \<open>
  What is relied on of the \<^verbatim>\<open>known_hosts\<close> file: a key that was learned is known from then on, and another key of the same
  algorithm is reported as changed.
\<close>

definition pinned :: "('w, 'a) ssh_env_scheme \<Rightarrow> string \<Rightarrow> u16 \<Rightarrow> ssh_key \<Rightarrow> string \<Rightarrow> 'w \<Rightarrow> bool" where
  "pinned env host port key path w \<longleftrightarrow>
     check_known_hosts env host port key path w = Inr True
   \<and> (\<forall>key'. key_algorithm key' = key_algorithm key \<and> key' \<noteq> key \<longrightarrow>
        (\<exists>line. check_known_hosts env host port key' path w = Inl (KeyChanged line)))"

definition known_hosts_ok :: "('w, 'a) ssh_env_scheme \<Rightarrow> bool" where
  "known_hosts_ok env \<longleftrightarrow>
     (\<forall>host port key path w w'. learn_known_hosts env host port key path w = (Inr (), w') \<longrightarrow> pinned env host port key path w')"

definition hosts_path :: "('w, 'a) ssh_env_scheme \<Rightarrow> ssh_options \<Rightarrow> 'w \<Rightarrow> string" where
  "hosts_path env opts w = (case so_known_hosts opts of Some p \<Rightarrow> p | None \<Rightarrow> default_known_hosts env w)"

lemma verifier_new_simps [simp]:
  "vf_host (verifier_new a b c d) = a" "vf_port (verifier_new a b c d) = b" "vf_policy (verifier_new a b c d) = c"
  "vf_path (verifier_new a b c d) = d"
  by (simp_all add: verifier_new_def)

lemma connect_stream_kex:
  assumes "ssh_kex env (client_config_for opts) (max (so_timeout opts) 1) stream w = (Inr (key, h), w1)"
  shows "connect_stream env opts stream w =
     (case verify env (verifier_new (so_host opts) (so_port opts) (so_policy opts) (hosts_path env opts w)) key w1 of
        (Inl e, _, w2) \<Rightarrow> (Inl e, w2)
      | (Inr False, _, w2) \<Rightarrow> (Inl (Russh ''Unknown server key''), w2)
      | (Inr True, _, w2) \<Rightarrow> (Inr h, w2))"
  using assms by (simp add: connect_stream_def hosts_path_def Let_def)

lemma inner_failed: "connect_stream env opts stream w = (Inl e, w') \<Longrightarrow> so_zone opts = None \<Longrightarrow>
    connect_over_transport_inner env opts sec pw stream w = (Inl e, w')"
  by (simp add: connect_over_transport_inner_def act_bind_def)

lemma inner_started: "connect_over_transport_inner env opts sec pw stream w = (Inr s, w') \<Longrightarrow>
    \<exists>w2. connect_stream env opts stream w = (Inr (ss_handle s), w2) \<and> ss_host s = so_host opts \<and> ss_port s = so_port opts"
  by (auto simp: connect_over_transport_inner_def act_bind_Inr act_return_def act_fail_def split: if_splits)

text \<open>
  C8. The key of the server decides, before anything about the user is sent. A changed key is refused under every policy, an
  unknown key under \<open>Strict\<close> and \<open>Ask\<close>, and the machine is then exactly as it was after the check: no secret was
  read and no authentication was tried. A session exists only with a key that was known, or was unknown under \<open>Tofu\<close> and has been
  learned, so that another key of its algorithm is refused from then on.
\<close>

theorem ssh_host_key_decides:
  assumes "known_hosts_ok env" and "so_zone opts = None"
    and "ssh_kex env (client_config_for opts) (max (so_timeout opts) 1) stream w = (Inr (key, h), w1)"
    and "w2 = snd (create_dir_all env (parent_dir (hosts_path env opts w)) w1)"
  shows "case check_known_hosts env (so_host opts) (so_port opts) key (hosts_path env opts w) w2 of
      Inl (KeyChanged line) \<Rightarrow>
        connect_over_transport_inner env opts sec pw stream w = (Inl (HostKeyChanged (so_host opts) (so_port opts) line), w2)
    | Inl (KeysOther e) \<Rightarrow> connect_over_transport_inner env opts sec pw stream w = (Inl (Russh e), w2)
    | Inr True \<Rightarrow>
        (case connect_over_transport_inner env opts sec pw stream w of (Inl _, _) \<Rightarrow> True | (Inr s, _) \<Rightarrow> ss_handle s = h)
    | Inr False \<Rightarrow>
        (case so_policy opts of
           Tofu \<Rightarrow>
             (case connect_over_transport_inner env opts sec pw stream w of
                (Inl _, _) \<Rightarrow> True
              | (Inr s, _) \<Rightarrow> ss_handle s = h
                  \<and> (\<exists>w3. learn_known_hosts env (so_host opts) (so_port opts) key (hosts_path env opts w) w2 = (Inr (), w3)
                     \<and> pinned env (so_host opts) (so_port opts) key (hosts_path env opts w) w3))
         | _ \<Rightarrow> connect_over_transport_inner env opts sec pw stream w = (Inl (HostKeyMismatch (so_host opts) (so_port opts)), w2))"
proof -
  note c = connect_stream_kex [OF assms(3)]
  note failed = inner_failed [OF _ assms(2)]
  have started: "ss_handle s = h" if "connect_over_transport_inner env opts sec pw stream w = (Inr s, w')" for s w'
    using inner_started [OF that] c by (auto split: prod.splits sum.splits bool.splits)
  show ?thesis
  proof (cases "check_known_hosts env (so_host opts) (so_port opts) key (hosts_path env opts w) w2")
    case (Inl e)
    then show ?thesis using failed c assms(4) by (cases e) (simp_all add: verify_def Let_def)
  next
    case known: (Inr b)
    show ?thesis
    proof (cases b)
      case True
      then show ?thesis using known started by (auto split: prod.splits sum.splits)
    next
      case False
      show ?thesis
      proof (cases "so_policy opts")
        case Tofu
        obtain r w3 where l: "learn_known_hosts env (so_host opts) (so_port opts) key (hosts_path env opts w) w2 = (r, w3)" by fastforce
        show ?thesis
        proof (cases r)
          case (Inl e)
          then have "connect_over_transport_inner env opts sec pw stream w = (Inl (from_keys_error e), w3)"
            using failed c assms(4) known False Tofu l by (simp add: verify_def Let_def)
          then show ?thesis using known False Tofu by simp
        next
          case (Inr u)
          then have "pinned env (so_host opts) (so_port opts) key (hosts_path env opts w) w3"
            using assms(1) l unfolding known_hosts_ok_def by simp
          then show ?thesis using known False Tofu l Inr started by (auto split: prod.splits sum.splits)
        qed
      qed (use failed c assms(4) known False in \<open>simp_all add: verify_def Let_def\<close>)
    qed
  qed
qed

text \<open>A machine that knows one key once the counter is set, and a server that shows another.\<close>

definition example_key :: "nat \<Rightarrow> ssh_key" where
  "example_key n = \<lparr> key_algorithm = ''ssh-ed25519'', key_blob = [word_of_nat n] \<rparr>"

definition example_ssh_env :: "ssh_key \<Rightarrow> ((string \<rightharpoonup> bytes) \<times> nat) ssh_env" where
  "example_ssh_env shown = vault_env.extend example_vault_env
     \<lparr> check_known_hosts = (\<lambda>_ _ k _ w.
         if snd w = 0 then Inr False else if k = example_key 1 then Inr True
         else if key_algorithm k = key_algorithm (example_key 1) then Inl (KeyChanged 1) else Inr False),
       learn_known_hosts = (\<lambda>_ _ k _ w. if k = example_key 1 then (Inr (), (fst w, 1)) else (Inl (KeysOther ''full''), w)),
       config_dir = (\<lambda>_. Some ''/c''), ssh_tcp = (\<lambda>_ _ _ w. (Inr (stream_of []), w)), ssh_kex = (\<lambda>_ _ _ w. (Inr (shown, 3), w)),
       auth_password = (\<lambda>_ _ _ w. (Inr AuthSuccess, (fst w, Suc (snd w)))), auth_none = (\<lambda>_ _ w. (Inr AuthFailure, w)),
       auth_publickey = (\<lambda>_ _ _ _ w. (Inr AuthFailure, w)), auth_agent = (\<lambda>_ _ _ _ _ w. (Inr AuthFailure, w)),
       best_rsa_hash = (\<lambda>_ w. (Inr None, w)), decode_secret_key = (\<lambda>_ _. Inl (KeysOther [])),
       load_secret_key = (\<lambda>_ _ _. Inl (KeysOther [])), agent_connect = (\<lambda>w. (Inl [], w)), agent_identities = (\<lambda>_ w. (Inr [], w)),
       is_rsa = (\<lambda>_. False), open_channel = (\<lambda>_ _ _ w. (Inr (stream_of []), w)) \<rparr>"

definition example_options :: ssh_options where
  "example_options =
     \<lparr> so_host = ''x.io'', so_port = 22, so_username = ''u'', so_auth = AuthNone, so_keepalive = 30, so_timeout = 15,
       so_policy = Tofu, so_known_hosts = Some ''/c/known_hosts'', so_zone = None \<rparr>"

theorem ssh_host_key_decides_witness:
  "connect_over_transport_inner (example_ssh_env (example_key 2)) example_options None (Some ''pw'') (PlainTcp (stream_of [])) (Map.empty, 1)
     = (Inl (HostKeyChanged ''x.io'' 22 1), (Map.empty, 1))"
proof -
  let ?e = "example_ssh_env (example_key 2)"
  have k: "example_key 2 \<noteq> example_key 1" "key_algorithm (example_key 2) = key_algorithm (example_key 1)"
    by (simp_all add: example_key_def)
  have ok: "known_hosts_ok ?e"
    by (auto simp: known_hosts_ok_def pinned_def example_ssh_env_def vault_env.defs split: if_splits)
  have kex: "ssh_kex ?e (client_config_for example_options) (max (so_timeout example_options) 1) (PlainTcp (stream_of [])) (Map.empty, 1)
      = (Inr (example_key 2, 3), (Map.empty, 1))"
    by (simp add: example_ssh_env_def vault_env.defs)
  have dir: "snd (create_dir_all ?e p (Map.empty, 1)) = (Map.empty, 1)" for p
    by (simp add: example_ssh_env_def vault_env.defs example_vault_env_def)
  have check: "check_known_hosts ?e host port (example_key 2) p (Map.empty, 1) = Inl (KeyChanged 1)" for host port p
    using k by (simp add: example_ssh_env_def vault_env.defs)
  have opts: "so_zone example_options = None" "so_host example_options = ''x.io''" "so_port example_options = 22"
    by (simp_all add: example_options_def)
  show ?thesis
    using ssh_host_key_decides [OF ok opts(1) kex refl, of None "Some ''pw''"] unfolding dir check opts by (simp only: sum.case keys_error.case)
qed

end
