(* ===== verification/Ss_Connector.thy ===== *)
theory Ss_Connector
  imports Shadowsocks Idle_Pool Ssh
begin

text \<open>
  The Shadowsocks connector (\<^verbatim>\<open>crates/shadowsocks/src/lib.rs\<close>) and the task that pumps both directions of one connection
  (\<^verbatim>\<open>aead.rs\<close>). The two branches of its \<^verbatim>\<open>select!\<close> are two kinds of steps: when local bytes arrive, the reader of the other
  branch is dropped, with the bytes of the wire that it has consumed so far.
\<close>

subsection \<open>The pump\<close>

record 'key ss_pump =
  su_enc_nonce :: u64
  su_reader :: "'key reader"
  su_local :: bytes

text \<open>The reader after it has seen the next \<open>k\<close> bytes of the wire; it waits for more if it then would block.\<close>

definition seen_prefix :: "nat \<Rightarrow> 'key reader \<Rightarrow> 'key reader" where
  "seen_prefix k r = r\<lparr>raw := (raw r)\<lparr>rx := take k (rx (raw r)), rx_end := WouldBlock\<rparr>\<rparr>"

definition read_pending :: "'key crypto \<Rightarrow> aead_method \<Rightarrow> bytes \<Rightarrow> nat \<Rightarrow> 'key reader \<Rightarrow> bool" where
  "read_pending cr m master k r \<longleftrightarrow> k \<le> length (rx (raw r)) \<and> fst (read_chunk cr m master (seen_prefix k r)) = Inl (SsIo WouldBlock)"

definition dropped_read :: "'key crypto \<Rightarrow> aead_method \<Rightarrow> bytes \<Rightarrow> nat \<Rightarrow> 'key reader \<Rightarrow> 'key reader" where
  "dropped_read cr m master k r =
     (snd (read_chunk cr m master (seen_prefix k r)))\<lparr>raw := (raw r)\<lparr>rx := drop k (rx (raw r))\<rparr>\<rparr>"

definition ss_upload :: "'key crypto \<Rightarrow> aead_method \<Rightarrow> bytes \<Rightarrow> 'key \<Rightarrow> nat \<Rightarrow> bytes \<Rightarrow> 'key ss_pump \<Rightarrow> 'key ss_pump option" where
  "ss_upload cr m master enc k plain s =
     (if plain = [] \<or> 16384 < length plain \<or> \<not> read_pending cr m master k (su_reader s) then None
      else let r = dropped_read cr m master k (su_reader s) in
        case pump_up cr enc (su_enc_nonce s) plain (raw r) of
          (Inl e, w) \<Rightarrow> None
        | (Inr n, w) \<Rightarrow> Some (s\<lparr>su_enc_nonce := n, su_reader := r\<lparr>raw := w\<rparr>\<rparr>))"

definition ss_deliver :: "'key crypto \<Rightarrow> aead_method \<Rightarrow> bytes \<Rightarrow> 'key ss_pump \<Rightarrow> 'key ss_pump option" where
  "ss_deliver cr m master s =
     (case read_chunk cr m master (su_reader s) of
        (Inl e, r) \<Rightarrow> None
      | (Inr data, r) \<Rightarrow> if data = [] then None else Some (s\<lparr>su_reader := r, su_local := su_local s @ data\<rparr>))"

definition ss_pump_start :: "bstream \<Rightarrow> 'key ss_pump" where
  "ss_pump_start wire = \<lparr> su_enc_nonce = 0, su_reader = \<lparr> dec = None, dec_nonce = 0, raw = wire \<rparr>, su_local = [] \<rparr>"

text \<open>The pump with what the local side has written so far.\<close>

inductive ss_step :: "(nat \<Rightarrow> bool) \<Rightarrow> 'key crypto \<Rightarrow> aead_method \<Rightarrow> bytes \<Rightarrow> 'key \<Rightarrow> 'key ss_pump \<times> bytes list \<Rightarrow> 'key ss_pump \<times> bytes list \<Rightarrow> bool"
  for allowed cr m master enc where
  up: "allowed k \<Longrightarrow> ss_upload cr m master enc k plain s = Some t \<Longrightarrow> ss_step allowed cr m master enc (s, ups) (t, ups @ [plain])"
| down: "ss_deliver cr m master s = Some t \<Longrightarrow> ss_step allowed cr m master enc (s, ups) (t, ups)"

subsection \<open>The pump is transparent between chunks\<close>

lemma read_pending_0 [simp]: "read_pending cr m master 0 r"
  by (cases "dec r"; cases m) (simp_all add: read_pending_def seen_prefix_def read_chunk_def read_exact_def salt_len_def)

lemma dropped_read_0 [simp]: "dropped_read cr m master 0 r = r"
proof -
  have "snd (read_chunk cr m master (seen_prefix 0 r)) = r\<lparr>raw := (raw r)\<lparr>rx := [], rx_end := WouldBlock\<rparr>\<rparr>"
    by (cases "dec r"; cases m) (simp_all add: seen_prefix_def read_chunk_def read_exact_def salt_len_def)
  then show ?thesis by (simp add: dropped_read_def)
qed

definition wire_of :: "'key crypto \<Rightarrow> 'key \<Rightarrow> u64 \<Rightarrow> bytes list \<Rightarrow> bytes" where
  "wire_of cr k n cs = concat (map (sealed cr k) (seal_calls n cs))"

definition reads_from :: "'key crypto \<Rightarrow> bytes \<Rightarrow> 'key \<Rightarrow> bytes list \<Rightarrow> 'key reader \<Rightarrow> nat \<Rightarrow> bool" where
  "reads_from cr salt k cs r n \<longleftrightarrow> n \<le> length cs \<and> dec_nonce r = 2 * word_of_nat n
     \<and> (case dec r of
          None \<Rightarrow> n = 0 \<and> rx (raw r) = salt @ wire_of cr k 0 cs
        | Some k' \<Rightarrow> k' = k \<and> rx (raw r) = wire_of cr k (dec_nonce r) (drop n cs))"

definition ss_inv :: "'key crypto \<Rightarrow> bytes \<Rightarrow> bytes \<Rightarrow> 'key \<Rightarrow> 'key \<Rightarrow> bytes list \<Rightarrow> 'key ss_pump \<times> bytes list \<Rightarrow> bool" where
  "ss_inv cr own salt enc k cs x \<longleftrightarrow> (case x of (s, ups) \<Rightarrow>
     tx_cap (raw (su_reader s)) = None \<and> rx_end (raw (su_reader s)) = UnexpectedEof
   \<and> (\<exists>n. reads_from cr salt k cs (su_reader s) n \<and> su_local s = concat (take n cs))
   \<and> su_enc_nonce s = 2 * word_of_nat (length (all_chunks ups))
   \<and> tx (raw (su_reader s)) = own @ wire_of cr enc 0 (all_chunks ups))"

lemma wire_of_Cons: "wire_of cr k n (c # cs) = sealed cr k (n, to_be 2 (length c)) @ sealed cr k (n + 1, c) @ wire_of cr k (n + 2) cs"
  by (simp add: wire_of_def)

lemma deliver_keyed:
  assumes cr: "crypto_ok cr" and ok: "list_all (\<lambda>c. c \<noteq> [] \<and> length c \<le> MAX_CHUNK) cs"
    and r: "reads_from cr salt k cs r n" "dec r = Some k" "rx_end (raw r) = UnexpectedEof"
    and "read_chunk cr m master r = (Inr data, r')" and "data \<noteq> []"
  shows "n < length cs \<and> data = cs ! n \<and> reads_from cr salt k cs r' (Suc n)
    \<and> tx (raw r') = tx (raw r) \<and> tx_cap (raw r') = tx_cap (raw r) \<and> rx_end (raw r') = rx_end (raw r)"
proof (cases "n < length cs")
  case False
  then have "rx (raw r) = []" using r by (simp add: reads_from_def wire_of_def)
  then have "fst (read_chunk cr m master r) = Inr []" using r(2,3) by (simp add: read_chunk_def)
  then show ?thesis using assms(6,7) by simp
next
  case True
  then have d: "drop n cs = cs ! n # drop (Suc n) cs" by (rule Cons_nth_drop_Suc [symmetric])
  have c: "cs ! n \<noteq> []" "length (cs ! n) \<le> MAX_CHUNK" using ok True by (simp_all add: list_all_length)
  have "rx (raw r) = sealed cr k (dec_nonce r, to_be 2 (length (cs ! n))) @ sealed cr k (dec_nonce r + 1, cs ! n)
      @ wire_of cr k (dec_nonce r + 2) (drop (Suc n) cs)"
    using r by (simp add: reads_from_def d wire_of_Cons)
  from read_chunk_sealed [OF cr r(2) seal_len_sealed [OF cr] seal_sealed [OF cr c(2)] c this, of m master]
  have "data = cs ! n" "r' = r\<lparr>raw := (raw r)\<lparr>rx := wire_of cr k (dec_nonce r + 2) (drop (Suc n) cs)\<rparr>, dec_nonce := dec_nonce r + 2\<rparr>"
    using assms(6) by simp_all
  then show ?thesis using True r by (simp add: reads_from_def)
qed

lemma deliver_reads:
  assumes cr: "crypto_ok cr" and ok: "list_all (\<lambda>c. c \<noteq> [] \<and> length c \<le> MAX_CHUNK) cs"
    and salt: "length salt = salt_len m" "and_then (hkdf_subkey cr master salt (key_len m)) (cipher_new cr m) = Inr k"
    and r: "reads_from cr salt k cs r n" "rx_end (raw r) = UnexpectedEof"
    and data: "read_chunk cr m master r = (Inr data, r')" "data \<noteq> []"
  shows "n < length cs \<and> data = cs ! n \<and> reads_from cr salt k cs r' (Suc n)
    \<and> tx (raw r') = tx (raw r) \<and> tx_cap (raw r') = tx_cap (raw r) \<and> rx_end (raw r') = rx_end (raw r)"
proof (cases "dec r")
  case (Some k')
  then have "dec r = Some k" using r(1) by (simp add: reads_from_def)
  from deliver_keyed [OF cr ok r(1) this r(2) data] show ?thesis .
next
  case None
  let ?r = "r\<lparr>raw := (raw r)\<lparr>rx := wire_of cr k 0 cs\<rparr>, dec := Some k\<rparr>"
  have rx: "rx (raw r) = salt @ wire_of cr k 0 cs" "n = 0" using r(1) None by (simp_all add: reads_from_def)
  have "reads_from cr salt k cs ?r n" using r(1) None by (simp add: reads_from_def)
  moreover have "read_chunk cr m master ?r = (Inr data, r')"
    using data(1) read_chunk_salt [OF None rx(1) salt] by simp
  ultimately show ?thesis using deliver_keyed [OF cr ok, of salt k ?r n m master data r'] data(2) r(2) by simp
qed

lemma pump_up_wire:
  assumes "crypto_ok cr" and "tx_cap w = None"
  shows "pump_up cr enc n plain w = (Inr (n + 2 * word_of_nat (length (chunks MAX_CHUNK plain))),
     w\<lparr>tx := tx w @ wire_of cr enc n (chunks MAX_CHUNK plain)\<rparr>)"
  using pump_chunks_wire [OF assms, of "chunks MAX_CHUNK plain" enc n] chunks_bound
  by (auto simp: pump_up_def wire_of_def)

lemma wire_of_append: "wire_of cr k n (cs @ ds) = wire_of cr k n cs @ wire_of cr k (n + 2 * word_of_nat (length cs)) ds"
  by (simp add: wire_of_def seal_calls_append)

lemma all_chunks_snoc: "all_chunks (ups @ [p]) = all_chunks ups @ chunks MAX_CHUNK p"
  by (simp add: all_chunks_def)

lemma ss_inv_up:
  assumes cr: "crypto_ok cr" and "ss_inv cr own salt enc k cs (s, ups)" and "ss_upload cr m master enc 0 plain s = Some t"
  shows "ss_inv cr own salt enc k cs (t, ups @ [plain])"
proof -
  have cap: "tx_cap (raw (su_reader s)) = None" using assms(2) by (simp add: ss_inv_def)
  have "t = s\<lparr>su_enc_nonce := su_enc_nonce s + 2 * word_of_nat (length (chunks MAX_CHUNK plain)),
      su_reader := (su_reader s)\<lparr>raw := (raw (su_reader s))\<lparr>tx := tx (raw (su_reader s)) @ wire_of cr enc (su_enc_nonce s) (chunks MAX_CHUNK plain)\<rparr>\<rparr>\<rparr>"
    using assms(3) by (auto simp: ss_upload_def Let_def pump_up_wire [OF cr cap] split: if_splits)
  then show ?thesis using assms(2)
    by (auto simp: ss_inv_def reads_from_def all_chunks_snoc wire_of_append algebra_simps split: option.splits)
qed

lemma ss_inv_down:
  assumes cr: "crypto_ok cr" and ok: "list_all (\<lambda>c. c \<noteq> [] \<and> length c \<le> MAX_CHUNK) cs"
    and salt: "length salt = salt_len m" "and_then (hkdf_subkey cr master salt (key_len m)) (cipher_new cr m) = Inr k"
    and inv: "ss_inv cr own salt enc k cs (s, ups)" and d: "ss_deliver cr m master s = Some t"
  shows "ss_inv cr own salt enc k cs (t, ups)"
proof -
  obtain n where n: "reads_from cr salt k cs (su_reader s) n" "su_local s = concat (take n cs)" "rx_end (raw (su_reader s)) = UnexpectedEof"
    using inv by (auto simp: ss_inv_def)
  obtain data r where data: "read_chunk cr m master (su_reader s) = (Inr data, r)" "data \<noteq> []"
    "t = s\<lparr>su_reader := r, su_local := su_local s @ data\<rparr>"
    using d by (auto simp: ss_deliver_def split: prod.splits sum.splits if_splits)
  note * = deliver_reads [OF cr ok salt n(1,3) data(1,2)]
  then have "reads_from cr salt k cs (su_reader t) (Suc n) \<and> su_local t = concat (take (Suc n) cs)"
    using n(2) data(3) by (simp add: take_Suc_conv_app_nth)
  then show ?thesis using inv * data(3) by (auto simp: ss_inv_def)
qed

definition ss_init :: "bytes \<Rightarrow> bytes \<Rightarrow> 'key ss_pump \<times> bytes list \<Rightarrow> bool" where
  "ss_init own wire x \<longleftrightarrow> x = (ss_pump_start ((stream_of wire)\<lparr>tx := own\<rparr>), [])"

definition session_ok :: "'key crypto \<Rightarrow> aead_method \<Rightarrow> bytes \<Rightarrow> bytes \<Rightarrow> 'key \<Rightarrow> bytes list \<Rightarrow> bool" where
  "session_ok cr m master salt k cs \<longleftrightarrow> crypto_ok cr \<and> list_all (\<lambda>c. c \<noteq> [] \<and> length c \<le> MAX_CHUNK) cs
     \<and> length salt = salt_len m \<and> and_then (hkdf_subkey cr master salt (key_len m)) (cipher_new cr m) = Inr k"

definition ss_session_inv :: "'key crypto \<Rightarrow> aead_method \<Rightarrow> bytes \<Rightarrow> bytes \<Rightarrow> bytes \<Rightarrow> 'key \<Rightarrow> 'key \<Rightarrow> bytes list \<Rightarrow> 'key ss_pump \<times> bytes list \<Rightarrow> bool" where
  "ss_session_inv cr m master own salt enc k cs x \<longleftrightarrow> (session_ok cr m master salt k cs \<longrightarrow> ss_inv cr own salt enc k cs x)"

lemma ss_session_init: "ss_init own (salt @ wire_of cr k 0 cs) x \<Longrightarrow> ss_session_inv cr m master own salt enc k cs x"
  by (auto simp: ss_session_inv_def ss_init_def ss_pump_start_def ss_inv_def reads_from_def wire_of_def all_chunks_def)

lemma ss_session_step:
  "ss_step (\<lambda>k. k = 0) cr m master enc x y \<Longrightarrow> ss_session_inv cr m master own salt enc k cs x \<Longrightarrow> ss_session_inv cr m master own salt enc k cs y"
  by (auto simp: ss_session_inv_def session_ok_def elim!: ss_step.cases intro: ss_inv_up ss_inv_down)

interpretation ss_pump: inductive_invariant "ss_init own (salt @ wire_of cr k 0 cs)" "ss_step (\<lambda>k. k = 0) cr m master enc"
  "ss_session_inv cr m master own salt enc k cs"
  by unfold_locales (auto intro: ss_session_init ss_session_step)

text \<open>
  As long as the reader is not dropped in the middle of a chunk, one Shadowsocks connection is transparent in both directions, for
  every interleaving of writes and arrivals: the local side has received exactly the first so many chunks of the server, in order, and
  the wire carries, behind the bytes of the handshake, the sealed chunks of everything the local side wrote, under consecutive nonces.
\<close>

theorem ss_pump_transparent:
  assumes "session_ok cr m master salt k cs" and "reachable (ss_init own (salt @ wire_of cr k 0 cs)) (ss_step (\<lambda>k. k = 0) cr m master enc) (s, ups)"
  shows "(\<exists>n. n \<le> length cs \<and> su_local s = concat (take n cs))
    \<and> tx (raw (su_reader s)) = own @ wire_of cr enc 0 (all_chunks ups) \<and> concat (all_chunks ups) = concat ups"
proof -
  have "ss_inv cr own salt enc k cs (s, ups)"
    using ss_pump.reachable_inv [OF assms(2)] assms(1) by (simp add: ss_session_inv_def)
  then show ?thesis using concat_all_chunks [of ups] by (auto simp: ss_inv_def reads_from_def)
qed

lemma example_key: "and_then (hkdf_subkey example_crypto x y n) (cipher_new example_crypto m) = Inr ()"
  by (simp add: hkdf_subkey_def cipher_new_def example_crypto_def)

lemma example_open: "open_box example_crypto () n c = Inr (take (length c - 16) c)"
  by (simp add: open_box_def example_crypto_def)

theorem ss_pump_transparent_witness:
  "\<exists>s. reachable (ss_init [4] (replicate 16 7 @ wire_of example_crypto () 0 [[1, 2]])) (ss_step (\<lambda>k. k = 0) example_crypto Aes128Gcm [5] ()) (s, [])
     \<and> (\<exists>n. n \<le> 1 \<and> su_local s = concat (take n [[1, 2]])) \<and> tx (raw (su_reader s)) = [4]"
proof -
  have ok: "session_ok example_crypto Aes128Gcm [5] (replicate 16 7) () [[1, 2]]"
    using example_crypto_ok by (simp add: session_ok_def salt_len_def MAX_CHUNK_def example_key)
  let ?s = "ss_pump_start ((stream_of (replicate 16 7 @ wire_of example_crypto () 0 [[1, 2]]))\<lparr>tx := [4]\<rparr>)"
  have r: "reachable (ss_init [4] (replicate 16 7 @ wire_of example_crypto () 0 [[1, 2]])) (ss_step (\<lambda>k. k = 0) example_crypto Aes128Gcm [5] ()) (?s, [])"
    by (rule reach_init) (simp add: ss_init_def)
  show ?thesis using r ss_pump_transparent [OF ok r] by (intro exI [of _ ?s]) (simp add: all_chunks_def wire_of_def)
qed

text \<open>
  Dropped in the middle of a chunk, the reader loses what it had consumed. Here the server sends its salt and one chunk; had the reader
  not been dropped after 17 bytes it would deliver the chunk, now it takes the wrong bytes for a length and the connection ends.
\<close>

lemma ss_pump_loses_chunk:
  defines "s \<equiv> ss_pump_start (stream_of (replicate 16 7 @ wire_of example_crypto () 0 [[1]]))"
  shows "ss_deliver example_crypto Aes128Gcm [5] s \<noteq> None"
    and "\<exists>t. ss_upload example_crypto Aes128Gcm [5] () 17 [9] s = Some t \<and> ss_deliver example_crypto Aes128Gcm [5] t = None"
proof -
  have w: "wire_of example_crypto () 0 [[1]] = [0, 1] @ replicate 16 0 @ [1] @ replicate 16 0"
    by (simp add: wire_of_def sealed_def example_crypto_def to_be_2)
  show "ss_deliver example_crypto Aes128Gcm [5] s \<noteq> None"
    by (simp add: s_def w ss_deliver_def ss_pump_start_def read_chunk_def salt_len_def read_exact_def example_key example_open of_be_def MAX_CHUNK_def Let_def numeral_eq_Suc)
  show "\<exists>t. ss_upload example_crypto Aes128Gcm [5] () 17 [9] s = Some t \<and> ss_deliver example_crypto Aes128Gcm [5] t = None"
  proof -
    let ?rest = "[1] @ replicate 16 0 @ [1] @ replicate 16 0"
    have d: "read_chunk example_crypto Aes128Gcm [5] (seen_prefix 17 (su_reader s))
        = (Inl (SsIo WouldBlock), \<lparr> dec = Some (), dec_nonce = 0, raw = \<lparr> rx = [], rx_end = WouldBlock, tx = [], tx_cap = None \<rparr> \<rparr>)"
      by (simp add: s_def w seen_prefix_def ss_pump_start_def read_chunk_def salt_len_def read_exact_def example_key stream_of_def)
    obtain n tx' where "pump_up example_crypto () 0 [9] (stream_of ?rest) = (Inr n, (stream_of ?rest)\<lparr>tx := tx'\<rparr>)"
      using pump_up_wire [OF example_crypto_ok, of "stream_of ?rest" "()" 0 "[9]"] by simp
    moreover have "dropped_read example_crypto Aes128Gcm [5] 17 (su_reader s) = \<lparr> dec = Some (), dec_nonce = 0, raw = stream_of ?rest \<rparr>"
      "read_pending example_crypto Aes128Gcm [5] 17 (su_reader s)"
      unfolding dropped_read_def read_pending_def d by (simp_all add: s_def w ss_pump_start_def stream_of_def)
    ultimately have u: "ss_upload example_crypto Aes128Gcm [5] () 17 [9] s
        = Some (s\<lparr>su_enc_nonce := n, su_reader := \<lparr> dec = Some (), dec_nonce = 0, raw = (stream_of ?rest)\<lparr>tx := tx'\<rparr> \<rparr>\<rparr>)"
      by (simp add: ss_upload_def Let_def) (simp add: s_def ss_pump_start_def)
    then show ?thesis
      by (simp add: ss_deliver_def read_chunk_def read_exact_def example_open of_be_def MAX_CHUNK_def Let_def numeral_eq_Suc)
  qed
qed

subsection \<open>The connector\<close>

fun show_ss_error :: "(io_kind \<Rightarrow> string) \<Rightarrow> ss_error \<Rightarrow> string" where
  "show_ss_error txt (SsIo e) = ''I/O error: '' @ txt e"
| "show_ss_error txt (SsConfig e) = ''config: '' @ e"
| "show_ss_error txt (SsCrypto e) = ''crypto: '' @ e"
| "show_ss_error txt (SsTransport e) = ''transport: '' @ e"

fun show_ws_error :: "(io_kind \<Rightarrow> string) \<Rightarrow> ws_error \<Rightarrow> string" where
  "show_ws_error txt (WIo e) = ''I/O error: '' @ txt e"
| "show_ws_error txt (Handshake e) = ''handshake failed: '' @ e"
| "show_ws_error txt (Protocol e) = ''protocol error: '' @ e"

fun show_transport_error :: "(io_kind \<Rightarrow> string) \<Rightarrow> transport_error \<Rightarrow> string" where
  "show_transport_error txt (TIo e) = ''I/O error: '' @ e"
| "show_transport_error txt (TTls e) = ''TLS error: '' @ e"
| "show_transport_error txt (TWs e) = ''WebSocket error: '' @ show_ws_error txt e"
| "show_transport_error txt (TOther e) = e"

record ss_connector =
  sk_host :: string
  sk_port :: u16
  sk_method :: aead_method
  sk_key :: bytes
  sk_dial :: dial_request

text \<open>The result is \<open>None\<close> if the key derivation does not end.\<close>

definition ss_from_profile :: "'key crypto \<Rightarrow> ('w, 'a) vault_env_scheme \<Rightarrow> file_store \<Rightarrow> connection_config \<Rightarrow> 'w \<Rightarrow> (ss_error + ss_connector) option" where
  "ss_from_profile cr env st cfg w =
     (case (case cfg_settings cfg of SetShadowsocks method \<Rightarrow> parse_method method | _ \<Rightarrow> Inl (SsConfig ''not a Shadowsocks profile'')) of
        Inl e \<Rightarrow> Some (Inl e)
      | Inr m \<Rightarrow>
          (case (case cfg_authentication cfg of
                   Password (Some s) \<Rightarrow> map_err (SsConfig \<circ> show_secrets_error) (get_secret env st s w)
                 | _ \<Rightarrow> Inl (SsConfig ''Shadowsocks password is missing from the secrets vault'')) of
             Inl e \<Rightarrow> Some (Inl e)
           | Inr pw \<Rightarrow>
               map_option (\<lambda>key. Inr \<lparr> sk_host = cfg_host cfg, sk_port = cfg_port cfg, sk_method = m, sk_key = key,
                   sk_dial = dial_from_profile (cfg_host cfg) (cfg_port cfg) (cfg_transport cfg) (cfg_tls cfg) \<rparr>)
                 (evp_bytes_to_key cr (as_bytes pw) (key_len m))))"

definition ss_pool :: "dialled pool" where
  "ss_pool = pool_new 4"

definition ss_warm_up :: "dialled pool \<Rightarrow> dialled pool" where
  "ss_warm_up p = spawn_fill 3 p"

text \<open>
  A stream of the connector: the key of the sending direction, the wire behind the handshake, and what has been written to the local
  end of the duplex. \<open>carried\<close> gives the bytes that a dialled transport carries; \<open>room\<close> is the outcome of the write to the duplex, which
  fails if the pump has ended by then.
\<close>

record 'key ss_stream =
  sx_enc :: 'key
  sx_wire :: bstream
  sx_written :: bytes

definition ss_connect :: "'key crypto \<Rightarrow> (io_kind \<Rightarrow> string) \<Rightarrow> (dialled \<Rightarrow> bstream) \<Rightarrow> ('w, 'a) dial_env_scheme \<Rightarrow> ss_connector \<Rightarrow> bytes
    \<Rightarrow> io_kind + unit \<Rightarrow> string \<Rightarrow> u16 \<Rightarrow> dialled pool \<times> 'w net \<Rightarrow> (socks_error + 'key ss_stream) \<times> dialled pool \<times> 'w net" where
  "ss_connect cr txt carried env c salt room host port s =
     (case pool_take env (sk_dial c) s of
        (Inl e, s1) \<Rightarrow> (Inl (Upstream (''SS transport '' @ show_transport_error txt e)), s1)
      | (Inr d, s1) \<Rightarrow>
          (case handshake cr (sk_method c) (sk_key c) salt (carried d) of
             (Inl e, wire) \<Rightarrow> (Inl (Upstream (show_ss_error txt e)), s1)
           | (Inr k, wire) \<Rightarrow>
               (case room of
                  Inl e \<Rightarrow> (Inl (Upstream (show_ss_error txt (SsIo e))), s1)
                | Inr _ \<Rightarrow> (Inr \<lparr> sx_enc = k, sx_wire = wire, sx_written = encode_socks_addr host port \<rparr>, s1))))"

lemma handshake_Inr:
  assumes "handshake cr m master salt s = (Inr k, t)" and "tx_cap s = None"
  shows "and_then (hkdf_subkey cr master salt (key_len m)) (cipher_new cr m) = Inr k" and "t = s\<lparr>tx := tx s @ salt\<rparr>"
  using assms by (simp_all add: handshake_def io_defs)

text \<open>
  C26. From the profile to the target. A stream that the connector of a profile opens over a fresh transport carries, in whatever pieces the
  pump sends what is written, bytes that a server which knows only the password in the vault decodes into an address followed by exactly
  the payload. The address is the host asked for (or the canonical text of the same IP address) and the port; of a host name of more than
  255 bytes only the first 255 are sent.
\<close>

theorem ss_connection_reaches_target:
  assumes "crypto_ok cr" and "ss_from_profile cr env st cfg w = Some (Inr c)"
    and "cfg_authentication cfg = Password (Some ref)" and "get_secret env st ref w = Inr pw"
    and "\<And>d. tx (carried d) = [] \<and> tx_cap (carried d) = None" and "length salt = salt_len (sk_method c)"
    and "ss_connect cr txt carried denv c salt room host port s = (Inr x, s')"
    and "concat pieces = sx_written x @ payload" and "valid_utf8 (take 255 (as_bytes host))"
  shows "\<exists>n wire master plain.
      pump_ups cr (sx_enc x) 0 pieces (sx_wire x) = (Inr n, (sx_wire x)\<lparr>tx := salt @ wire\<rparr>)
    \<and> evp_bytes_to_key cr (as_bytes pw) (key_len (sk_method c)) = Some master
    \<and> fst (read_chunks cr (sk_method c) master (length (all_chunks pieces)) (fresh_reader (salt @ wire @ rest))) = Inr plain
    \<and> read_address (hd plain) (stream_of (tl plain))
        = (Inr (case parse_ip host of Some ip \<Rightarrow> show_ip ip | None \<Rightarrow> take 255 host, port), stream_of payload)"
proof -
  obtain d k where d: "handshake cr (sk_method c) (sk_key c) salt (carried d) = (Inr k, sx_wire x)"
    and x: "sx_enc x = k" "sx_written x = encode_socks_addr host port"
    using assms(7) by (auto simp: ss_connect_def split: prod.splits sum.splits)
  have h: "and_then (hkdf_subkey cr (sk_key c) salt (key_len (sk_method c))) (cipher_new cr (sk_method c)) = Inr k"
    "sx_wire x = (carried d)\<lparr>tx := salt\<rparr>"
    using handshake_Inr [OF d] assms(5) [of d] by simp_all
  have master: "evp_bytes_to_key cr (as_bytes pw) (key_len (sk_method c)) = Some (sk_key c)"
    using assms(2-4) by (auto simp: ss_from_profile_def split: sum.splits)
  let ?wire = "concat (map (sealed cr k) (seal_calls 0 (all_chunks pieces)))"
  have "tx_cap (sx_wire x) = None" using h(2) assms(5) [of d] by simp
  then have "pump_ups cr (sx_enc x) 0 pieces (sx_wire x)
      = (Inr (2 * word_of_nat (length (all_chunks pieces))), (sx_wire x)\<lparr>tx := salt @ ?wire\<rparr>)"
    using pump_ups_wire [OF assms(1), of "sx_wire x" k 0 pieces] by (simp add: x(1) h(2))
  moreover have "fst (read_chunks cr (sk_method c) (sk_key c) (length (all_chunks pieces)) (fresh_reader (salt @ ?wire @ rest)))
      = Inr (encode_socks_addr host port @ payload)"
    by (rule trans [OF read_chunks_fresh [OF assms(1) chunks_max assms(6) h(1)]]) (simp_all add: concat_all_chunks assms(8) x(2))
  moreover have "encode_socks_addr host port \<noteq> []" by (simp add: encode_socks_addr_def Let_def split: option.split ip_addr.split)
  then have "read_address (hd (encode_socks_addr host port @ payload)) (stream_of (tl (encode_socks_addr host port @ payload)))
      = (Inr (case parse_ip host of Some ip \<Rightarrow> show_ip ip | None \<Rightarrow> take 255 host, port), stream_of payload)"
    using encode_socks_addr_reads_back [OF assms(9), where port = port and s = "stream_of []" and rest = payload] by (simp add: stream_of_def)
  ultimately show ?thesis using master by blast
qed

definition example_ss_vault :: "((string \<rightharpoonup> bytes) \<times> nat) vault_env" where
  "example_ss_vault = example_vault_env\<lparr>vault_of_json := (\<lambda>_. Inr [(''s'', ''pw'')])\<rparr>"

definition example_ss :: connection_config where
  "example_ss = (new_shadowsocks 1 0 ''s'' ''h'' 8388 ''aes-128-gcm'')\<lparr>cfg_authentication := Password (Some \<lparr>ref_id = ''s''\<rparr>)\<rparr>"

lemma example_ss_secret: "get_secret example_ss_vault example_store \<lparr>ref_id = ''s''\<rparr> example_disk = Inr ''pw''"
  by (simp add: get_secret_def vault_get_def vault_load_def example_ss_vault_def example_vault_env_def example_store_def example_disk_def
      NONCE_LEN_def FILE_MAGIC_def tget_def Let_def)

definition example_connector :: ss_connector where
  "example_connector = \<lparr> sk_host = ''h'', sk_port = 8388, sk_method = Aes128Gcm, sk_key = replicate 16 0,
     sk_dial = dial_from_profile ''h'' 8388 Direct default_tls_settings \<rparr>"

lemma example_ss_from: "ss_from_profile example_crypto example_ss_vault example_store example_ss example_disk = Some (Inr example_connector)"
proof -
  have "parse_method ''aes-128-gcm'' = Inr Aes128Gcm" by (simp add: parse_method_def to_ascii_lowercase_def ascii_lower_def)
  moreover have "evp_bytes_to_key example_crypto (as_bytes ''pw'') 16 = Some (replicate 16 0)"
    by (simp add: evp_bytes_to_key_def evp_loop_step evp_loop_enough example_crypto_def)
  ultimately show ?thesis
    using example_ss_secret by (simp add: ss_from_profile_def example_ss_def new_shadowsocks_def example_connector_def)
qed

lemma example_ss_connect:
  "\<exists>s'. ss_connect example_crypto (\<lambda>_. []) (\<lambda>_. stream_of []) example_dial_env example_connector (replicate 16 7) (Inr ()) ''x.io'' 443 (ss_pool, example_net)
     = (Inr \<lparr> sx_enc = (), sx_wire = (stream_of [])\<lparr>tx := replicate 16 7\<rparr>, sx_written = encode_socks_addr ''x.io'' 443 \<rparr>, s')"
proof -
  have "\<exists>d s'. pool_take example_dial_env (sk_dial example_connector) (ss_pool, example_net) = (Inr d, s')"
    by (simp add: pool_take_def take_idle_def ss_pool_def pool_new_def dial_def dial_unlocked_def example_connector_def dial_from_profile_def
        on_sys_def act_bind_def act_return_def connect_tcp_def resolve_cached_def cached_def example_dial_env_def example_net_def tget_def Let_def)
  then obtain d s' where "pool_take example_dial_env (sk_dial example_connector) (ss_pool, example_net) = (Inr d, s')" by blast
  then show ?thesis
    by (simp add: ss_connect_def handshake_def io_defs example_key)
qed

lemma chunks_small: "xs \<noteq> [] \<Longrightarrow> length xs \<le> n \<Longrightarrow> chunks n xs = [xs]"
  by (cases xs) (auto simp: chunks.simps [of n "_ # _"] chunks.simps [of n "[]"])

theorem ss_connection_reaches_target_witness:
  "\<exists>master plain wire.
      evp_bytes_to_key example_crypto (as_bytes ''pw'') 16 = Some master
    \<and> fst (read_chunks example_crypto Aes128Gcm master 1 (fresh_reader (replicate 16 7 @ wire))) = Inr plain
    \<and> read_address (hd plain) (stream_of (tl plain)) = (Inr (''x.io'', 443), stream_of [1, 2])"
proof -
  obtain s' where x: "ss_connect example_crypto (\<lambda>_. []) (\<lambda>_. stream_of []) example_dial_env example_connector (replicate 16 7) (Inr ())
      ''x.io'' 443 (ss_pool, example_net)
    = (Inr \<lparr> sx_enc = (), sx_wire = (stream_of [])\<lparr>tx := replicate 16 7\<rparr>, sx_written = encode_socks_addr ''x.io'' 443 \<rparr>, s')"
    using example_ss_connect by blast
  have p: "parse_ip ''x.io'' = None" by (rule parse_ip_name) simp_all
  have u: "valid_utf8 (take 255 (as_bytes ''x.io''))" by (rule valid_utf8_ascii) (simp add: as_bytes_def byte_of_def)
  have auth: "cfg_authentication example_ss = Password (Some \<lparr>ref_id = ''s''\<rparr>)" by (simp add: example_ss_def)
  have len: "length (replicate 16 7) = salt_len (sk_method example_connector)" by (simp add: salt_len_def example_connector_def)
  let ?h = "encode_socks_addr ''x.io'' 443 @ [1, 2]"
  have "length ?h \<le> MAX_CHUNK" "?h \<noteq> []" by (simp_all add: encode_socks_addr_def p MAX_CHUNK_def)
  then have one: "all_chunks [?h] = [?h]" by (simp add: all_chunks_def chunks_small)
  from ss_connection_reaches_target [OF example_crypto_ok example_ss_from auth example_ss_secret _ len x, where pieces = "[?h]" and payload = "[1, 2]" and rest = "[]"]
    p u one show ?thesis by (auto simp: example_connector_def)
qed

end
