(* ===== verification/Smart_Ssh.thy ===== *)
theory Smart_Ssh
  imports Ssh
begin

text \<open>
  Smart Config tunnels (\<^verbatim>\<open>crates/ssh/src/smart.rs\<close>): the encrypted answer of a Smart Config host, the endpoint in it, the shim
  in front of the SSH stream and the session over it. AES-GCM and the JSON parser are parameters, and so is the decoder that
  serde derives for \<^verbatim>\<open>RawEndpoint\<close>; reads of the socket return what the sizes \<open>shim_reads\<close> say, and a missing size is the timeout.
\<close>

definition SMART_CONFIG_KEY :: bytes where
  "SMART_CONFIG_KEY =
     [115, 21, 66, 88, 89, 169, 231, 172, 80, 193, 91, 145, 10, 200, 80, 39, 25, 213, 15, 209, 178,
      103, 33, 217, 81, 134, 148, 19, 17, 134, 199, 88]"

definition MAX_SHIM_PAYLOAD :: nat where "MAX_SHIM_PAYLOAD = 16 * 1024"
definition MAX_SHIM_RESPONSE :: nat where "MAX_SHIM_RESPONSE = 64 * 1024"

record raw_action =
  ra_action :: string
  ra_data :: string
  ra_max_len :: "nat option"
  ra_flags :: "string list"

record raw_tokens =
  rt_host_port :: string
  rt_ua :: string

record raw_endpoint =
  re_kind :: string
  re_hostname :: string
  re_port :: u16
  re_username :: string
  re_auth_method :: string
  re_auth :: string
  re_shim_enabled :: bool
  re_tokens :: raw_tokens
  re_tx :: "raw_action list"
  re_rx :: "raw_action list"

record smart_endpoint =
  se_host :: string
  se_port :: u16
  se_username :: string
  se_password :: string
  se_payload :: bytes
  se_marker :: bytes
  se_max_response :: nat

record smart_ssh_env = zone_env +
  raw_endpoint_of :: "json \<Rightarrow> raw_endpoint option"
  aes256_gcm_decrypt :: "bytes \<Rightarrow> bytes \<Rightarrow> bytes \<Rightarrow> bytes option"

definition smart_error :: "string \<Rightarrow> ssh_error" where
  "smart_error message = SshZones (''Smart Config: '' @ message)"

definition decrypt_response :: "smart_ssh_env \<Rightarrow> bytes \<Rightarrow> ssh_error + bytes" where
  "decrypt_response env encrypted =
     (if \<not> (28 \<le> length encrypted \<and> length encrypted \<le> 1024 * 1024) then Inl (smart_error ''invalid encrypted response length'')
      else ok_or (smart_error ''response authentication failed'')
             (aes256_gcm_decrypt env SMART_CONFIG_KEY (take 12 encrypted) (drop 12 encrypted)))"

text \<open>\<^verbatim>\<open>str::replace\<close> for a pattern that is not empty.\<close>

function str_replace :: "string \<Rightarrow> string \<Rightarrow> string \<Rightarrow> string" where
  "str_replace pat rep s =
     (if pat = [] then s
      else case find_sub pat s of
             None \<Rightarrow> s
           | Some i \<Rightarrow> take i s @ rep @ str_replace pat rep (drop (i + length pat) s))"
  by pat_completeness auto
termination
proof (relation "measure (\<lambda>(pat, rep, s). length s)", goal_cases)
  case (2 pat rep s i)
  then have "s \<noteq> []" by (cases s) auto
  then show ?case using 2 by (cases s) auto
qed simp

declare str_replace.simps [simp del]

definition render_tokens :: "string \<Rightarrow> raw_tokens \<Rightarrow> ssh_error + bytes" where
  "render_tokens template tokens =
     (let rendered = str_replace ''[crlf]'' CRLF (str_replace ''[ua]'' (rt_ua tokens)
                       (str_replace ''[host_port]'' (rt_host_port tokens) template)) in
      if MAX_SHIM_PAYLOAD < length rendered \<or> CHR ''['' \<in> set rendered \<or> CHR '']'' \<in> set rendered
      then Inl (smart_error ''unsupported shim token or payload length'')
      else Inr (as_bytes rendered))"

definition is_tunnel_patch :: "json \<Rightarrow> bool" where
  "is_tunnel_patch item \<longleftrightarrow>
     Option.bind (json_field item ''op'') json_str = Some ''merge''
   \<and> Option.bind (Option.bind (json_field item ''value'') (\<lambda>v. json_field v ''type'')) json_str = Some ''ssh_darktunnel''"

definition ascii_control_or_space :: "char \<Rightarrow> bool" where
  "ascii_control_or_space c \<longleftrightarrow> (of_char c :: nat) < 32 \<or> (of_char c :: nat) = 127 \<or> c = CHR '' ''"

definition resolve_markers :: "smart_config \<Rightarrow> raw_endpoint \<Rightarrow> raw_endpoint" where
  "resolve_markers smart raw =
     raw\<lparr>re_username := (if re_username raw = ''<<username>>'' then sc_username smart else re_username raw),
         re_auth := (if re_auth raw = ''<<password>>'' then sc_password smart else re_auth raw)\<rparr>"

definition unsupported :: "raw_endpoint \<Rightarrow> bool" where
  "unsupported raw \<longleftrightarrow>
     re_kind raw \<noteq> ''ssh_darktunnel'' \<or> re_auth_method raw \<noteq> ''password'' \<or> re_hostname raw = [] \<or> 253 < length (re_hostname raw)
   \<or> list_ex ascii_control_or_space (re_hostname raw) \<or> re_port raw = 0 \<or> re_username raw = [] \<or> 255 < length (re_username raw)
   \<or> re_auth raw = [] \<or> 4096 < length (re_auth raw) \<or> \<not> re_shim_enabled raw"

definition first_action :: "(raw_action \<Rightarrow> bool) \<Rightarrow> raw_action list \<Rightarrow> raw_action option" where
  "first_action p as = (case as of [] \<Rightarrow> None | a # _ \<Rightarrow> if p a then Some a else None)"

definition endpoint_of_raw :: "raw_endpoint \<Rightarrow> ssh_error + smart_endpoint" where
  "endpoint_of_raw raw =
     (if unsupported raw then Inl (smart_error ''unsupported SSH tunnel parameters'')
      else
        and_then (ok_or (smart_error ''unsupported shim transmit state'') (first_action (\<lambda>a. ra_action a = ''payload'') (re_tx raw))) (\<lambda>tx'.
        and_then (ok_or (smart_error ''unsupported shim receive state'')
            (first_action (\<lambda>a. ra_action a = ''match_until'' \<and> ''skip'' \<in> set (ra_flags a)) (re_rx raw))) (\<lambda>rx'.
        and_then (render_tokens (ra_data tx') (re_tokens raw)) (\<lambda>payload.
        and_then (render_tokens (ra_data rx') (re_tokens raw)) (\<lambda>marker.
          if marker = [] \<or> 128 < length marker \<or> \<not> prefix (as_bytes ''SSH-'') marker then Inl (smart_error ''unsupported SSH shim marker'')
          else
            let max_response = min (case ra_max_len rx' of None \<Rightarrow> MAX_SHIM_RESPONSE | Some n \<Rightarrow> n) MAX_SHIM_RESPONSE in
            if max_response < length marker then Inl (smart_error ''invalid shim response limit'')
            else Inr \<lparr> se_host = re_hostname raw, se_port = re_port raw, se_username = re_username raw, se_password = re_auth raw,
                       se_payload = payload, se_marker = marker, se_max_response = max_response \<rparr>)))))"

definition parse_endpoint :: "smart_ssh_env \<Rightarrow> bytes \<Rightarrow> smart_config \<Rightarrow> ssh_error + smart_endpoint" where
  "parse_endpoint env plain smart =
     (case json_from_slice env plain of
        None \<Rightarrow> Inl (smart_error ''invalid decrypted JSON patch'')
      | Some (JArr items) \<Rightarrow>
          and_then (ok_or (smart_error ''no supported SSH tunnel in response'')
              (Option.bind (find is_tunnel_patch (rev items)) (\<lambda>item. json_field item ''value''))) (\<lambda>v.
          and_then (ok_or (smart_error ''invalid SSH tunnel parameters'') (raw_endpoint_of env v)) (\<lambda>raw.
            endpoint_of_raw (resolve_markers smart raw)))
      | Some _ \<Rightarrow> Inl (smart_error ''expected JSON patch array''))"

datatype smart_outcome = SmartErr ssh_error | SmartPanic

fun fetch_endpoint_from :: "smart_ssh_env \<Rightarrow> (string \<Rightarrow> u16 \<Rightarrow> bool \<Rightarrow> string \<Rightarrow> exchange) \<Rightarrow> smart_config \<Rightarrow> string option
    \<Rightarrow> (smart_host \<times> bool) list \<Rightarrow> smart_outcome + smart_endpoint" where
  "fetch_endpoint_from env net smart zone [] = Inl (SmartErr (smart_error ''could not fetch selected tunnel configuration''))"
| "fetch_endpoint_from env net smart zone ((host, https) # rest) =
     (case get_smart_config_body net (sh_host host) (sh_port host) (sc_path smart) https zone of
        Inr body \<Rightarrow>
          map_err SmartErr (and_then (decrypt_response env body) (\<lambda>plain. parse_endpoint env plain smart))
      | Inl ZPanic \<Rightarrow> Inl SmartPanic
      | Inl (ZErr _) \<Rightarrow> fetch_endpoint_from env net smart zone rest)"

definition fetch_endpoint :: "smart_ssh_env \<Rightarrow> (string \<Rightarrow> u16 \<Rightarrow> bool \<Rightarrow> string \<Rightarrow> exchange) \<Rightarrow> smart_config \<Rightarrow> string option
    \<Rightarrow> smart_outcome + smart_endpoint" where
  "fetch_endpoint env net smart zone = fetch_endpoint_from env net smart zone (zone_hosts smart)"

subsection \<open>The shim\<close>

text \<open>
  The bytes read while looking for the marker go back in front of the stream. \<open>shim_io\<close> is the connection: the stream of the
  endpoint and how many bytes each read is offered.
\<close>

record prefixed =
  pf_prefix :: bytes
  pf_position :: nat
  pf_inner :: bstream

definition prefixed_read :: "nat \<Rightarrow> nat \<Rightarrow> prefixed \<Rightarrow> bytes \<times> prefixed" where
  "prefixed_read room offered p =
     (let remaining = length (pf_prefix p) - pf_position p in
      if 0 < remaining
      then (let count = min remaining room in
            (take count (drop (pf_position p) (pf_prefix p)), p\<lparr>pf_position := pf_position p + count\<rparr>))
      else (let count = min offered room in
            (take count (rx (pf_inner p)), p\<lparr>pf_inner := (pf_inner p)\<lparr>rx := drop count (rx (pf_inner p))\<rparr>\<rparr>)))"

definition prefixed_stream :: "prefixed \<Rightarrow> bstream" where
  "prefixed_stream p = (pf_inner p)\<lparr>rx := drop (pf_position p) (pf_prefix p) @ rx (pf_inner p)\<rparr>"

datatype shim_read = ReadFails | ReadUpTo nat

record shim_io =
  shim_stream :: bstream
  shim_reads :: "shim_read list"

fun await_marker :: "bytes \<Rightarrow> nat \<Rightarrow> bytes \<Rightarrow> shim_read list \<Rightarrow> bstream \<Rightarrow> ssh_error + prefixed" where
  "await_marker marker limit response [] tcp = Inl (smart_error ''SSH shim timed out'')"
| "await_marker marker limit response (ReadFails # rest) tcp = Inl (smart_error ''could not read SSH shim response'')"
| "await_marker marker limit response (ReadUpTo n # rest) tcp =
     (let chunk = take (min n 4096) (rx tcp); tcp1 = tcp\<lparr>rx := drop (min n 4096) (rx tcp)\<rparr> in
      if chunk = [] \<or> limit < length response + length chunk then Inl (smart_error ''SSH shim did not return an SSH banner'')
      else let response1 = response @ chunk in
           case find_sub marker response1 of
             Some at \<Rightarrow> Inr \<lparr> pf_prefix = drop at response1, pf_position = 0, pf_inner = tcp1 \<rparr>
           | None \<Rightarrow> await_marker marker limit response1 rest tcp1)"

definition open_shim :: "(string \<Rightarrow> u16 \<Rightarrow> shim_io option) \<Rightarrow> smart_endpoint \<Rightarrow> ssh_error + prefixed" where
  "open_shim connect endpoint =
     (case connect (se_host endpoint) (se_port endpoint) of
        None \<Rightarrow> Inl (smart_error ''could not reach selected SSH endpoint'')
      | Some c \<Rightarrow>
          (case write_all id (se_payload endpoint) (shim_stream c) of
             (Inl _, _) \<Rightarrow> Inl (smart_error ''could not send SSH shim'')
           | (Inr _, tcp) \<Rightarrow> await_marker (se_marker endpoint) (se_max_response endpoint) [] (shim_reads c) tcp))"

definition smart_options :: "smart_endpoint \<Rightarrow> string option \<Rightarrow> u64 \<Rightarrow> u64 \<Rightarrow> host_key_policy \<Rightarrow> ssh_options" where
  "smart_options endpoint known_hosts keepalive tmo policy =
     \<lparr> so_host = se_host endpoint, so_port = se_port endpoint, so_username = se_username endpoint, so_auth = AuthNone,
       so_keepalive = keepalive, so_timeout = tmo, so_policy = policy, so_known_hosts = known_hosts, so_zone = None \<rparr>"

definition smart_act :: "ssh_error + 'b \<Rightarrow> ('w, smart_outcome, 'b) act" where
  "smart_act r w = (map_err SmartErr r, w)"

definition connect_smart_profile :: "('w, 'a) ssh_env_scheme \<Rightarrow> ('json, 'b) smart_env_scheme \<Rightarrow> smart_ssh_env
    \<Rightarrow> (string \<Rightarrow> u16 \<Rightarrow> bool \<Rightarrow> string \<Rightarrow> exchange) \<Rightarrow> (string \<Rightarrow> u16 \<Rightarrow> shim_io option)
    \<Rightarrow> connection_config \<Rightarrow> string \<Rightarrow> string option \<Rightarrow> ('w, smart_outcome, ssh_session) act" where
  "connect_smart_profile env lenv senv net connect profile link known_hosts =
     act_bind (smart_act (map_err (\<lambda>_. smart_error ''saved import link is invalid'') (decode_rocket_smart_link lenv link))) (\<lambda>smart.
     act_bind (\<lambda>w. (fetch_endpoint senv net smart (cfg_selected_zone profile), w)) (\<lambda>endpoint.
     act_bind (smart_act (open_shim connect endpoint)) (\<lambda>stream.
       case cfg_settings profile of
         SetSsh keepalive tmo policy \<Rightarrow>
           (\<lambda>w. case connect_over_transport_password env (smart_options endpoint known_hosts keepalive tmo policy) (se_password endpoint)
                       (PlainTcp (prefixed_stream stream)) w of
                   (r, w1) \<Rightarrow> (map_err SmartErr r, w1))
       | _ \<Rightarrow> smart_act (Inl (smart_error ''invalid SSH settings'')))))"

subsection \<open>What the shim hands to SSH\<close>

lemma prefixed_read_stream:
  assumes "prefixed_read room offered p = (bs, p')" and "pf_position p \<le> length (pf_prefix p)"
  shows "bs @ rx (prefixed_stream p') = rx (prefixed_stream p)" and "pf_position p' \<le> length (pf_prefix p')"
    and "tx (prefixed_stream p') = tx (prefixed_stream p)"
proof -
  have td: "take c (drop a xs) @ drop (a + c) xs @ ys = drop a xs @ ys" for a c and xs ys :: bytes
    by (metis add.commute append.assoc append_take_drop_id drop_drop)
  show "bs @ rx (prefixed_stream p') = rx (prefixed_stream p)" "pf_position p' \<le> length (pf_prefix p')"
    "tx (prefixed_stream p') = tx (prefixed_stream p)"
    using assms by (auto simp: prefixed_read_def prefixed_stream_def Let_def td split: if_splits)
qed

fun prefixed_reads :: "(nat \<times> nat) list \<Rightarrow> prefixed \<Rightarrow> bytes" where
  "prefixed_reads [] p = []"
| "prefixed_reads ((room, offered) # rs) p = (case prefixed_read room offered p of (bs, p') \<Rightarrow> bs @ prefixed_reads rs p')"

lemma prefixed_reads_prefix: "pf_position p \<le> length (pf_prefix p) \<Longrightarrow> prefix (prefixed_reads rs p) (rx (prefixed_stream p))"
proof (induction rs arbitrary: p)
  case (Cons r rs)
  obtain room offered where r: "r = (room, offered)" by fastforce
  obtain bs p' where b: "prefixed_read room offered p = (bs, p')" by fastforce
  note s = prefixed_read_stream [OF b Cons.prems]
  from Cons.IH [OF s(2)] show ?case using b s(1) by (simp add: r flip: s(1))
qed simp

lemma await_marker_position: "await_marker marker limit response rest tcp = Inr p \<Longrightarrow> pf_position p = 0"
  by (induction marker limit response rest tcp rule: await_marker.induct) (auto simp: Let_def split: if_splits option.splits)

lemma find_sub_None: "find_sub pat s = None \<Longrightarrow> i \<le> length s \<Longrightarrow> \<not> prefix pat (drop i s)"
proof (induction s arbitrary: i)
  case Nil
  then show ?case by (auto split: if_splits)
next
  case (Cons c s)
  then show ?case by (cases i) (auto split: if_splits)
qed

lemma find_sub_take:
  assumes "find_sub pat s = Some i" and "i + length pat \<le> k"
  shows "find_sub pat (take k s) = Some i"
proof (cases "find_sub pat (take k s)")
  case None
  obtain t where t: "drop i s = pat @ t" and i: "i \<le> length s" using find_sub_Some [OF assms(1)] by (auto simp: prefix_def)
  have "drop i (take k s) = pat @ take (k - i - length pat) t" using assms(2) by (simp add: drop_take t)
  then have "prefix pat (drop i (take k s))" "i \<le> length (take k s)" using i assms(2) by simp_all
  then show ?thesis using find_sub_None [OF None] by blast
next
  case (Some j)
  then show ?thesis using find_sub_prefix [OF Some, of "drop k s"] assms(1) by simp
qed

lemma drop_front: "i \<le> length xs \<Longrightarrow> drop i (xs @ ys) = drop i xs @ ys"
  by simp

lemma await_marker_sound:
  assumes "await_marker marker limit response rest tcp = Inr p" and "find_sub marker response = None"
  shows "\<exists>i. find_sub marker (response @ rx tcp) = Some i \<and> rx (prefixed_stream p) = drop i (response @ rx tcp)
     \<and> tx (prefixed_stream p) = tx tcp"
  using assms
proof (induction marker limit response rest tcp rule: await_marker.induct)
  case (3 marker limit response n rest tcp)
  let ?chunk = "take (min n 4096) (rx tcp)" and ?tcp = "tcp\<lparr>rx := drop (min n 4096) (rx tcp)\<rparr>"
  have all: "response @ rx tcp = (response @ ?chunk) @ rx ?tcp" by simp
  show ?case
  proof (cases "find_sub marker (response @ ?chunk)")
    case None
    then have a: "await_marker marker limit (response @ ?chunk) rest ?tcp = Inr p"
      using 3(2) by (simp add: Let_def split: if_splits)
    have c: "\<not> (?chunk = [] \<or> limit < length response + length ?chunk)" using 3(2) by (simp add: Let_def split: if_splits)
    from 3(1) [OF refl refl c refl None a None] show ?thesis unfolding all by simp
  next
    case (Some i)
    then have p: "p = \<lparr> pf_prefix = drop i (response @ ?chunk), pf_position = 0, pf_inner = ?tcp \<rparr>"
      using 3(2) by (simp add: Let_def split: if_splits)
    have "i \<le> length (response @ ?chunk)" using find_sub_Some [OF Some] by blast
    then have "drop i (response @ rx tcp) = drop i (response @ ?chunk) @ rx ?tcp" unfolding all by (rule drop_front)
    moreover have "find_sub marker (response @ rx tcp) = Some i" unfolding all by (rule find_sub_prefix [OF Some])
    ultimately show ?thesis by (simp add: p prefixed_stream_def)
  qed
qed simp_all

fun offered :: "shim_read list \<Rightarrow> nat" where
  "offered [] = 0"
| "offered (ReadFails # rest) = 0"
| "offered (ReadUpTo n # rest) = min n 4096 + offered rest"

definition reading :: "shim_read \<Rightarrow> bool" where
  "reading r = (case r of ReadFails \<Rightarrow> False | ReadUpTo n \<Rightarrow> 0 < n)"

lemma await_marker_complete:
  assumes "find_sub marker (response @ rx tcp) = Some i" and "find_sub marker response = None" and "list_all reading rest"
    and "length (response @ rx tcp) \<le> limit" and "i + length marker \<le> length response + offered rest"
  shows "\<exists>p. await_marker marker limit response rest tcp = Inr p"
  using assms
proof (induction marker limit response rest tcp rule: await_marker.induct)
  case (1 marker limit response tcp)
  then show ?case using find_sub_take [of marker "response @ rx tcp" i "length response"] by simp
next
  case (2 marker limit response rest tcp)
  then show ?case by (simp add: reading_def)
next
  case (3 marker limit response n rest tcp)
  let ?chunk = "take (min n 4096) (rx tcp)" and ?tcp = "tcp\<lparr>rx := drop (min n 4096) (rx tcp)\<rparr>"
  have n: "0 < n" using 3(4) by (simp add: reading_def)
  have "rx tcp \<noteq> []" using 3(2,3) by auto
  then have c: "?chunk \<noteq> []" "\<not> limit < length response + length ?chunk" using n 3(5) by simp_all
  show ?case
  proof (cases "find_sub marker (response @ ?chunk)")
    case None
    have all: "(response @ ?chunk) @ rx ?tcp = response @ rx tcp" by simp
    have "length ?chunk = min n 4096"
    proof (rule ccontr)
      assume "length ?chunk \<noteq> min n 4096"
      then have "length (rx tcp) \<le> min n 4096" by (simp add: min_def split: if_splits)
      then have "?chunk = rx tcp" by (rule take_all)
      then show False using None 3(2) by simp
    qed
    then have "i + length marker \<le> length (response @ ?chunk) + offered rest" using 3(6) by simp
    moreover have "list_all reading rest" "length ((response @ ?chunk) @ rx ?tcp) \<le> limit"
      "find_sub marker ((response @ ?chunk) @ rx ?tcp) = Some i"
      using 3(2,4,5) unfolding all by simp_all
    ultimately have "\<exists>p. await_marker marker limit (response @ ?chunk) rest ?tcp = Inr p"
      using 3(1) [OF refl refl _ refl None] c None by simp
    then show ?thesis using c None by (simp add: Let_def)
  next
    case (Some j)
    then show ?thesis using c by (simp add: Let_def)
  qed
qed

text \<open>
  C23. The shim is invisible to SSH: if it opens, the endpoint got exactly the payload, and whatever sizes the network and the SSH
  client read in, the client sees the bytes of the server from the first occurrence of the marker on, and nothing before.
  It opens whenever the marker is in the answer, the answer fits the limit and the reads reach the marker.
\<close>

theorem smart_shim_transparent:
  assumes "connect (se_host e) (se_port e) = Some c" and "tx_cap (shim_stream c) = None" and "se_marker e \<noteq> []"
  shows "(case open_shim connect e of
            Inl _ \<Rightarrow> True
          | Inr p \<Rightarrow> (\<exists>i. find_sub (se_marker e) (rx (shim_stream c)) = Some i
              \<and> rx (prefixed_stream p) = drop i (rx (shim_stream c)) \<and> tx (prefixed_stream p) = tx (shim_stream c) @ se_payload e
              \<and> prefix (prefixed_reads sizes p) (drop i (rx (shim_stream c)))))
       \<and> (case find_sub (se_marker e) (rx (shim_stream c)) of
            None \<Rightarrow> \<not> is_ok (open_shim connect e)
          | Some i \<Rightarrow> list_all reading (shim_reads c) \<and> length (rx (shim_stream c)) \<le> se_max_response e
              \<and> i + length (se_marker e) \<le> offered (shim_reads c) \<longrightarrow> is_ok (open_shim connect e))"
proof -
  let ?tcp = "(shim_stream c)\<lparr>tx := tx (shim_stream c) @ se_payload e\<rparr>"
  have o: "open_shim connect e = await_marker (se_marker e) (se_max_response e) [] (shim_reads c) ?tcp"
    using assms(1,2) by (simp add: open_shim_def)
  have n: "find_sub (se_marker e) [] = None" using assms(3) by simp
  have sound: "\<exists>i. find_sub (se_marker e) (rx (shim_stream c)) = Some i \<and> rx (prefixed_stream p) = drop i (rx (shim_stream c))
      \<and> tx (prefixed_stream p) = tx (shim_stream c) @ se_payload e" if "open_shim connect e = Inr p" for p
    using await_marker_sound [OF that [unfolded o] n] by simp
  have rd: "prefix (prefixed_reads sizes p) (rx (prefixed_stream p))" if "open_shim connect e = Inr p" for p
    using await_marker_position [OF that [unfolded o]] by (simp add: prefixed_reads_prefix)
  have first: "case open_shim connect e of Inl _ \<Rightarrow> True
          | Inr p \<Rightarrow> (\<exists>i. find_sub (se_marker e) (rx (shim_stream c)) = Some i
              \<and> rx (prefixed_stream p) = drop i (rx (shim_stream c)) \<and> tx (prefixed_stream p) = tx (shim_stream c) @ se_payload e
              \<and> prefix (prefixed_reads sizes p) (drop i (rx (shim_stream c))))"
  proof (cases "open_shim connect e")
    case (Inr p)
    then show ?thesis using sound [OF Inr] rd [OF Inr] by auto
  qed simp
  have second: "case find_sub (se_marker e) (rx (shim_stream c)) of
            None \<Rightarrow> \<not> is_ok (open_shim connect e)
          | Some i \<Rightarrow> list_all reading (shim_reads c) \<and> length (rx (shim_stream c)) \<le> se_max_response e
              \<and> i + length (se_marker e) \<le> offered (shim_reads c) \<longrightarrow> is_ok (open_shim connect e)"
  proof (cases "find_sub (se_marker e) (rx (shim_stream c))")
    case None
    then show ?thesis using sound by (cases "open_shim connect e") (auto simp: is_ok_iff)
  next
    case (Some i)
    then show ?thesis using await_marker_complete [of "se_marker e" "[]" ?tcp i "shim_reads c" "se_max_response e"] n
      by (auto simp: o is_ok_iff)
  qed
  from first second show ?thesis by (rule conjI)
qed

definition example_endpoint :: smart_endpoint where
  "example_endpoint =
     \<lparr> se_host = ''e.io'', se_port = 80, se_username = ''u'', se_password = ''p'', se_payload = as_bytes ''GET /'',
       se_marker = as_bytes ''SSH-'', se_max_response = 64 \<rparr>"

definition example_shim :: shim_io where
  "example_shim = \<lparr> shim_stream = stream_of (as_bytes ''200 OK SSH-2.0''), shim_reads = [ReadUpTo 8, ReadUpTo 8] \<rparr>"

theorem smart_shim_transparent_witness:
  "case open_shim (\<lambda>_ _. Some example_shim) example_endpoint of
     Inl _ \<Rightarrow> False
   | Inr p \<Rightarrow> rx (prefixed_stream p) = as_bytes ''SSH-2.0'' \<and> tx (prefixed_stream p) = as_bytes ''GET /''"
proof -
  have f: "find_sub (se_marker example_endpoint) (rx (shim_stream example_shim)) = Some 7"
    unfolding example_endpoint_def example_shim_def by code_simp
  have d: "drop 7 (rx (shim_stream example_shim)) = as_bytes ''SSH-2.0''" unfolding example_shim_def by code_simp
  have m: "se_marker example_endpoint \<noteq> []" "tx_cap (shim_stream example_shim) = None"
    "list_all reading (shim_reads example_shim)" "length (rx (shim_stream example_shim)) \<le> se_max_response example_endpoint"
    "7 + length (se_marker example_endpoint) \<le> offered (shim_reads example_shim)"
    "tx (shim_stream example_shim) @ se_payload example_endpoint = as_bytes ''GET /''"
    by (simp_all add: example_endpoint_def example_shim_def stream_of_def reading_def as_bytes_def)
  from smart_shim_transparent [of "\<lambda>_ _. Some example_shim" example_endpoint example_shim "[]", OF refl m(2) m(1)] f m(3-6) d
  show ?thesis by (cases "open_shim (\<lambda>_ _. Some example_shim) example_endpoint") auto
qed

text \<open>What an endpoint that was accepted looks like.\<close>

lemma endpoint_of_raw_ok:
  assumes "endpoint_of_raw raw = Inr e"
  shows "prefix (as_bytes ''SSH-'') (se_marker e)" and "length (se_marker e) \<le> 128"
    and "length (se_marker e) \<le> se_max_response e" and "se_max_response e \<le> MAX_SHIM_RESPONSE"
    and "length (se_payload e) \<le> MAX_SHIM_PAYLOAD" and "se_host e \<noteq> []" and "\<not> list_ex ascii_control_or_space (se_host e)"
    and "se_port e \<noteq> 0" and "se_password e \<noteq> []"
  using assms
  by (auto simp: endpoint_of_raw_def unsupported_def render_tokens_def and_then_eq_Inr ok_or_eq_Inr Let_def split: if_splits)

end
