(* ===== verification/Routing.thy ===== *)
theory Routing
  imports Os
begin

text \<open>
  \<^verbatim>\<open>crates/routing\<close>: running \<^verbatim>\<open>ip\<close>, finding the default route, the plan of routes for a tunnel, and
  applying and removing routes with rollback. A network of the \<^verbatim>\<open>ipnet\<close> crate is an address with a prefix
  length; printing it is a parameter.
\<close>

type_synonym ip_net = "ip_addr \<times> nat"

datatype routing_error = RIo string | NoDefaultRoute | ROther string

fun show_routing_error :: "routing_error \<Rightarrow> string" where
  "show_routing_error (RIo e) = ''I/O error: '' @ e"
| "show_routing_error NoDefaultRoute =
     ''no default route found '' @ [CHR 0xE2, CHR 0x80, CHR 0x94] @ '' cannot protect the SSH server path''"
| "show_routing_error (ROther e) = e"

record default_route =
  dr_gateway :: "ip_addr option"
  dr_dev :: string
  dr_metric :: "u32 option"

record added_route =
  ar_dest :: string
  ar_via :: "ip_addr option"
  ar_dev :: string

record route_journal =
  rj_added :: "added_route list"
  rj_original_default :: "default_route option"

subsection \<open>Networks\<close>

definition private_cidrs :: "ip_net list" where
  "private_cidrs =
     [(IpV4 (ipv4 10 0 0 0), 8), (IpV4 (ipv4 172 16 0 0), 12), (IpV4 (ipv4 192 168 0 0), 16),
      (IpV4 (ipv4 169 254 0 0), 16), (IpV6 (0xfc00 * 2 ^ 112), 7), (IpV6 (0xfe80 * 2 ^ 112), 10)]"

definition split_default_v4 :: "ip_net list" where
  "split_default_v4 = [(IpV4 0, 1), (IpV4 (ipv4 128 0 0 0), 1)]"

definition split_default_v6 :: "ip_net list" where
  "split_default_v6 = [(IpV6 0, 1), (IpV6 (0x8000 * 2 ^ 112), 1)]"

definition is_private :: "(ip_net \<Rightarrow> ip_addr \<Rightarrow> bool) \<Rightarrow> ip_addr \<Rightarrow> bool" where
  "is_private net_contains addr \<longleftrightarrow> list_ex (\<lambda>n. net_contains n addr) private_cidrs"

subsection \<open>Running the ip command\<close>

definition ip_bin :: "('w, 'a) sys_scheme \<Rightarrow> string" where
  "ip_bin sys = first_existing sys [''/usr/sbin/ip'', ''/sbin/ip'', ''/usr/bin/ip''] ''ip''"

definition run_ip :: "('w, 'a) sys_scheme \<Rightarrow> string list \<Rightarrow> ('w, routing_error, string) act" where
  "run_ip sys args w =
     (case exec sys (ip_bin sys) args [] w of
        (Inl e, w') \<Rightarrow> (Inl (RIo e), w')
      | (Inr out, w') \<Rightarrow>
          (let stdout = trim (from_utf8_lossy (out_stdout out)); stderr = trim (from_utf8_lossy (out_stderr out)) in
           if \<not> out_success out
           then (Inl (ROther (''ip '' @ join_with '' '' args @ '' failed: '' @ stderr @ '' '' @ stdout)), w')
           else (Inr stdout, w')))"

definition run_ip_ignore_exists :: "('w, 'a) sys_scheme \<Rightarrow> string list \<Rightarrow> ('w, routing_error, bool) act" where
  "run_ip_ignore_exists sys args w =
     (case run_ip sys args w of
        (Inr _, w') \<Rightarrow> (Inr True, w')
      | (Inl (ROther msg), w') \<Rightarrow>
          (if str_contains ''File exists'' msg \<or> str_contains ''exists'' msg then (Inr False, w')
           else (Inl (ROther msg), w'))
      | (Inl e, w') \<Rightarrow> (Inl e, w'))"

subsection \<open>The default route\<close>

record route_json =
  rt_gateway :: "string option"
  rt_dev :: "string option"
  rt_metric :: "u32 option"

fun best_default :: "route_json list \<Rightarrow> (u32 \<times> default_route) option \<Rightarrow> (u32 \<times> default_route) option" where
  "best_default [] best = best"
| "best_default (row # rows) best =
     (case rt_dev row of
        None \<Rightarrow> best_default rows best
      | Some dev \<Rightarrow>
          (let metric = (case rt_metric row of None \<Rightarrow> 0 | Some m \<Rightarrow> m);
               gateway = (case rt_gateway row of None \<Rightarrow> None | Some g \<Rightarrow> parse_ip g);
               cand = \<lparr> dr_gateway = gateway, dr_dev = dev, dr_metric = rt_metric row \<rparr>
           in best_default rows
                (case best of
                   None \<Rightarrow> Some (metric, cand)
                 | Some (m, r) \<Rightarrow> if metric < m then Some (metric, cand) else Some (m, r))))"

text \<open>The loop over the words of the line: an option takes the word behind it, if there is one.\<close>

definition parse_u32 :: "string \<Rightarrow> u32 option" where
  "parse_u32 s = map_option word_of_nat (parse_uint (2 ^ 32) s)"

fun scan_words :: "string list \<Rightarrow> ip_addr option \<Rightarrow> string option \<Rightarrow> u32 option
    \<Rightarrow> ip_addr option \<times> string option \<times> u32 option" where
  "scan_words [] gw dev metric = (gw, dev, metric)"
| "scan_words [word] gw dev metric = (gw, dev, metric)"
| "scan_words (word # next # rest) gw dev metric =
     (if word = ''via'' then scan_words rest (parse_ip next) dev metric
      else if word = ''dev'' then scan_words rest gw (Some next) metric
      else if word = ''metric'' then scan_words rest gw dev (parse_u32 next)
      else scan_words (next # rest) gw dev metric)"

definition parse_default_route_text :: "string \<Rightarrow> default_route option" where
  "parse_default_route_text text =
     (case str_lines text of
        [] \<Rightarrow> None
      | l # _ \<Rightarrow>
          (let line = trim l in
           if \<not> prefix ''default'' line then None
           else case scan_words (split_whitespace line) None None None of
                  (gateway, dev, metric) \<Rightarrow>
                    map_option (\<lambda>d. \<lparr> dr_gateway = gateway, dr_dev = d, dr_metric = metric \<rparr>) dev))"

definition detect_default_route ::
  "('w, 'a) sys_scheme \<Rightarrow> (string \<Rightarrow> route_json list option) \<Rightarrow> ('w, routing_error, default_route) act" where
  "detect_default_route sys json_rows w =
     (case run_ip sys [''-json'', ''route'', ''show'', ''default''] w of
        (r, w1) \<Rightarrow>
          (case (case r of Inl _ \<Rightarrow> None | Inr raw \<Rightarrow>
                   (case json_rows raw of None \<Rightarrow> None | Some rows \<Rightarrow> best_default rows None)) of
             Some (_, route) \<Rightarrow> (Inr route, w1)
           | None \<Rightarrow>
               act_bind (run_ip sys [''route'', ''show'', ''default''])
                 (\<lambda>text. case parse_default_route_text text of
                    None \<Rightarrow> act_fail NoDefaultRoute | Some route \<Rightarrow> act_return route) w1))"

subsection \<open>The plan\<close>

definition bypass_route :: "(ip_net \<Rightarrow> string) \<Rightarrow> default_route \<Rightarrow> bool \<Rightarrow> ip_net \<Rightarrow> added_route list" where
  "bypass_route show_net default' ipv6 cidr =
     (if is_ipv4 (fst cidr)
      then [\<lparr> ar_dest = show_net cidr, ar_via = dr_gateway default', ar_dev = dr_dev default' \<rparr>]
      else if ipv6
      then [\<lparr> ar_dest = show_net cidr,
              ar_via = (case dr_gateway default' of None \<Rightarrow> None | Some g \<Rightarrow> if is_ipv4 g then None else Some g),
              ar_dev = dr_dev default' \<rparr>]
      else [])"

definition build_plan :: "(ip_net \<Rightarrow> string) \<Rightarrow> default_route \<Rightarrow> string \<Rightarrow> ip_addr list \<Rightarrow> bool \<Rightarrow> ip_net list \<Rightarrow> bool
    \<Rightarrow> route_journal" where
  "build_plan show_net default' tun_name server_ips bypass_private extra_bypass ipv6 =
     \<lparr> rj_added =
         map (\<lambda>ip. \<lparr> ar_dest = show_ip ip, ar_via = dr_gateway default', ar_dev = dr_dev default' \<rparr>) server_ips
         @ (if bypass_private then concat (map (bypass_route show_net default' ipv6) (private_cidrs @ extra_bypass)) else [])
         @ map (\<lambda>net. \<lparr> ar_dest = show_net net, ar_via = None, ar_dev = tun_name \<rparr>) split_default_v4
         @ (if ipv6 then map (\<lambda>net. \<lparr> ar_dest = show_net net, ar_via = None, ar_dev = tun_name \<rparr>) split_default_v6 else []),
       rj_original_default = Some default' \<rparr>"

subsection \<open>Applying and removing routes\<close>

definition route_args :: "string \<Rightarrow> added_route \<Rightarrow> string list" where
  "route_args verb r =
     [''route'', verb, ar_dest r]
     @ (case ar_via r of None \<Rightarrow> [] | Some gw \<Rightarrow> [''via'', show_ip gw])
     @ [''dev'', ar_dev r]"

fun restore_loop :: "('w, 'a) sys_scheme \<Rightarrow> added_route list \<Rightarrow> 'w \<Rightarrow> 'w" where
  "restore_loop sys [] w = w"
| "restore_loop sys (r # rs) w = restore_loop sys rs (snd (run_ip sys (route_args ''del'' r) w))"

definition restore_added :: "('w, 'a) sys_scheme \<Rightarrow> added_route list \<Rightarrow> ('w, routing_error, unit) act" where
  "restore_added sys added w = (Inr (), restore_loop sys (rev added) w)"

fun apply_loop :: "('w, 'a) sys_scheme \<Rightarrow> added_route list \<Rightarrow> added_route list \<Rightarrow> ('w, routing_error, added_route list) act" where
  "apply_loop sys done [] w = (Inr done, w)"
| "apply_loop sys done (r # rs) w =
     (case run_ip_ignore_exists sys (route_args ''add'' r) w of
        (Inr True, w') \<Rightarrow> apply_loop sys (done @ [r]) rs w'
      | (Inr False, w') \<Rightarrow> apply_loop sys done rs w'
      | (Inl e, w') \<Rightarrow> (Inl e, snd (restore_added sys done w')))"

definition apply_journal :: "('w, 'a) sys_scheme \<Rightarrow> route_journal \<Rightarrow> ('w, routing_error, added_route list) act" where
  "apply_journal sys journal = apply_loop sys [] (rj_added journal)"

subsection \<open>Routes are added all or not at all\<close>

text \<open>
  What the code relies on of \<^verbatim>\<open>ip route\<close>, with \<open>rt\<close> the routes of a machine state, each one named by the
  words that \<^verbatim>\<open>ip\<close> is given for it: a successful \<^verbatim>\<open>add\<close> adds exactly this route, which was not there;
  a failed one adds nothing; \<^verbatim>\<open>del\<close> removes the route.
\<close>

definition route_key :: "added_route \<Rightarrow> string list" where
  "route_key r = ar_dest r # (case ar_via r of None \<Rightarrow> [] | Some gw \<Rightarrow> [''via'', show_ip gw]) @ [''dev'', ar_dev r]"

definition ip_routes_ok :: "('w, 'a) sys_scheme \<Rightarrow> ('w \<Rightarrow> string list set) \<Rightarrow> bool" where
  "ip_routes_ok sys rt \<longleftrightarrow>
     (\<forall>k w. case exec sys (ip_bin sys) (''route'' # ''add'' # k) [] w of (res, w') \<Rightarrow>
        if (case res of Inr out \<Rightarrow> out_success out | Inl e \<Rightarrow> False) then k \<notin> rt w \<and> rt w' = insert k (rt w)
        else rt w' = rt w)
   \<and> (\<forall>k w. rt (snd (exec sys (ip_bin sys) (''route'' # ''del'' # k) [] w)) = rt w - {k})"

lemma route_args_key: "route_args verb r = ''route'' # verb # route_key r"
  by (simp add: route_args_def route_key_def)

lemma run_ip_state: "snd (run_ip sys args w) = snd (exec sys (ip_bin sys) args [] w)"
  by (simp add: run_ip_def Let_def split: prod.splits sum.splits)

lemma restore_loop_routes:
  assumes "ip_routes_ok sys rt" shows "rt (restore_loop sys rs w) = rt w - route_key ` set rs"
  using assms by (induction rs arbitrary: w) (auto simp: run_ip_state route_args_key ip_routes_ok_def)

lemma run_ip_add:
  assumes "ip_routes_ok sys rt" and "run_ip_ignore_exists sys (route_args ''add'' r) w = (res, w')"
  shows "if res = Inr True then route_key r \<notin> rt w \<and> rt w' = insert (route_key r) (rt w) else rt w' = rt w"
proof -
  obtain e v where e: "exec sys (ip_bin sys) (''route'' # ''add'' # route_key r) [] w = (e, v)" by fastforce
  then have "if (case e of Inr out \<Rightarrow> out_success out | Inl e \<Rightarrow> False)
      then route_key r \<notin> rt w \<and> rt v = insert (route_key r) (rt w) else rt v = rt w"
    using assms(1) [unfolded ip_routes_ok_def, THEN conjunct1, rule_format, of "route_key r" w] by (simp only: e prod.case)
  then show ?thesis
    using assms(2) e by (cases e) (auto simp: run_ip_ignore_exists_def run_ip_def route_args_key Let_def split: if_splits)
qed

lemma apply_loop_routes:
  assumes "ip_routes_ok sys rt" and "apply_loop sys done rs w = (res, w')"
    and "rt w = base \<union> route_key ` set done" and "base \<inter> route_key ` set done = {}" and "distinct (map route_key done)"
  shows "case res of
      Inl e \<Rightarrow> rt w' = base
    | Inr added \<Rightarrow> rt w' = base \<union> route_key ` set added \<and> base \<inter> route_key ` set added = {}
        \<and> distinct (map route_key added) \<and> set added \<subseteq> set done \<union> set rs"
  using assms(2-5)
proof (induction rs arbitrary: "done" w)
  case (Cons r rs)
  obtain x v where x: "run_ip_ignore_exists sys (route_args ''add'' r) w = (x, v)" by fastforce
  note add = run_ip_add [OF assms(1) x]
  show ?case
  proof (cases x)
    case (Inl e)
    then have "rt v = base \<union> route_key ` set done" using add Cons.prems(2) by simp
    moreover have "base \<union> route_key ` set done - route_key ` set done = base" using Cons.prems(3) by blast
    ultimately have "rt (restore_loop sys (rev done) v) = base"
      using restore_loop_routes [OF assms(1), of "rev done" v] by simp
    then show ?thesis using Cons.prems(1) Inl x by (auto simp: restore_added_def)
  next
    case (Inr b)
    show ?thesis
    proof (cases b)
      case True
      then have "route_key r \<notin> rt w" "rt v = insert (route_key r) (rt w)" using add Inr by simp_all
      then have "case res of Inl e \<Rightarrow> rt w' = base
          | Inr added \<Rightarrow> rt w' = base \<union> route_key ` set added \<and> base \<inter> route_key ` set added = {}
              \<and> distinct (map route_key added) \<and> set added \<subseteq> set (done @ [r]) \<union> set rs"
        using Cons.prems Inr True x by (intro Cons.IH [of "done @ [r]" v]) auto
      then show ?thesis by (cases res) auto
    next
      case False
      then have "rt v = rt w" using add Inr by simp
      then have "case res of Inl e \<Rightarrow> rt w' = base
          | Inr added \<Rightarrow> rt w' = base \<union> route_key ` set added \<and> base \<inter> route_key ` set added = {}
              \<and> distinct (map route_key added) \<and> set added \<subseteq> set done \<union> set rs"
        using Cons.prems Inr False x by (intro Cons.IH [of "done" v]) auto
      then show ?thesis by (cases res) auto
    qed
  qed
qed auto


definition example_sys :: "string list set sys" where
  "example_sys =
     \<lparr> exec = (\<lambda>prog args stdin w.
         let key = drop 2 args; out = (\<lambda>b. \<lparr> out_success = b, out_stdout = [], out_stderr = [] \<rparr>) in
         if args ! 1 = ''add'' then (if key \<in> w then (Inr (out False), w) else (Inr (out True), insert key w))
         else (Inr (out True), w - {key})),
       path_exists = (\<lambda>_. False), open_tun = (\<lambda>_ w. (Inr 3, w)), fs_read = (\<lambda>_ _. None),
       fs_write = (\<lambda>_ _ w. (Inr (), w)), fs_rename = (\<lambda>_ _ w. (Inr (), w)), fs_remove = (\<lambda>_ w. (Inr (), w)) \<rparr>"


subsection \<open>What the default-route parser reads\<close>

lemma scan_words_skip: "word \<notin> {''via'', ''dev'', ''metric''} \<Longrightarrow> scan_words (word # rest) gw dev metric = scan_words rest gw dev metric"
  by (cases rest) auto

subsection \<open>Where a plan sends traffic\<close>

text \<open>
  The kernel picks, among the routes whose network holds the destination, one with the longest prefix. \<open>plan_nets\<close>
  is the plan with networks in place of their texts; \<open>build_plan_nets\<close> shows that \<^verbatim>\<open>build_plan\<close> prints it.
\<close>

fun in_net :: "ip_net \<Rightarrow> ip_addr \<Rightarrow> bool" where
  "in_net (IpV4 a, n) (IpV4 b) = (drop_bit (32 - n) a = drop_bit (32 - n) b)"
| "in_net (IpV6 a, n) (IpV6 b) = (drop_bit (128 - n) a = drop_bit (128 - n) b)"
| "in_net _ _ = False"

fun best_route :: "(ip_net \<times> 'd) list \<Rightarrow> ip_addr \<Rightarrow> (nat \<times> 'd) option" where
  "best_route [] d = None"
| "best_route ((net, dev) # rs) d =
     (if \<not> in_net net d then best_route rs d
      else case best_route rs d of
             Some (n, dev') \<Rightarrow> if snd net < n then Some (n, dev') else Some (snd net, dev)
           | None \<Rightarrow> Some (snd net, dev))"

definition host_net :: "ip_addr \<Rightarrow> ip_net" where
  "host_net ip = (ip, if is_ipv4 ip then 32 else 128)"

definition plan_bypass :: "bool \<Rightarrow> ip_net list \<Rightarrow> bool \<Rightarrow> ip_net list" where
  "plan_bypass bypass_private extra ipv6 =
     (if bypass_private then filter (\<lambda>n. is_ipv4 (fst n) \<or> ipv6) (private_cidrs @ extra) else [])"

definition plan_nets :: "string \<Rightarrow> string \<Rightarrow> ip_addr list \<Rightarrow> bool \<Rightarrow> ip_net list \<Rightarrow> bool \<Rightarrow> (ip_net \<times> string) list" where
  "plan_nets dev tun servers bypass_private extra ipv6 =
     map (\<lambda>ip. (host_net ip, dev)) servers
     @ map (\<lambda>n. (n, dev)) (plan_bypass bypass_private extra ipv6)
     @ map (\<lambda>n. (n, tun)) (split_default_v4 @ (if ipv6 then split_default_v6 else []))"

lemma bypass_route_nets:
  "map (\<lambda>r. (ar_dest r, ar_dev r)) (concat (map (bypass_route show_net d ipv6) nets))
     = map (\<lambda>n. (show_net n, dr_dev d)) (filter (\<lambda>n. is_ipv4 (fst n) \<or> ipv6) nets)"
  by (induction nets) (auto simp: bypass_route_def)

lemma build_plan_nets:
  "map (\<lambda>r. (ar_dest r, ar_dev r)) (rj_added (build_plan show_net d tun servers bypass_private extra ipv6))
     = map (\<lambda>ip. (show_ip ip, dr_dev d)) servers
       @ map (\<lambda>(n, dev). (show_net n, dev)) (drop (length servers) (plan_nets (dr_dev d) tun servers bypass_private extra ipv6))"
proof -
  define nets where "nets = private_cidrs @ extra"
  show ?thesis
    by (simp add: build_plan_def plan_nets_def plan_bypass_def bypass_route_nets comp_def flip: nets_def)
qed

lemma best_route_None: "best_route rs d = None \<longleftrightarrow> (\<forall>r\<in>set rs. \<not> in_net (fst r) d)"
  by (induction rs d rule: best_route.induct) (auto split: option.splits if_splits)

lemma best_route_Some:
  "best_route rs d = Some (n, dev) \<Longrightarrow>
     (\<exists>net. (net, dev) \<in> set rs \<and> in_net net d \<and> snd net = n) \<and> (\<forall>r\<in>set rs. in_net (fst r) d \<longrightarrow> snd (fst r) \<le> n)"
proof (induction rs d arbitrary: n dev rule: best_route.induct)
  case (2 net dv rs d)
  show ?case
  proof (cases "in_net net d")
    case False
    then show ?thesis using 2 by auto
  next
    case True
    show ?thesis
    proof (cases "best_route rs d")
      case None
      then show ?thesis using True 2(3) best_route_None [of rs d] by (cases net) auto
    next
      case (Some b)
      then obtain m dv' where b: "best_route rs d = Some (m, dv')" by (cases b) auto
      have "(\<exists>net. (net, dv') \<in> set rs \<and> in_net net d \<and> snd net = m) \<and> (\<forall>r\<in>set rs. in_net (fst r) d \<longrightarrow> snd (fst r) \<le> m)"
        using 2(2) [OF _ b] True by simp
      then show ?thesis using True b 2(3) by (cases net; cases "snd net < m") auto
    qed
  qed
qed simp

lemma unat_less_2: "unat (x :: u32) < 2 \<Longrightarrow> x = 0 \<or> x = 1"
  by (auto simp: word_unat_eq_iff less_2_cases_iff)

lemma split_default_covers: "\<exists>n\<in>set split_default_v4. in_net n (IpV4 a)"
proof -
  have "unat a < 2 * 2 ^ 31" using unsigned_less [where 'a = nat, of a] by (simp del: unsigned_less)
  then have "unat a div 2 ^ 31 < 2" by (rule less_mult_imp_div_less)
  then have "unat (drop_bit 31 a) < 2" unfolding unat_drop_bit_eq by (simp only: drop_bit_eq_div)
  then have "drop_bit 31 a = 0 \<or> drop_bit 31 a = 1" by (rule unat_less_2)
  moreover have "drop_bit 31 (ipv4 128 0 0 0) = 1" "drop_bit 31 (0 :: u32) = 0" by (simp_all add: ipv4_def)
  ultimately show ?thesis by (auto simp: split_default_v4_def)
qed

text \<open>
  With the routes of a plan in the kernel, an IPv4 packet to one of the tunnel's servers leaves by the original
  default device, so the tunnel never carries its own transport; so does a packet to a bypassed network, and only if
  bypassing private networks is on, which also switches the extra networks; every other IPv4 packet enters the tunnel.
\<close>

theorem plan_routes_traffic:
  assumes "list_all (\<lambda>n. 2 \<le> snd n) extra" and "dev = dr_dev d"
  shows "map (\<lambda>r. (ar_dest r, ar_dev r)) (rj_added (build_plan show_net d tun servers bypass_private extra ipv6))
      = map (\<lambda>ip. (show_ip ip, dev)) servers
        @ map (\<lambda>(n, v). (show_net n, v)) (drop (length servers) (plan_nets dev tun servers bypass_private extra ipv6))
    \<and> map_option snd (best_route (plan_nets dev tun servers bypass_private extra ipv6) (IpV4 a)) =
    Some (if IpV4 a \<in> set servers \<or> list_ex (\<lambda>n. in_net n (IpV4 a)) (plan_bypass bypass_private extra ipv6)
          then dev else tun)"
proof -
  let ?rs = "plan_nets dev tun servers bypass_private extra ipv6" and ?d = "IpV4 a"
  obtain s where s: "s \<in> set split_default_v4" "in_net s ?d" using split_default_covers by blast
  then have "(s, tun) \<in> set ?rs" by (auto simp: plan_nets_def)
  then obtain n dv where b: "best_route ?rs ?d = Some (n, dv)" using s(2) best_route_None [of ?rs ?d] by fastforce
  note best = best_route_Some [OF b]
  have long: "2 \<le> snd x" if "x \<in> set (plan_bypass bypass_private extra ipv6)" for x
    using that assms by (auto simp: plan_bypass_def private_cidrs_def list_all_iff split: if_splits)
  have short: "snd x = 1" if "x \<in> set (split_default_v4 @ split_default_v6)" for x
    using that by (auto simp: split_default_v4_def split_default_v6_def)
  have "map_option snd (best_route ?rs ?d) = Some (if ?d \<in> set servers
      \<or> list_ex (\<lambda>n. in_net n ?d) (plan_bypass bypass_private extra ipv6) then dev else tun)"
  proof (cases "?d \<in> set servers \<or> list_ex (\<lambda>n. in_net n ?d) (plan_bypass bypass_private extra ipv6)")
    case True
    then have "\<exists>x. (x, dev) \<in> set ?rs \<and> in_net x ?d \<and> 2 \<le> snd x"
    proof
      assume "?d \<in> set servers"
      then have "(host_net ?d, dev) \<in> set ?rs" by (simp add: plan_nets_def)
      then show ?thesis by (intro exI [of _ "host_net ?d"]) (simp add: host_net_def)
    next
      assume "list_ex (\<lambda>n. in_net n ?d) (plan_bypass bypass_private extra ipv6)"
      then obtain x where x: "x \<in> set (plan_bypass bypass_private extra ipv6)" "in_net x ?d" unfolding list_ex_iff by blast
      then have "(x, dev) \<in> set ?rs" by (simp add: plan_nets_def)
      then show ?thesis using x long by blast
    qed
    then have "2 \<le> n" using best by fastforce
    moreover obtain net where net: "(net, dv) \<in> set ?rs" "snd net = n" using best by blast
    ultimately have "snd net \<noteq> 1" by simp
    then have "net \<notin> set (split_default_v4 @ split_default_v6)" using short [of net] by blast
    then have "dv = dev" using net(1) unfolding plan_nets_def by (cases ipv6) auto
    then show ?thesis using b True by simp
  next
    case False
    obtain net where "(net, dv) \<in> set ?rs" "in_net net ?d" using best by blast
    moreover have "in_net (host_net ip) ?d \<Longrightarrow> ip = ?d" for ip by (cases ip) (simp_all add: host_net_def)
    ultimately have "dv = tun" using False unfolding plan_nets_def list_ex_iff
      by (cases ipv6) (auto simp del: in_net.simps)
    then show ?thesis using b False by simp
  qed
  then show ?thesis using build_plan_nets [of show_net d tun servers bypass_private extra ipv6] assms(2) by simp
qed

theorem plan_routes_traffic_witness:
  "map_option snd (best_route (plan_nets ''eth0'' ''easy0'' [IpV4 7] True [] False) (IpV4 7)) = Some ''eth0''"
  using plan_routes_traffic [where extra = "[]" and servers = "[IpV4 7]" and a = 7 and dev = "''eth0''"
      and d = "\<lparr> dr_gateway = None, dr_dev = ''eth0'', dr_metric = None \<rparr>"] by simp

end
