(* ===== verification/Tun_Ipc.thy ===== *)
theory Tun_Ipc
  imports Routing Byte_Stream
begin

text \<open>
  \<^verbatim>\<open>crates/tun\<close>: the constants shared with the helper, the requests and responses, the framing of the
  Unix socket with a passed descriptor, the client, and the start of the helper. A socket is what the kernel does on
  each call: the chunks \<^verbatim>\<open>recvmsg\<close> returns and how much \<^verbatim>\<open>sendmsg\<close> takes; JSON is another crate.
\<close>

subsection \<open>Constants, requests and responses\<close>

definition TUN_NAME :: string where "TUN_NAME = ''easy0''"
definition NFT_TABLE :: string where "NFT_TABLE = ''easy''"
definition DEFAULT_SOCKET :: string where "DEFAULT_SOCKET = ''/run/easy/helper.sock''"
definition SESSION_JOURNAL :: string where "SESSION_JOURNAL = ''/run/easy/session.json''"
definition TUN_ADDR :: u32 where "TUN_ADDR = ipv4 10 255 255 2"
definition TUN_PREFIX :: u8 where "TUN_PREFIX = 24"
definition TUN_ADDR_V6 :: u128 where
  "TUN_ADDR_V6 = ((0xfd72 * 2 ^ 16 + 0x6f63) * 2 ^ 16 + 0x6b65) * 2 ^ 80 + 2"
definition TUN_PREFIX_V6 :: u8 where "TUN_PREFIX_V6 = 64"
definition DEFAULT_MTU :: u16 where "DEFAULT_MTU = 1280"
definition TRANSPROXY_PORT :: u16 where "TRANSPROXY_PORT = 13450"
definition DNS_PROXY_PORT :: u16 where "DNS_PROXY_PORT = 13453"
definition UDP_PROXY_PORT :: u16 where "UDP_PROXY_PORT = 13451"
definition IPC_VERSION :: u32 where "IPC_VERSION = 1"

record apply_spec =
  sp_session_id :: u128
  sp_tun_name :: string
  sp_tun_addr :: u32
  sp_tun_prefix :: u8
  sp_mtu :: u16
  sp_server_ips :: "ip_addr list"
  sp_bypass_private :: bool
  sp_extra_bypass :: "ip_net list"
  sp_ipv6 :: bool
  sp_kill_switch :: bool
  sp_transproxy_port :: u16
  sp_dns_port :: u16
  sp_dns_mode :: string
  sp_dns_servers :: "string list"
  sp_udp_port :: u16

datatype helper_request = Ping u32 | Cleanup | Apply apply_spec | Teardown | EmergencyRestore
datatype helper_response = Pong u32 u32 | ROk string "string option" | RError string

definition spec_validate :: "apply_spec \<Rightarrow> string + unit" where
  "spec_validate s = first_error
     [reject (sp_tun_name s \<noteq> TUN_NAME)
        (''refusing TUN name `'' @ sp_tun_name s @ ''` (only '' @ TUN_NAME @ '' is allowed)''),
      reject (\<not> (576 \<le> sp_mtu s \<and> sp_mtu s \<le> 9000)) ''MTU must be between 576 and 9000'',
      reject (32 < sp_tun_prefix s) ''invalid TUN prefix'',
      reject (sp_server_ips s = []) ''server_ips must contain the resolved SSH endpoint'',
      reject (sp_transproxy_port s = 0 \<or> sp_dns_port s = 0) ''intercept ports must be non-zero'']"

datatype tun_error =
    TIo string io_kind
  | InvalidName string
  | Ipc string
  | HelperUnavailable string
  | HelperRejected string
  | TOther string

fun is_disconnect :: "tun_error \<Rightarrow> bool" where
  "is_disconnect (TIo context source) =
     (source \<in> {UnexpectedEof, ConnectionReset, BrokenPipe, ConnectionAborted, NotConnected})"
| "is_disconnect _ = False"

subsection \<open>Frames\<close>

definition MAX_FRAME :: nat where "MAX_FRAME = 1024 * 1024"

definition retryable :: "io_kind \<Rightarrow> bool" where
  "retryable k \<longleftrightarrow> k = WouldBlock \<or> k = Interrupted"

type_synonym msg = "bytes \<times> nat option"

text \<open>
  \<open>send_loop\<close> is the loop of \<^verbatim>\<open>send_frame\<close> over the results of \<^verbatim>\<open>sendmsg\<close>, given as a list: an error or how many
  bytes the kernel took (it never takes more than it was given). It returns what went out, each part with the descriptor it
  carried; when the list is exhausted the call is still waiting, and there is no result yet. A write of zero bytes is the
  kind \<open>OtherIo\<close> here.
\<close>

fun send_loop :: "string \<Rightarrow> bytes \<Rightarrow> nat option \<Rightarrow> (io_kind + nat) list \<Rightarrow> (tun_error + unit) option \<times> msg list" where
  "send_loop op [] fd rs = (Some (Inr ()), [])"
| "send_loop op (b # bs) fd [] = (None, [])"
| "send_loop op (b # bs) fd (Inl e # rs) =
     (if retryable e then send_loop op (b # bs) fd rs else (Some (Inl (TIo op e)), []))"
| "send_loop op (b # bs) fd (Inr n # rs) =
     (if n = 0 then (Some (Inl (TIo op OtherIo)), [])
      else let (r, out) = send_loop op (drop n (b # bs)) None rs in (r, (take n (b # bs), fd) # out))"

definition send_frame :: "string \<Rightarrow> bytes \<Rightarrow> nat option \<Rightarrow> (io_kind + nat) list \<Rightarrow> (tun_error + unit) option \<times> msg list" where
  "send_frame op payload pass_fd results =
     (if MAX_FRAME < length payload then (Some (Inl (Ipc (op @ '': IPC frame too large''))), [])
      else send_loop op (to_be 4 (length payload) @ payload) pass_fd results)"

text \<open>
  The receiving side of a socket: what the coming calls of \<^verbatim>\<open>recvmsg\<close> return. After the last one the peer has closed
  the socket, and \<^verbatim>\<open>recvmsg\<close> returns no bytes.
\<close>

type_synonym rsock = "(io_kind + msg) list"

fun recv_chunk :: "string \<Rightarrow> rsock \<Rightarrow> (tun_error + msg) \<times> rsock" where
  "recv_chunk op [] = (Inr ([], None), [])"
| "recv_chunk op (Inr m # s) = (Inr m, s)"
| "recv_chunk op (Inl e # s) = (if retryable e then recv_chunk op s else (Inl (TIo op e), s))"

lemma recv_chunk_length: "recv_chunk op s = (Inr (c, fd), s') \<Longrightarrow> c \<noteq> [] \<Longrightarrow> length s' < length s"
  by (induction op s rule: recv_chunk.induct) (auto split: if_splits)

text \<open>One of the two loops of \<^verbatim>\<open>recv_frame\<close>: read chunks until the buffer has \<open>n\<close> bytes.\<close>

function fill :: "string \<Rightarrow> nat \<Rightarrow> bytes \<Rightarrow> nat option \<Rightarrow> rsock \<Rightarrow> (tun_error + msg) \<times> rsock" where
  "fill op n buf fd s =
     (if n \<le> length buf then (Inr (buf, fd), s)
      else case recv_chunk op s of
             (Inl e, s') \<Rightarrow> (Inl e, s')
           | (Inr (chunk, cfd), s') \<Rightarrow>
               if chunk = [] then (Inl (TIo op UnexpectedEof), s')
               else fill op n (buf @ chunk) (case fd of None \<Rightarrow> cfd | Some f \<Rightarrow> Some f) s')"
  by auto
termination by (relation "measure (\<lambda>(op, n, buf, fd, s). length s)") (auto dest: recv_chunk_length [OF sym])

declare fill.simps [simp del]

definition recv_frame :: "string \<Rightarrow> rsock \<Rightarrow> (tun_error + msg) \<times> rsock" where
  "recv_frame op s =
     (case fill op 4 [] None s of
        (Inl e, s1) \<Rightarrow> (Inl e, s1)
      | (Inr (buf, fd), s1) \<Rightarrow>
          (let len = of_be (take 4 buf) in
           if MAX_FRAME < len
           then (Inl (Ipc (op @ '': IPC frame length '' @ show_nat len @ '' exceeds '' @ show_nat MAX_FRAME)), s1)
           else case fill op (4 + len) buf fd s1 of
                  (Inl e, s2) \<Rightarrow> (Inl e, s2)
                | (Inr (buf2, fd2), s2) \<Rightarrow> (Inr (take len (drop 4 buf2), fd2), s2)))"

subsection \<open>The client\<close>

record ipc_json =
  req_to_json :: "helper_request \<Rightarrow> bytes"
  req_of_json :: "bytes \<Rightarrow> string + helper_request"
  resp_to_json :: "helper_response \<Rightarrow> bytes"
  resp_of_json :: "bytes \<Rightarrow> string + helper_response"
  resp_debug :: "helper_response \<Rightarrow> string"

fun request_ops :: "helper_request \<Rightarrow> string \<times> string" where
  "request_ops (Ping v) = (''helper send Ping'', ''helper recv Pong'')"
| "request_ops Cleanup = (''helper send Cleanup'', ''helper recv Cleanup result'')"
| "request_ops (Apply s) = (''helper send Apply'', ''helper recv Apply result'')"
| "request_ops Teardown = (''helper send Teardown'', ''helper recv Teardown result'')"
| "request_ops EmergencyRestore = (''helper send EmergencyRestore'', ''helper recv EmergencyRestore result'')"

text \<open>
  \<^verbatim>\<open>roundtrip\<close> over a peer: \<open>peer\<close> gives, for what was sent, what the helper's side of the socket returns.
\<close>

definition roundtrip :: "ipc_json \<Rightarrow> (io_kind + nat) list \<Rightarrow> (msg list \<Rightarrow> rsock) \<Rightarrow> helper_request \<Rightarrow> bool
    \<Rightarrow> (tun_error + helper_response \<times> nat option) option" where
  "roundtrip js results peer req expect_fd =
     (case send_frame (fst (request_ops req)) (req_to_json js req) None results of
        (None, out) \<Rightarrow> None
      | (Some (Inl e), out) \<Rightarrow> Some (Inl e)
      | (Some (Inr _), out) \<Rightarrow>
          (case fst (recv_frame (snd (request_ops req)) (peer out)) of
             Inl e \<Rightarrow> Some (Inl e)
           | Inr (payload, fd) \<Rightarrow>
               Some (case resp_of_json js payload of
                 Inl e \<Rightarrow> Inl (Ipc e)
               | Inr resp \<Rightarrow>
                   (case resp of
                      RError message \<Rightarrow> Inl (HelperRejected message)
                    | _ \<Rightarrow>
                        if expect_fd \<and> fd = None
                        then Inl (Ipc ''helper Apply succeeded but no TUN file descriptor was passed'')
                        else Inr (resp, fd)))))"

definition ping_result :: "ipc_json \<Rightarrow> helper_response \<times> nat option \<Rightarrow> tun_error + helper_response" where
  "ping_result js r =
     (case fst r of
        Pong version uid \<Rightarrow>
          if version = IPC_VERSION then Inr (Pong version uid)
          else Inl (Ipc (''helper IPC version mismatch: client '' @ show_nat (unat IPC_VERSION) @ '', helper '' @ show_nat (unat version)))
      | other \<Rightarrow> Inl (Ipc (''helper returned an unexpected Ping response: '' @ resp_debug js other)))"

definition client_ping where
  "client_ping js results peer =
     map_option (\<lambda>r. and_then r (ping_result js)) (roundtrip js results peer (Ping IPC_VERSION) False)"

definition message_of :: "ipc_json \<Rightarrow> helper_response \<Rightarrow> string" where
  "message_of js resp = (case resp of ROk message _ \<Rightarrow> message | other \<Rightarrow> resp_debug js other)"

definition client_message where
  "client_message js results peer req =
     map_option (\<lambda>r. and_then r (\<lambda>(resp, _). Inr (message_of js resp))) (roundtrip js results peer req False)"

definition client_apply where
  "client_apply js results peer spec =
     (case spec_validate spec of
        Inl e \<Rightarrow> Some (Inl (Ipc e))
      | Inr _ \<Rightarrow>
          map_option (\<lambda>r. and_then r (\<lambda>(resp, fd). Inr (message_of js resp, the fd))) (roundtrip js results peer (Apply spec) True))"

subsection \<open>A frame arrives whole\<close>

lemma send_loop_out:
  "send_loop op bs fd rs = (Some (Inr ()), out) \<Longrightarrow>
     concat (map fst out) = bs \<and> list_all (\<lambda>m. fst m \<noteq> []) out
   \<and> (case out of [] \<Rightarrow> True | m # ms \<Rightarrow> snd m = fd \<and> list_all (\<lambda>m. snd m = None) ms)"
proof (induction op bs fd rs arbitrary: out rule: send_loop.induct)
  case (4 op b bs fd n rs)
  then obtain out' where n: "n \<noteq> 0" and s: "send_loop op (drop n (b # bs)) None rs = (Some (Inr ()), out')"
    and out: "out = (take n (b # bs), fd) # out'"
    by (auto split: if_splits prod.splits)
  from "4.IH" [OF n s] have "concat (map fst out') = drop n (b # bs)" "list_all (\<lambda>m. fst m \<noteq> []) out'"
    "list_all (\<lambda>m. snd m = None) out'" by (auto split: list.splits)
  then show ?case using out n by (cases n) simp_all
qed (auto split: if_splits)

text \<open>A socket whose remaining chunks carry the bytes \<open>bs\<close>, with the descriptor on the first chunk only.\<close>

fun messages :: "rsock \<Rightarrow> msg list option" where
  "messages [] = Some []"
| "messages (Inr m # s) = map_option ((#) m) (messages s)"
| "messages (Inl e # s) = (if retryable e then messages s else None)"

definition carries :: "rsock \<Rightarrow> bytes \<Rightarrow> nat option \<Rightarrow> bool" where
  "carries s bs fd \<longleftrightarrow>
     (case messages s of
        None \<Rightarrow> False
      | Some ms \<Rightarrow> list_all (\<lambda>m. fst m \<noteq> []) ms \<and> concat (map fst ms) = bs
          \<and> (case ms of [] \<Rightarrow> fd = None | m # rest \<Rightarrow> snd m = fd \<and> list_all (\<lambda>m. snd m = None) rest))"

lemma carries_chunk:
  assumes "carries s bs fd" and "bs \<noteq> []"
  shows "\<exists>c s'. recv_chunk op s = (Inr (c, fd), s') \<and> c \<noteq> [] \<and> prefix c bs \<and> carries s' (drop (length c) bs) None"
  using assms
proof (induction op s rule: recv_chunk.induct)
  case (2 op m s)
  then obtain rest where r: "messages s = Some rest" "list_all (\<lambda>m. fst m \<noteq> []) rest" "fst m @ concat (map fst rest) = bs"
    "snd m = fd" "list_all (\<lambda>m. snd m = None) rest" "fst m \<noteq> []"
    by (auto simp: carries_def split: option.splits)
  then have "carries s (drop (length (fst m)) bs) None"
    by (auto simp: carries_def split: list.splits)
  then show ?case using r by (intro exI [of _ "fst m"] exI [of _ s]) auto
next
  case (3 op e s)
  then have "retryable e" "carries s bs fd" by (auto simp: carries_def split: option.splits if_splits)
  then show ?case using 3 by simp
qed (simp add: carries_def)

lemma fill_carries:
  assumes "carries s bs fd2" and "n \<le> length buf + length bs" and "buf = [] \<or> fd2 = None"
  shows "\<exists>k s'. fill op n buf fd s = (Inr (buf @ take k bs, if k = 0 then fd else (case fd of None \<Rightarrow> fd2 | Some f \<Rightarrow> Some f)), s')
     \<and> n \<le> length buf + k \<and> k \<le> length bs \<and> carries s' (drop k bs) (if k = 0 then fd2 else None)"
  using assms
proof (induction op n buf fd s arbitrary: bs fd2 rule: fill.induct)
  case (1 op n buf fd s)
  show ?case
  proof (cases "n \<le> length buf")
    case True
    then show ?thesis using "1.prems" by (subst fill.simps) (auto intro!: exI [of _ 0])
  next
    case False
    then have "bs \<noteq> []" using "1.prems"(2) by auto
    then obtain c s1 where c: "recv_chunk op s = (Inr (c, fd2), s1)" "c \<noteq> []" "prefix c bs" "carries s1 (drop (length c) bs) None"
      using carries_chunk [OF "1.prems"(1)] by blast
    let ?fd = "case fd of None \<Rightarrow> fd2 | Some f \<Rightarrow> Some f"
    have len: "length c \<le> length bs" "take (length c) bs = c" using c(3) by (auto simp: prefix_def)
    have "n \<le> length (buf @ c) + length (drop (length c) bs)" using "1.prems"(2) len by simp
    then obtain k s2 where k: "fill op n (buf @ c) ?fd s1
        = (Inr ((buf @ c) @ take k (drop (length c) bs), if k = 0 then ?fd else (case ?fd of None \<Rightarrow> None | Some f \<Rightarrow> Some f)), s2)"
      "n \<le> length (buf @ c) + k" "k \<le> length (drop (length c) bs)" "carries s2 (drop k (drop (length c) bs)) None"
      using "1.IH" [OF False c(1) [symmetric] refl refl c(2) c(4) _ disjI2 [OF refl]] unfolding if_cancel by blast
    have "take (length c + k) bs = c @ take k (drop (length c) bs)" using len by (simp add: take_add)
    then show ?thesis
      using k c False len by (subst fill.simps) (auto intro!: exI [of _ "length c + k"] simp: add.commute split: option.splits)
  qed
qed

text \<open>
  C36. A frame crosses the helper's socket whole: however the kernel splits the write and however it splits and
  interrupts the read, the receiver gets exactly the payload and the passed descriptor, provided nothing else is on the
  stream. Bytes of a following frame in the same chunk would be lost, since the buffer is dropped with the call.
\<close>

theorem frame_roundtrip:
  assumes "send_frame op payload fd results = (Some (Inr ()), out)" and "carries s (concat (map fst out)) (snd (hd out))"
  shows "\<exists>s'. recv_frame op' s = (Inr (payload, fd), s')"
proof -
  let ?bs = "to_be 4 (length payload) @ payload"
  have le: "length payload \<le> MAX_FRAME" and "send_loop op ?bs fd results = (Some (Inr ()), out)"
    using assms(1) by (auto simp: send_frame_def split: if_splits)
  note sent = send_loop_out [OF this(2)]
  have "?bs \<noteq> []" by (simp add: length_0_conv [symmetric] del: length_0_conv)
  then have "out \<noteq> []" using sent by auto
  then have "snd (hd out) = fd" using sent by (auto split: list.splits)
  then have c: "carries s ?bs fd" using assms(2) sent by simp
  define bs where "bs = ?bs"
  have len: "length bs = 4 + length payload" by (simp add: bs_def)
  have c: "carries s bs fd" using c by (simp add: bs_def)
  obtain k s1 where k: "fill op' 4 [] None s = (Inr (take k bs, fd), s1)" "4 \<le> k" "k \<le> length bs" "carries s1 (drop k bs) None"
    using fill_carries [OF c, of 4 "[]" op' None] len by (auto split: if_splits)
  have same: "(case fd of None \<Rightarrow> None | Some f \<Rightarrow> Some f) = fd" by (cases fd) simp_all
  obtain j s2 where j: "fill op' (4 + length payload) (take k bs) fd s1 = (Inr (take k bs @ take j (drop k bs), fd), s2)"
    "4 + length payload \<le> length (take k bs) + j"
    using fill_carries [OF k(4), of "4 + length payload" "take k bs" op' fd] k(3) len unfolding same if_cancel by auto
  have all: "take k bs @ take j (drop k bs) = bs" using j(2) k(3) len by simp
  have "take 4 (take k bs) = to_be 4 (length payload)" using k(2) by (simp add: min_def bs_def)
  moreover have "length payload < 256 ^ 4" using le by (simp add: MAX_FRAME_def)
  ultimately have "of_be (take 4 (take k bs)) = length payload" by simp
  then show ?thesis using k(1) j(1) all le by (simp add: recv_frame_def Let_def) (simp add: bs_def)
qed

theorem frame_roundtrip_witness:
  "\<exists>s'. recv_frame ''r'' [Inr ([0, 0], Some 9), Inl Interrupted, Inr ([0, 1, 7], None)] = (Inr ([7], Some 9), s')"
proof -
  have "of_be [0, 0, 0, 1] = 1" by (simp add: of_be_def)
  then have "to_be 4 1 = [0, 0, 0, 1]" using to_be_of_be [of "[0, 0, 0, 1]" 4] by simp
  then have "send_frame ''s'' [7] (Some 9) [Inr 3, Inl WouldBlock, Inr 2] = (Some (Inr ()), [([0, 0, 0], Some 9), ([1, 7], None)])"
    by (simp add: send_frame_def MAX_FRAME_def retryable_def)
  then show ?thesis
    by (rule frame_roundtrip) (simp add: carries_def retryable_def)
qed

text \<open>
  Sending a frame ends: if the kernel takes at least one byte often enough and otherwise only asks to retry,
  \<^verbatim>\<open>send_frame\<close> returns success for every payload within the limit; it cannot wait forever on a socket that makes progress.
\<close>

theorem send_frame_completes:
  assumes "length payload \<le> MAX_FRAME" and "list_all (\<lambda>r. case r of Inr n \<Rightarrow> 0 < n | Inl e \<Rightarrow> retryable e) results"
    and "4 + length payload \<le> length (filter (\<lambda>r. case r of Inr n \<Rightarrow> True | Inl e \<Rightarrow> False) results)"
  shows "fst (send_frame op payload fd results) = Some (Inr ())"
proof -
  have "fst (send_loop op bs fd rs) = Some (Inr ())"
    if "list_all (\<lambda>r. case r of Inr n \<Rightarrow> 0 < n | Inl e \<Rightarrow> retryable e) rs"
      and "length bs \<le> length (filter (\<lambda>r. case r of Inr n \<Rightarrow> True | Inl e \<Rightarrow> False) rs)" for op bs fd rs
    using that
  proof (induction op bs fd rs rule: send_loop.induct)
    case (4 op b bs fd n rs)
    then show ?case by (cases n) (auto simp: Let_def split: prod.splits)
  qed auto
  then show ?thesis using assms by (simp add: send_frame_def)
qed

theorem send_frame_completes_witness:
  "fst (send_frame ''s'' [7] None [Inr 1, Inl WouldBlock, Inr 2, Inr 1, Inr 1, Inr 1]) = Some (Inr ())"
  by (rule send_frame_completes) (simp_all add: MAX_FRAME_def retryable_def)

subsection \<open>The device and the start of the helper\<close>

definition create_named_tun :: "('w, 'a) sys_scheme \<Rightarrow> string \<Rightarrow> ('w, tun_error, nat) act" where
  "create_named_tun sys name w =
     (if name \<noteq> TUN_NAME then (Inl (InvalidName name), w)
      else case open_tun sys name w of (Inl e, w') \<Rightarrow> (Inl (TOther e), w') | (Inr fd, w') \<Rightarrow> (Inr fd, w'))"

datatype elevate_error = Denied | PkexecMissing | HelperMissing string | Spawn string | SocketTimeout string | EOther string

text \<open>
  \<^verbatim>\<open>ensure_helper_running\<close>: \<open>reachable_at n\<close> is the result of the \<open>n\<close>-th probe of the socket, \<open>child_at i\<close> what
  \<^verbatim>\<open>try_wait\<close> reports in the \<open>i\<close>-th round: still running, or ended with an exit code (none when killed by a signal).
  The functions return the result and the number of probes made.
\<close>

record elevate_env =
  reachable_at :: "nat \<Rightarrow> bool"
  unit_installed :: bool
  pkexec_found :: bool
  helper_files :: "string list"
  spawn_pkexec :: "string + unit"
  child_at :: "nat \<Rightarrow> int option option"

definition HELPER_BIN :: string where "HELPER_BIN = ''/usr/lib/easy/easy-helper''"
definition HELPER_BIN_ALT :: string where "HELPER_BIN_ALT = ''/usr/local/lib/easy/easy-helper''"

definition helper_bin :: "elevate_env \<Rightarrow> string option" where
  "helper_bin env =
     (if HELPER_BIN \<in> set (helper_files env) then Some HELPER_BIN
      else if HELPER_BIN_ALT \<in> set (helper_files env) then Some HELPER_BIN_ALT else None)"

fun poll_reachable :: "elevate_env \<Rightarrow> nat \<Rightarrow> nat \<Rightarrow> bool \<times> nat" where
  "poll_reachable env 0 n = (False, n)"
| "poll_reachable env (Suc k) n = (if reachable_at env n then (True, Suc n) else poll_reachable env k (Suc n))"

fun poll_pkexec :: "elevate_env \<Rightarrow> nat \<Rightarrow> nat \<Rightarrow> nat \<Rightarrow> (elevate_error + unit) \<times> nat" where
  "poll_pkexec env 0 i n = (Inl (SocketTimeout DEFAULT_SOCKET), n)"
| "poll_pkexec env (Suc k) i n =
     (if reachable_at env n then (Inr (), Suc n)
      else case child_at env i of
             Some st \<Rightarrow>
               (let code = (case st of None \<Rightarrow> - 1 | Some c \<Rightarrow> c) in
                if code = 126 \<or> code = 127 then (Inl PkexecMissing, Suc n)
                else if st \<noteq> Some 0 then (Inl Denied, Suc n)
                else (Inl (SocketTimeout DEFAULT_SOCKET), Suc n))
           | None \<Rightarrow> poll_pkexec env k (Suc i) (Suc n))"

definition launch_pkexec :: "elevate_env \<Rightarrow> nat \<Rightarrow> (elevate_error + unit) \<times> nat" where
  "launch_pkexec env n =
     (if \<not> pkexec_found env then (Inl PkexecMissing, n)
      else case helper_bin env of
             None \<Rightarrow> (Inl (HelperMissing HELPER_BIN), n)
           | Some bin \<Rightarrow>
               (case spawn_pkexec env of
                  Inl e \<Rightarrow> (Inl (Spawn e), n)
                | Inr _ \<Rightarrow> poll_pkexec env 150 0 n))"

definition ensure_helper_running :: "elevate_env \<Rightarrow> (elevate_error + unit) \<times> nat" where
  "ensure_helper_running env =
     (if reachable_at env 0 then (Inr (), 1)
      else if unit_installed env
      then (case poll_reachable env 20 1 of (True, n) \<Rightarrow> (Inr (), n) | (False, n) \<Rightarrow> launch_pkexec env n)
      else launch_pkexec env 1)"

lemma poll_reachable_bound:
  "poll_reachable env k n = (b, m) \<Longrightarrow> m \<le> n + k \<and> n \<le> m \<and> (b \<longrightarrow> n < m \<and> reachable_at env (m - 1))"
  by (induction env k n rule: poll_reachable.induct) (fastforce split: if_splits)+

lemma poll_pkexec_bound:
  "poll_pkexec env k i n = (r, m) \<Longrightarrow> m \<le> n + k \<and> (r = Inr () \<longrightarrow> n < m \<and> reachable_at env (m - 1))"
  by (induction env k i n rule: poll_pkexec.induct) (fastforce simp: Let_def split: if_splits option.splits)+


end
