(* ===== verification/Nftables.thy ===== *)
theory Nftables
  imports Tun_Ipc
begin

text \<open>
  \<^verbatim>\<open>crates/nftables\<close>: the script of \<^verbatim>\<open>table inet easy\<close> and its installation and removal. The script is
  shown to be the text of a list of typed rules; their meaning (the first rule that matches decides, a redirected packet is
  delivered locally) then says what happens to each packet of the machine.
\<close>

datatype nft_error = NIo string | NOther string

definition nft_bin :: "('w, 'a) sys_scheme \<Rightarrow> string" where
  "nft_bin sys = first_existing sys [''/usr/sbin/nft'', ''/sbin/nft'', ''/usr/bin/nft''] ''nft''"

abbreviation quoted :: "string \<Rightarrow> string" where
  "quoted s \<equiv> [QUOTE] @ s @ [QUOTE]"

definition daddr_line :: "string \<Rightarrow> ip_addr \<Rightarrow> string" where
  "daddr_line verb ip =
     (case ip of
        IpV4 v \<Rightarrow> ''    ip daddr '' @ show_ipv4 v @ '' '' @ verb @ [LF]
      | IpV6 v \<Rightarrow> ''    ip6 daddr '' @ show_ipv6 v @ '' '' @ verb @ [LF])"

definition net_line :: "(ip_net \<Rightarrow> string) \<Rightarrow> string \<Rightarrow> ip_net \<Rightarrow> string" where
  "net_line show_net verb net =
     (case fst net of
        IpV4 _ \<Rightarrow> ''    ip daddr '' @ show_net net @ '' '' @ verb @ [LF]
      | IpV6 _ \<Rightarrow> ''    ip6 daddr '' @ show_net net @ '' '' @ verb @ [LF])"

definition nat_text :: "(ip_net \<Rightarrow> string) \<Rightarrow> ip_addr list \<Rightarrow> ip_net list \<Rightarrow> u16 \<Rightarrow> u16 \<Rightarrow> bool \<Rightarrow> u16 \<Rightarrow> string" where
  "nat_text show_net server_ips bypass transproxy_port dns_port ipv6 udp_port =
     ''    oifname '' @ quoted ''lo'' @ '' return'' @ [LF]
     @ ''    oifname '' @ quoted TUN_NAME @ '' return'' @ [LF]
     @ ''    ip daddr 127.0.0.0/8 return'' @ [LF]
     @ ''    ip6 daddr ::1 return'' @ [LF]
     @ concat (map (daddr_line ''return'') server_ips)
     @ concat (map (net_line show_net ''return'') bypass)
     @ (if ipv6
        then ''    meta l4proto udp udp dport 53 redirect to :'' @ show_nat (unat dns_port) @ [LF]
             @ ''    meta l4proto tcp redirect to :'' @ show_nat (unat transproxy_port) @ [LF]
             @ (if udp_port \<noteq> 0 then ''    meta l4proto udp redirect to :'' @ show_nat (unat udp_port) @ [LF] else [])
        else ''    ip protocol udp udp dport 53 redirect to :'' @ show_nat (unat dns_port) @ [LF]
             @ ''    ip protocol tcp redirect to :'' @ show_nat (unat transproxy_port) @ [LF]
             @ (if udp_port \<noteq> 0 then ''    ip protocol udp redirect to :'' @ show_nat (unat udp_port) @ [LF] else []))"

definition filter_text :: "(ip_net \<Rightarrow> string) \<Rightarrow> ip_addr list \<Rightarrow> ip_net list \<Rightarrow> bool \<Rightarrow> bool \<Rightarrow> u16 \<Rightarrow> string" where
  "filter_text show_net server_ips bypass kill_switch ipv6 udp_port =
     ''    ct state established,related accept'' @ [LF]
     @ ''    oifname '' @ quoted ''lo'' @ '' accept'' @ [LF]
     @ ''    oifname '' @ quoted TUN_NAME @ '' accept'' @ [LF]
     @ ''    ip daddr 127.0.0.0/8 accept'' @ [LF]
     @ ''    ip6 daddr ::1 accept'' @ [LF]
     @ concat (map (daddr_line ''accept'') server_ips)
     @ concat (map (net_line show_net ''accept'') bypass)
     @ (if \<not> ipv6 then ''    meta nfproto ipv6 reject with icmpx type admin-prohibited'' @ [LF] else [])
     @ (if udp_port = 0 then ''    meta l4proto udp reject with icmpx type admin-prohibited'' @ [LF] else [])
     @ (if kill_switch then ''    reject with icmpx type admin-prohibited'' @ [LF] else [])"

definition table_text :: "string \<Rightarrow> string \<Rightarrow> string" where
  "table_text nat' filter' =
     ''table inet '' @ NFT_TABLE @ '' {'' @ [LF]
     @ [LF] @ ''  chain output_nat {'' @ [LF] @ ''    type nat hook output priority -100; policy accept;'' @ [LF]
     @ nat' @ ''  }'' @ [LF]
     @ [LF] @ ''  chain output_filter {'' @ [LF] @ ''    type filter hook output priority 0; policy accept;'' @ [LF]
     @ filter' @ ''  }'' @ [LF]
     @ ''}'' @ [LF]"

definition render_table :: "(ip_net \<Rightarrow> string) \<Rightarrow> ip_addr list \<Rightarrow> ip_net list \<Rightarrow> bool \<Rightarrow> u16 \<Rightarrow> u16 \<Rightarrow> bool \<Rightarrow> u16 \<Rightarrow> string" where
  "render_table show_net server_ips bypass kill_switch transproxy_port dns_port ipv6 udp_port =
     table_text (nat_text show_net server_ips bypass transproxy_port dns_port ipv6 udp_port)
       (filter_text show_net server_ips bypass kill_switch ipv6 udp_port)"

subsection \<open>Installing and removing the table\<close>

definition flush_named :: "('w, 'a) sys_scheme \<Rightarrow> string \<Rightarrow> ('w, nft_error, unit) act" where
  "flush_named sys table w =
     (case exec sys (nft_bin sys) [''delete'', ''table'', ''inet'', table] [] w of
        (Inl e, w') \<Rightarrow> (Inl (NIo e), w')
      | (Inr out, w') \<Rightarrow> (Inr (), w'))"

definition flush_table :: "('w, 'a) sys_scheme \<Rightarrow> ('w, nft_error, unit) act" where
  "flush_table sys = flush_named sys NFT_TABLE"

definition apply_table :: "('w, 'a) sys_scheme \<Rightarrow> string \<Rightarrow> ('w, nft_error, unit) act" where
  "apply_table sys script =
     act_bind (flush_table sys) (\<lambda>_ w.
       case exec sys (nft_bin sys) [''-f'', ''-''] (as_bytes script) w of
         (Inl e, w') \<Rightarrow> (Inl (NIo e), w')
       | (Inr out, w') \<Rightarrow>
           if \<not> out_success out
           then (Inl (NOther (''nft apply failed: '' @ trim (from_utf8_lossy (out_stderr out)))), w')
           else (Inr (), w'))"

definition nft_restore :: "('w, 'a) sys_scheme \<Rightarrow> ('w, nft_error, unit) act" where
  "nft_restore sys = flush_table sys"

subsection \<open>The rules behind the text\<close>

datatype rmatch =
    MOif string | MLoop4 | MLoop6 | MHost ip_addr | MNet ip_net | MEstablished | MIPv6
  | MTcp | MUdp | MDns | MTcp4 | MUdp4 | MDns4 | MAll

datatype verdict = VReturn | VAccept | VRedirect u16 | VReject

fun show_match :: "(ip_net \<Rightarrow> string) \<Rightarrow> rmatch \<Rightarrow> string" where
  "show_match sn (MOif i) = ''oifname '' @ quoted i @ '' ''"
| "show_match sn MLoop4 = ''ip daddr 127.0.0.0/8 ''"
| "show_match sn MLoop6 = ''ip6 daddr ::1 ''"
| "show_match sn (MHost ip) = (case ip of IpV4 v \<Rightarrow> ''ip daddr '' @ show_ipv4 v | IpV6 v \<Rightarrow> ''ip6 daddr '' @ show_ipv6 v) @ '' ''"
| "show_match sn (MNet n) = (case fst n of IpV4 _ \<Rightarrow> ''ip daddr '' | IpV6 _ \<Rightarrow> ''ip6 daddr '') @ sn n @ '' ''"
| "show_match sn MEstablished = ''ct state established,related ''"
| "show_match sn MIPv6 = ''meta nfproto ipv6 ''"
| "show_match sn MTcp = ''meta l4proto tcp ''"
| "show_match sn MUdp = ''meta l4proto udp ''"
| "show_match sn MDns = ''meta l4proto udp udp dport 53 ''"
| "show_match sn MTcp4 = ''ip protocol tcp ''"
| "show_match sn MUdp4 = ''ip protocol udp ''"
| "show_match sn MDns4 = ''ip protocol udp udp dport 53 ''"
| "show_match sn MAll = []"

fun show_verdict :: "verdict \<Rightarrow> string" where
  "show_verdict VReturn = ''return''"
| "show_verdict VAccept = ''accept''"
| "show_verdict (VRedirect p) = ''redirect to :'' @ show_nat (unat p)"
| "show_verdict VReject = ''reject with icmpx type admin-prohibited''"

definition show_rule :: "(ip_net \<Rightarrow> string) \<Rightarrow> rmatch \<times> verdict \<Rightarrow> string" where
  "show_rule sn r = ''    '' @ show_match sn (fst r) @ show_verdict (snd r) @ [LF]"

definition exempt_matches :: "ip_addr list \<Rightarrow> ip_net list \<Rightarrow> rmatch list" where
  "exempt_matches server_ips bypass =
     [MOif ''lo'', MOif TUN_NAME, MLoop4, MLoop6] @ map MHost server_ips @ map MNet bypass"

definition nat_rules :: "ip_addr list \<Rightarrow> ip_net list \<Rightarrow> u16 \<Rightarrow> u16 \<Rightarrow> bool \<Rightarrow> u16 \<Rightarrow> (rmatch \<times> verdict) list" where
  "nat_rules server_ips bypass transproxy_port dns_port ipv6 udp_port =
     map (\<lambda>m. (m, VReturn)) (exempt_matches server_ips bypass)
     @ [(if ipv6 then MDns else MDns4, VRedirect dns_port), (if ipv6 then MTcp else MTcp4, VRedirect transproxy_port)]
     @ (if udp_port \<noteq> 0 then [(if ipv6 then MUdp else MUdp4, VRedirect udp_port)] else [])"

definition filter_rules :: "ip_addr list \<Rightarrow> ip_net list \<Rightarrow> bool \<Rightarrow> bool \<Rightarrow> u16 \<Rightarrow> (rmatch \<times> verdict) list" where
  "filter_rules server_ips bypass kill_switch ipv6 udp_port =
     (MEstablished, VAccept) # map (\<lambda>m. (m, VAccept)) (exempt_matches server_ips bypass)
     @ (if \<not> ipv6 then [(MIPv6, VReject)] else []) @ (if udp_port = 0 then [(MUdp, VReject)] else [])
     @ (if kill_switch then [(MAll, VReject)] else [])"

lemma show_rule_host: "show_rule sn (MHost ip, v) = daddr_line (show_verdict v) ip"
  by (cases ip) (simp_all add: show_rule_def daddr_line_def)

lemma show_rule_net: "show_rule sn (MNet n, v) = net_line sn (show_verdict v) n"
  by (cases "fst n") (simp_all add: show_rule_def net_line_def)

lemma render_table_rules:
  "render_table sn server_ips bypass kill_switch transproxy_port dns_port ipv6 udp_port =
     table_text
       (concat (map (show_rule sn) (nat_rules server_ips bypass transproxy_port dns_port ipv6 udp_port)))
       (concat (map (show_rule sn) (filter_rules server_ips bypass kill_switch ipv6 udp_port)))"
proof -
  have hosts: "concat (map (show_rule sn) (map (\<lambda>m. (m, v)) (map MHost ips))) = concat (map (daddr_line (show_verdict v)) ips)" for v ips
    by (simp add: comp_def show_rule_host)
  have nets: "concat (map (show_rule sn) (map (\<lambda>m. (m, v)) (map MNet ns))) = concat (map (net_line sn (show_verdict v)) ns)" for v ns
    by (simp add: comp_def show_rule_net)
  have "concat (map (show_rule sn) (nat_rules server_ips bypass transproxy_port dns_port ipv6 udp_port))
      = nat_text sn server_ips bypass transproxy_port dns_port ipv6 udp_port"
    unfolding nat_rules_def exempt_matches_def map_append concat_append hosts nets nat_text_def
    by (simp add: show_rule_def)
  moreover have "concat (map (show_rule sn) (filter_rules server_ips bypass kill_switch ipv6 udp_port))
      = filter_text sn server_ips bypass kill_switch ipv6 udp_port"
    unfolding filter_rules_def exempt_matches_def map_append concat_append list.map concat.simps hosts nets filter_text_def
    by (simp add: show_rule_def)
  ultimately show ?thesis by (simp add: render_table_def)
qed

subsection \<open>What happens to a packet\<close>

datatype l4 = L4Tcp | L4Udp | L4Other

record packet =
  pk_oif :: string
  pk_dst :: ip_addr
  pk_l4 :: l4
  pk_dport :: u16
  pk_established :: bool

fun rmatches :: "rmatch \<Rightarrow> packet \<Rightarrow> bool" where
  "rmatches (MOif i) p = (pk_oif p = i)"
| "rmatches MLoop4 p = in_net (IpV4 (ipv4 127 0 0 0), 8) (pk_dst p)"
| "rmatches MLoop6 p = (pk_dst p = IpV6 1)"
| "rmatches (MHost ip) p = (pk_dst p = ip)"
| "rmatches (MNet n) p = in_net n (pk_dst p)"
| "rmatches MEstablished p = pk_established p"
| "rmatches MIPv6 p = is_ipv6 (pk_dst p)"
| "rmatches MTcp p = (pk_l4 p = L4Tcp)"
| "rmatches MUdp p = (pk_l4 p = L4Udp)"
| "rmatches MDns p = (pk_l4 p = L4Udp \<and> pk_dport p = 53)"
| "rmatches MTcp4 p = (is_ipv4 (pk_dst p) \<and> pk_l4 p = L4Tcp)"
| "rmatches MUdp4 p = (is_ipv4 (pk_dst p) \<and> pk_l4 p = L4Udp)"
| "rmatches MDns4 p = (is_ipv4 (pk_dst p) \<and> pk_l4 p = L4Udp \<and> pk_dport p = 53)"
| "rmatches MAll p = True"

fun decide :: "(rmatch \<times> verdict) list \<Rightarrow> packet \<Rightarrow> verdict" where
  "decide [] p = VAccept"
| "decide ((m, v) # rs) p = (if rmatches m p then v else decide rs p)"

datatype fate = Intercepted u16 | Leaves | Blocked

text \<open>
  The first packet of a connection passes the nat chain; a redirected one goes to the local port through the loopback
  device and then passes the filter chain as such. Later packets only see the filter chain.
\<close>

definition redirected :: "u16 \<Rightarrow> packet \<Rightarrow> packet" where
  "redirected port p =
     p\<lparr> pk_oif := ''lo'', pk_dst := (if is_ipv4 (pk_dst p) then IpV4 (ipv4 127 0 0 1) else IpV6 1), pk_dport := port \<rparr>"

definition fate_of :: "(rmatch \<times> verdict) list \<Rightarrow> (rmatch \<times> verdict) list \<Rightarrow> packet \<Rightarrow> fate" where
  "fate_of nat' filter' p =
     (case (if pk_established p then VAccept else decide nat' p) of
        VRedirect port \<Rightarrow> (if decide filter' (redirected port p) = VReject then Blocked else Intercepted port)
      | VReject \<Rightarrow> Blocked
      | _ \<Rightarrow> (if decide filter' p = VReject then Blocked else Leaves))"

definition exempt :: "ip_addr list \<Rightarrow> ip_net list \<Rightarrow> packet \<Rightarrow> bool" where
  "exempt server_ips bypass p \<longleftrightarrow> list_ex (\<lambda>m. rmatches m p) (exempt_matches server_ips bypass)"

lemma decide_prefix: "decide (map (\<lambda>m. (m, v)) ms @ rs) p = (if list_ex (\<lambda>m. rmatches m p) ms then v else decide rs p)"
  by (induction ms) auto

lemma redirected_accepted: "decide (filter_rules server_ips bypass kill_switch ipv6 udp_port) (redirected port p) = VAccept"
  by (simp add: filter_rules_def exempt_matches_def redirected_def)

text \<open>
  The installed table does exactly this to a packet of a new connection: a packet to the loopback, the TUN device, a
  server of the tunnel or a bypassed network leaves as it is. Of the rest, with IPv6 off every IPv6 packet is blocked;
  otherwise DNS goes to the local resolver, TCP to the transparent proxy, other UDP to the UDP relay or, without one, is
  blocked; only other protocols leave, and not even they with the kill switch. The text that \<^verbatim>\<open>nft\<close> is given
  is the text of these rules.
\<close>

theorem nft_packet_policy:
  assumes "\<not> pk_established p"
    and "nat' = nat_rules server_ips bypass transproxy_port dns_port ipv6 udp_port"
    and "filter' = filter_rules server_ips bypass kill_switch ipv6 udp_port"
  shows "fate_of nat' filter' p =
      (if exempt server_ips bypass p then Leaves
       else if is_ipv6 (pk_dst p) \<and> \<not> ipv6 then Blocked
       else case pk_l4 p of
              L4Tcp \<Rightarrow> Intercepted transproxy_port
            | L4Udp \<Rightarrow> (if pk_dport p = 53 then Intercepted dns_port
                      else if udp_port \<noteq> 0 then Intercepted udp_port else Blocked)
            | L4Other \<Rightarrow> (if kill_switch then Blocked else Leaves))
    \<and> render_table sn server_ips bypass kill_switch transproxy_port dns_port ipv6 udp_port
        = table_text (concat (map (show_rule sn) nat')) (concat (map (show_rule sn) filter'))"
proof -
  have v: "is_ipv6 (pk_dst p) \<longleftrightarrow> \<not> is_ipv4 (pk_dst p)" by (cases "pk_dst p") simp_all
  have n: "decide nat' p = (if exempt server_ips bypass p then VReturn
      else decide ([(if ipv6 then MDns else MDns4, VRedirect dns_port), (if ipv6 then MTcp else MTcp4, VRedirect transproxy_port)]
     @ (if udp_port \<noteq> 0 then [(if ipv6 then MUdp else MUdp4, VRedirect udp_port)] else [])) p)"
    by (simp only: assms(2) nat_rules_def decide_prefix exempt_def)
  have f: "decide filter' p = (if exempt server_ips bypass p then VAccept
      else decide ((if \<not> ipv6 then [(MIPv6, VReject)] else []) @ (if udp_port = 0 then [(MUdp, VReject)] else [])
     @ (if kill_switch then [(MAll, VReject)] else [])) p)"
    using assms(1) by (simp only: assms(3) filter_rules_def decide.simps rmatches.simps if_False decide_prefix exempt_def)
  have r: "decide filter' (redirected port p) = VAccept" for port
    unfolding assms(3) by (rule redirected_accepted)
  show ?thesis
  proof (cases "exempt server_ips bypass p")
    case True
    then show ?thesis using assms(1) n f by (simp add: fate_of_def assms(2,3) render_table_rules)
  next
    case False
    then show ?thesis using assms(1) n f r v
      by (cases "pk_l4 p"; cases ipv6; cases "is_ipv4 (pk_dst p)"; cases "udp_port = 0"; cases "pk_dport p = 53") (simp_all add: fate_of_def assms(2,3) render_table_rules)
  qed
qed

theorem nft_packet_policy_witness:
  "fate_of (nat_rules [IpV4 7] [] 13450 13453 False 0) (filter_rules [IpV4 7] [] True False 0)
     \<lparr> pk_oif = ''eth0'', pk_dst = IpV4 9, pk_l4 = L4Tcp, pk_dport = 443, pk_established = False \<rparr> = Intercepted 13450"
proof -
  let ?p = "\<lparr> pk_oif = ''eth0'', pk_dst = IpV4 9, pk_l4 = L4Tcp, pk_dport = 443, pk_established = False \<rparr>"
  have "\<not> exempt [IpV4 7] [] ?p" by (simp add: exempt_def exempt_matches_def TUN_NAME_def ipv4_def)
  then show ?thesis
    using nft_packet_policy [OF _ refl refl, of ?p "[IpV4 7]" "[]" 13450 13453 False 0 True] by simp
qed

end
