(* ===== verification/Dns.thy ===== *)
theory Dns
  imports Byte_Stream
begin

text \<open>
  The DNS crate (\<^verbatim>\<open>crates/dns\<close>): the message cache, DNS over TCP, the query that warms the
  path up, and the policy that decides which servers are used. Time is in nanoseconds of a
  monotonic clock.
\<close>

subsection \<open>Policy\<close>

datatype dns_policy = System | Tunnel | Custom | Remote

definition parse_policy :: "string \<Rightarrow> dns_policy" where
  "parse_policy mode =
     (if mode = ''custom'' then Custom
      else if mode = ''remote'' then Remote
      else if mode = ''system'' then System
      else Tunnel)"

fun policy_as_str :: "dns_policy \<Rightarrow> string" where
  "policy_as_str System = ''system''"
| "policy_as_str Tunnel = ''tunnel''"
| "policy_as_str Custom = ''custom''"
| "policy_as_str Remote = ''remote''"

definition effective_policy :: "bool \<Rightarrow> dns_policy \<Rightarrow> dns_policy" where
  "effective_policy routing_is_tunnel configured =
     (if routing_is_tunnel \<and> configured = System then Tunnel else configured)"

definition default_dns_servers :: "string list" where
  "default_dns_servers = [''1.1.1.1'', ''8.8.8.8'']"

definition resolve_servers :: "dns_policy \<Rightarrow> string list \<Rightarrow> string list" where
  "resolve_servers policy configured =
     (if policy = System then []
      else if policy = Custom \<and> configured \<noteq> [] then configured
      else if configured \<noteq> [] then configured
      else default_dns_servers)"

definition should_configure_resolved :: "dns_policy \<Rightarrow> bool" where
  "should_configure_resolved policy \<longleftrightarrow> policy \<noteq> System"

lemma parse_policy_as_str [simp]: "parse_policy (policy_as_str p) = p"
  by (cases p) (simp_all add: parse_policy_def)

text \<open>
  With a tunnelled routing mode no configured DNS mode leaks to the LAN resolver:
  whatever string is configured, the effective policy takes over the resolver, and the
  servers it uses are the configured ones, or the two public defaults when there are none,
  and never an empty list. Only proxy-only routing with \<^verbatim>\<open>system\<close> leaves the resolver alone.
\<close>

theorem dns_policy_no_leak:
  "resolve_servers (effective_policy True (parse_policy mode)) cfg = (if cfg = [] then default_dns_servers else cfg)
   \<and> resolve_servers (effective_policy True (parse_policy mode)) cfg \<noteq> []
   \<and> (\<not> should_configure_resolved (effective_policy tun (parse_policy mode))) = (\<not> tun \<and> mode = ''system'')"
  by (auto simp: effective_policy_def resolve_servers_def default_dns_servers_def
      should_configure_resolved_def parse_policy_def)

subsection \<open>The message cache\<close>

definition DEFAULT_TTL :: nat where "DEFAULT_TTL = 45 * 1000000000"
definition MAX_ENTRIES :: nat where "MAX_ENTRIES = 512"

type_synonym cache_map = "(bytes, nat \<times> bytes) table"

definition cache_new :: cache_map where
  "cache_new = []"

definition cache_get :: "nat \<Rightarrow> bytes \<Rightarrow> cache_map \<Rightarrow> bytes option \<times> cache_map" where
  "cache_get now query c =
     (if length query < 12 then (None, c)
      else
        let key = drop 2 query in
        case tget key c of
          None \<Rightarrow> (None, c)
        | Some (at, body) \<Rightarrow>
            if DEFAULT_TTL < now - at then (None, tdel key c)
            else (Some (if 2 \<le> length body then body[0 := query ! 0, 1 := query ! 1] else body), c))"

definition cache_put :: "nat \<Rightarrow> bytes \<Rightarrow> bytes \<Rightarrow> cache_map \<Rightarrow> cache_map" where
  "cache_put now query response c =
     (if length query < 12 \<or> length response < 12 then c
      else
        let c' = (if MAX_ENTRIES \<le> length c then [] else c) in
        tput (drop 2 query) (now, response) c')"

text \<open>
  The abstract view of the cache: the history of accepted puts, newest first. An entry of the
  cache is always the newest put for its key, and the table never grows past its bound.
\<close>

datatype cache_op = CGet nat bytes | CPut nat bytes bytes

fun cache_exec :: "cache_op \<Rightarrow> cache_map \<Rightarrow> cache_map" where
  "cache_exec (CGet now q) c = snd (cache_get now q c)"
| "cache_exec (CPut now q r) c = cache_put now q r c"

fun last_put :: "bytes \<Rightarrow> cache_op list \<Rightarrow> (nat \<times> bytes) option" where
  "last_put k [] = None"
| "last_put k (CGet now q # ops) = last_put k ops"
| "last_put k (CPut now q r # ops) =
     (if 12 \<le> length q \<and> 12 \<le> length r \<and> drop 2 q = k then Some (now, r) else last_put k ops)"

fun cache_run :: "cache_op list \<Rightarrow> cache_map" where
  "cache_run [] = cache_new"
| "cache_run (op # ops) = cache_exec op (cache_run ops)"

definition cache_inv :: "cache_op list \<Rightarrow> cache_map \<Rightarrow> bool" where
  "cache_inv ops c \<longleftrightarrow>
     twf c \<and> length c \<le> MAX_ENTRIES \<and> (\<forall>k e. tget k c = Some e \<longrightarrow> last_put k ops = Some e \<and> 12 \<le> length (snd e))"

lemma tget_Nil [simp]: "tget k [] = None"
  by (rule tbl.lookup_empty)

lemma cache_inv_get:
  assumes "cache_inv ops c" shows "cache_inv (CGet now q # ops) (snd (cache_get now q c))"
proof -
  have wf: "twf c" and len: "length c \<le> MAX_ENTRIES" using assms by (simp_all add: cache_inv_def)
  have "length (tdel k c) \<le> MAX_ENTRIES" for k using length_tdel [of k c] len by simp
  then show ?thesis
    using assms wf by (auto simp: cache_inv_def cache_get_def Let_def tbl.lookup_remove tbl.wf_remove
        split: option.splits if_splits)
qed

lemma cache_inv_put:
  assumes "cache_inv ops c" shows "cache_inv (CPut now q r # ops) (cache_put now q r c)"
proof (cases "length q < 12 \<or> length r < 12")
  case True
  then show ?thesis using assms by (auto simp: cache_inv_def cache_put_def)
next
  case False
  define c' where "c' = (if MAX_ENTRIES \<le> length c then [] else c)"
  have c': "twf c'" "length c' < MAX_ENTRIES"
    "\<And>k e. tget k c' = Some e \<Longrightarrow> last_put k ops = Some e \<and> 12 \<le> length (snd e)"
    using assms by (auto simp: cache_inv_def c'_def tbl.wf_empty MAX_ENTRIES_def split: if_splits)
  have "cache_put now q r c = tput (drop 2 q) (now, r) c'"
    using False by (simp add: cache_put_def c'_def)
  moreover have "length (tput (drop 2 q) (now, r) c') \<le> MAX_ENTRIES"
    using c' by (simp add: length_tput)
  ultimately show ?thesis
    using c' False by (auto simp: cache_inv_def tbl.wf_insert tbl.lookup_insert)
qed

lemma cache_inv_run: "cache_inv ops (cache_run ops)"
proof (induction ops)
  case Nil
  then show ?case using tbl.wf_empty by (simp add: cache_inv_def cache_new_def)
next
  case (Cons op ops)
  then show ?case by (cases op) (simp_all add: cache_inv_get cache_inv_put del: last_put.simps)
qed

lemma two_update:
  assumes "2 \<le> length r" and "2 \<le> length q"
  shows "r[0 := q ! 0, Suc 0 := q ! Suc 0] = take 2 q @ drop 2 r"
proof -
  obtain a b r' c d q' where "r = a # b # r'" "q = c # d # q'"
    using assms by (metis Suc_le_length_iff numeral_2_eq_2)
  then show ?thesis by simp
qed

text \<open>
  C37. In every history of lookups and insertions the cache holds at most 512 messages, and
  a hit is exactly the most recent response stored for the same question (everything after
  the transaction id), not older than 45 seconds, with the transaction id of the asking
  query.
\<close>

theorem dns_cache_sound:
  assumes "fst (cache_get now q (cache_run ops)) = Some out"
  shows "length (cache_run ops) \<le> MAX_ENTRIES
    \<and> (\<exists>at r. last_put (drop 2 q) ops = Some (at, r) \<and> now - at \<le> DEFAULT_TTL \<and> out = take 2 q @ drop 2 r)"
proof -
  have inv: "cache_inv ops (cache_run ops)" by (rule cache_inv_run)
  from assms obtain at r where e: "tget (drop 2 q) (cache_run ops) = Some (at, r)" "12 \<le> length q"
    "now - at \<le> DEFAULT_TTL" "out = (if 2 \<le> length r then r[0 := q ! 0, 1 := q ! 1] else r)"
    by (auto simp: cache_get_def Let_def split: option.splits if_splits)
  then have "last_put (drop 2 q) ops = Some (at, r)" "12 \<le> length r"
    using inv by (auto simp: cache_inv_def)
  then show ?thesis using e inv by (auto simp: cache_inv_def two_update)
qed

definition example_query :: bytes where "example_query = [1, 2, 1, 0, 0, 1, 0, 0, 0, 0, 0, 0, 1, 97, 0]"
definition example_query' :: bytes where "example_query' = [9, 8, 1, 0, 0, 1, 0, 0, 0, 0, 0, 0, 1, 97, 0]"
definition example_answer :: bytes where "example_answer = [1, 2, 129, 128, 0, 1, 0, 1, 0, 0, 0, 0, 1, 97, 0]"

lemmas example_dns_defs = example_query_def example_query'_def example_answer_def

theorem dns_cache_sound_witness:
  "\<exists>at r. last_put (drop 2 example_query') [CPut 5 example_query example_answer] = Some (at, r)
     \<and> 1000 - at \<le> DEFAULT_TTL
     \<and> [9, 8, 129, 128, 0, 1, 0, 1, 0, 0, 0, 0, 1, 97, 0] = take 2 example_query' @ drop 2 r"
proof -
  have "fst (cache_get 1000 example_query' (cache_run [CPut 5 example_query example_answer]))
      = Some [9, 8, 129, 128, 0, 1, 0, 1, 0, 0, 0, 0, 1, 97, 0]"
    by (simp add: example_dns_defs cache_get_def cache_put_def cache_new_def tput_def tget_def
        DEFAULT_TTL_def MAX_ENTRIES_def)
  then show ?thesis using dns_cache_sound by blast
qed

subsection \<open>DNS over TCP\<close>

datatype dns_error = DIo io_kind | DTooLarge | DEmpty

definition read_message :: "(dns_error, bytes) io" where
  "read_message =
     io_bind (read_exact DIo 2) (\<lambda>hdr.
       let n = of_be hdr in
       if n = 0 then io_fail DEmpty
       else if 65535 < n then io_fail DTooLarge
       else read_exact DIo n)"

definition exchange_over_tcp :: "bytes \<Rightarrow> (dns_error, bytes) io" where
  "exchange_over_tcp query =
     (if query = [] \<or> 65535 < length query then io_fail DTooLarge
      else io_bind (write_all DIo (to_be 2 (length query))) (\<lambda>_.
           io_bind (write_all DIo query) (\<lambda>_. read_message)))"

definition tcp_message :: "bytes \<Rightarrow> bytes" where
  "tcp_message msg = to_be 2 (length msg) @ msg"

definition message_ok :: "bytes \<Rightarrow> bool" where
  "message_ok msg \<longleftrightarrow> msg \<noteq> [] \<and> length msg \<le> 65535"

definition unframe_message :: "bytes \<Rightarrow> (bytes \<times> bytes) option" where
  "unframe_message bs = (case read_message (stream_of bs) of (Inr msg, t) \<Rightarrow> Some (msg, rx t) | _ \<Rightarrow> None)"

lemma read_message_frame:
  assumes "message_ok msg" and "rx s = tcp_message msg @ rest"
  shows "read_message s = (Inr msg, s\<lparr>rx := rest\<rparr>)"
proof -
  have "rx s = to_be 2 (length msg) @ (msg @ rest)" using assms(2) by (simp add: tcp_message_def)
  moreover have "of_be (to_be 2 (length msg)) = length msg"
    using assms(1) by (simp add: message_ok_def)
  ultimately show ?thesis
    using assms(1) by (simp add: read_message_def message_ok_def Let_def)
qed

interpretation dns_frames: framing tcp_message unframe_message message_ok
proof
  fix msg rest assume "message_ok msg"
  then show "unframe_message (tcp_message msg @ rest) = Some (msg, rest)"
    by (simp add: unframe_message_def read_message_frame)
qed

lemma exchange_over_tcp_ok:
  assumes "message_ok q" and "message_ok r" and "rx s = tcp_message r @ rest" and "tx_cap s = None"
  shows "exchange_over_tcp q s = (Inr r, s\<lparr>rx := rest, tx := tx s @ tcp_message q\<rparr>)"
proof -
  have "read_message (s\<lparr>tx := tx s @ tcp_message q\<rparr>) = (Inr r, s\<lparr>rx := rest, tx := tx s @ tcp_message q\<rparr>)"
    using assms by (subst read_message_frame [of r _ rest]) auto
  then show ?thesis
    using assms by (simp add: exchange_over_tcp_def message_ok_def tcp_message_def)
qed

text \<open>Several queries one after the other on one stream, as the reused connection does.\<close>

fun exchange_all :: "bytes list \<Rightarrow> bstream \<Rightarrow> (dns_error + bytes list) \<times> bstream" where
  "exchange_all [] s = (Inr [], s)"
| "exchange_all (q # qs) s =
     (case exchange_over_tcp q s of
        (Inl e, t) \<Rightarrow> (Inl e, t)
      | (Inr r, t) \<Rightarrow> (case exchange_all qs t of (Inl e, u) \<Rightarrow> (Inl e, u) | (Inr rs, u) \<Rightarrow> (Inr (r # rs), u)))"

text \<open>
  On one reused DNS-over-TCP stream to a server that answers in order, every query gets
  its own answer, nothing is left unread in between, and what the server receives is the
  length-prefixed queries back to back, from which it can recover each of them.
\<close>

theorem dns_exchange_sequence:
  assumes "list_all2 (\<lambda>q r. message_ok q \<and> message_ok r) qs rs"
    and "rx s = concat (map tcp_message rs) @ rest" and "tx_cap s = None"
  shows "exchange_all qs s = (Inr rs, s\<lparr>rx := rest, tx := tx s @ concat (map tcp_message qs)\<rparr>)
       \<and> unframe_n unframe_message (length qs) (concat (map tcp_message qs) @ after) = Some (qs, after)"
proof
  show "exchange_all qs s = (Inr rs, s\<lparr>rx := rest, tx := tx s @ concat (map tcp_message qs)\<rparr>)"
    using assms
  proof (induction arbitrary: s rule: list_all2_induct)
    case (Cons q qs r rs)
    then show ?case
      using exchange_over_tcp_ok [of q r s "concat (map tcp_message rs) @ rest"] by simp
  qed simp
  have "list_all message_ok qs" using assms(1) by (induction rule: list_all2_induct) simp_all
  then show "unframe_n unframe_message (length qs) (concat (map tcp_message qs) @ after) = Some (qs, after)"
    by (rule dns_frames.unframe_frames)
qed

theorem dns_exchange_sequence_witness:
  "fst (exchange_all [example_query, example_query'] (stream_of (tcp_message example_answer @ tcp_message [7])))
     = Inr [example_answer, [7]]"
  using dns_exchange_sequence [of "[example_query, example_query']" "[example_answer, [7]]"
      "stream_of (tcp_message example_answer @ tcp_message [7])" "[]"]
  by (simp add: message_ok_def example_dns_defs)

subsection \<open>The warm-up query\<close>

fun trim_end_dots :: "string \<Rightarrow> string" where
  "trim_end_dots s = rev (dropWhile (\<lambda>c. c = CHR ''.'') (rev s))"

definition query_labels :: "string \<Rightarrow> string list" where
  "query_labels name = filter (\<lambda>l. l \<noteq> []) (split_on CHR ''.'' (trim_end_dots (trim name)))"

definition encode_label :: "string \<Rightarrow> bytes" where
  "encode_label l = word_of_nat (min (length l) 63) # take (min (length l) 63) (as_bytes l)"

definition encode_query_a :: "string \<Rightarrow> u16 \<Rightarrow> bytes" where
  "encode_query_a name qid =
     to_be 2 (unat qid) @ [0x01, 0x00] @ [0x00, 0x01, 0x00, 0x00, 0x00, 0x00, 0x00, 0x00]
     @ concat (map encode_label (query_labels name)) @ [0] @ [0x00, 0x01, 0x00, 0x01]"

text \<open>The reader of RFC 1035 names: length-prefixed labels up to the empty one.\<close>

function read_name :: "bytes \<Rightarrow> (bytes list \<times> bytes) option" where
  "read_name [] = None"
| "read_name (n # bs) =
     (if n = 0 then Some ([], bs)
      else if 63 < unat n \<or> length bs < unat n then None
      else map_option (\<lambda>(ls, r). (take (unat n) bs # ls, r)) (read_name (drop (unat n) bs)))"
  by pat_completeness auto
termination by (relation "measure length") auto

lemma read_name_labels:
  assumes "list_all (\<lambda>l. l \<noteq> []) ls"
  shows "read_name (concat (map encode_label ls) @ 0 # r) = Some (map (\<lambda>l. take 63 (as_bytes l)) ls, r)"
  using assms
proof (induction ls)
  case (Cons l ls)
  let ?n = "min (length l) 63"
  have n: "?n mod 256 = ?n" "0 < ?n" using Cons.prems by (auto simp: min_def)
  then have u: "unat (word_of_nat ?n :: u8) = ?n" by simp
  then have "(word_of_nat ?n :: u8) \<noteq> 0" using n(2) by (metis unat_0 less_irrefl)
  moreover have "take ?n (as_bytes l) = take 63 (as_bytes l)" by (auto simp: min_def)
  ultimately show ?case using Cons u by (simp add: encode_label_def)
qed simp

text \<open>
  The warm-up query is a well-formed RFC 1035 message: its identifier, one question,
  then a name that reads back as the labels of the trimmed input (each cut at 63 bytes),
  followed by type A and class IN.
\<close>

theorem dns_encode_query_a_reads_back:
  "of_be (take 2 (encode_query_a name qid)) = unat qid
   \<and> of_be (take 2 (drop 4 (encode_query_a name qid))) = 1
   \<and> read_name (drop 12 (encode_query_a name qid))
       = Some (map (\<lambda>l. take 63 (as_bytes l)) (query_labels name), [0x00, 0x01, 0x00, 0x01])"
proof -
  have "list_all (\<lambda>l. l \<noteq> []) (query_labels name)" by (simp add: query_labels_def list_all_iff)
  moreover have "drop 12 (encode_query_a name qid)
      = concat (map encode_label (query_labels name)) @ 0 # [0x00, 0x01, 0x00, 0x01]"
    by (simp add: encode_query_a_def)
  moreover have "of_be (to_be 2 (unat qid)) = unat qid" using unat_word_bound(1) [of qid] by simp
  ultimately show ?thesis
    by (simp add: read_name_labels) (simp add: encode_query_a_def of_be_def)
qed

end
