(* ===== verification/Helper.thy ===== *)
theory Helper
  imports Nftables Dns
begin

text \<open>
  \<^verbatim>\<open>services/privileged-helper\<close>: who may use the helper, the journal, installing and removing the tunnel, the loop
  that serves one client, and the steps of several clients at once. The machine is a parameter (\<open>sys\<close>, extended here by
  the JSON encodings and the texts of errors); closing a descriptor is not modelled.
\<close>

record session_journal =
  sj_tun_name :: string
  sj_added :: "added_route list"

record 'w helper_env = "'w sys" +
  is_dir :: "string \<Rightarrow> bool"
  journal_to_json :: "session_journal \<Rightarrow> string + bytes"
  journal_of_json :: "bytes \<Rightarrow> session_journal option"
  ipc :: ipc_json
  net_text :: "ip_net \<Rightarrow> string"
  io_text :: "io_kind \<Rightarrow> string"

record 'w helper =
  hp_session :: "added_route list option"
  hp_sys :: 'w

definition authorized :: "('w, 'a) helper_env_scheme \<Rightarrow> u32 \<Rightarrow> u32 list \<Rightarrow> bool \<Rightarrow> bool" where
  "authorized env uid allow_uid allow_active_sessions \<longleftrightarrow>
     uid = 0 \<or> uid \<in> set allow_uid \<or> allow_active_sessions \<and> is_dir env (''/run/user/'' @ show_nat (unat uid))"

subsection \<open>Errors\<close>

datatype helper_error =
    HOther string
  | HTun tun_error
  | HRouting routing_error
  | HNft nft_error
  | HIo string

fun show_tun_error :: "(io_kind \<Rightarrow> string) \<Rightarrow> tun_error \<Rightarrow> string" where
  "show_tun_error io (TIo context source) = context @ '': '' @ io source"
| "show_tun_error io (InvalidName s) =
     ''invalid TUN name `'' @ s @ ''` '' @ [CHR 0xE2, CHR 0x80, CHR 0x94] @ '' helper will only manage `'' @ TUN_NAME @ ''`''"
| "show_tun_error io (Ipc s) = ''helper IPC error: '' @ s"
| "show_tun_error io (HelperUnavailable s) = ''privileged helper is not running (socket '' @ s @ '')''"
| "show_tun_error io (HelperRejected s) = ''helper rejected request: '' @ s"
| "show_tun_error io (TOther s) = s"

fun show_nft_error :: "nft_error \<Rightarrow> string" where
  "show_nft_error (NIo e) = ''I/O error: '' @ e"
| "show_nft_error (NOther e) = e"

fun show_helper_error :: "(io_kind \<Rightarrow> string) \<Rightarrow> helper_error \<Rightarrow> string" where
  "show_helper_error io (HOther s) = s"
| "show_helper_error io (HTun e) = show_tun_error io e"
| "show_helper_error io (HRouting e) = show_routing_error e"
| "show_helper_error io (HNft e) = show_nft_error e"
| "show_helper_error io (HIo s) = s"

subsection \<open>Journal, resolver and device\<close>

definition write_journal :: "('w, 'a) helper_env_scheme \<Rightarrow> added_route list \<Rightarrow> ('w, helper_error, unit) act" where
  "write_journal env added w =
     (let tmp = SESSION_JOURNAL @ ''.tmp'' in
      case journal_to_json env \<lparr> sj_tun_name = TUN_NAME, sj_added = added \<rparr> of
        Inl e \<Rightarrow> (Inl (HIo e), w)
      | Inr raw \<Rightarrow>
          (case fs_write env tmp raw w of
             (Inl e, w1) \<Rightarrow> (Inl (HIo e), w1)
           | (Inr _, w1) \<Rightarrow>
               (case fs_rename env tmp SESSION_JOURNAL w1 of
                  (Inl e, w2) \<Rightarrow> (Inl (HIo e), w2)
                | (Inr _, w2) \<Rightarrow> (Inr (), w2))))"

definition read_journal :: "('w, 'a) helper_env_scheme \<Rightarrow> 'w \<Rightarrow> session_journal option" where
  "read_journal env w = Option.bind (fs_read env SESSION_JOURNAL w) (journal_of_json env)"

definition run_resolvectl :: "('w, 'a) helper_env_scheme \<Rightarrow> string list \<Rightarrow> 'w \<Rightarrow> string \<times> 'w" where
  "run_resolvectl env args w =
     (let line = join_with '' '' args in
      case exec env ''resolvectl'' args [] w of
        (Inr out, w') \<Rightarrow>
          (if out_success out then (line @ '':ok'', w')
           else (line @ '':'' @ trim (from_utf8_lossy (out_stderr out)), w'))
      | (Inl e, w') \<Rightarrow> (line @ '':'' @ e, w'))"

fun run_all :: "('w, 'a) helper_env_scheme \<Rightarrow> string list list \<Rightarrow> 'w \<Rightarrow> string list \<times> 'w" where
  "run_all env [] w = ([], w)"
| "run_all env (args # rest) w =
     (let (note, w1) = run_resolvectl env args w; (notes, w2) = run_all env rest w1 in (note # notes, w2))"

definition configure_resolved :: "('w, 'a) helper_env_scheme \<Rightarrow> string \<Rightarrow> string list \<Rightarrow> 'w \<Rightarrow> string \<times> 'w" where
  "configure_resolved env tun_name servers w =
     (let dns_args = [''dns'', tun_name] @ (if servers = [] then [''1.1.1.1'', ''8.8.8.8''] else servers);
          (notes, w') = run_all env
            [dns_args, [''domain'', tun_name, ''~.''], [''default-route'', tun_name, ''yes''], [''flush-caches'']] w in
      (join_with '' | '' notes, w'))"

definition revert_resolved :: "('w, 'a) helper_env_scheme \<Rightarrow> string \<Rightarrow> 'w \<Rightarrow> 'w" where
  "revert_resolved env tun_name w =
     (let (_, w1) = exec env ''resolvectl'' [''revert'', tun_name] [] w;
          (_, w2) = exec env ''resolvectl'' [''flush-caches''] [] w1 in w2)"

definition add_address :: "('w, 'a) helper_env_scheme \<Rightarrow> string \<Rightarrow> string \<Rightarrow> ('w, routing_error, unit) act" where
  "add_address env addr dev w =
     (case run_ip env [''addr'', ''add'', addr, ''dev'', dev] w of
        (Inr _, w') \<Rightarrow> (Inr (), w')
      | (Inl e, w') \<Rightarrow> (if str_contains ''File exists'' (show_routing_error e) then (Inr (), w') else (Inl e, w')))"

definition configure_tun :: "('w, 'a) helper_env_scheme \<Rightarrow> apply_spec \<Rightarrow> ('w, routing_error, unit) act" where
  "configure_tun env spec =
     act_bind (run_ip env [''link'', ''set'', sp_tun_name spec, ''mtu'', show_nat (unat (sp_mtu spec))]) (\<lambda>_.
     act_bind (add_address env (show_ipv4 (sp_tun_addr spec) @ ''/'' @ show_nat (unat (sp_tun_prefix spec))) (sp_tun_name spec)) (\<lambda>_.
     act_bind (if sp_ipv6 spec
               then add_address env (show_ipv6 TUN_ADDR_V6 @ ''/'' @ show_nat (unat TUN_PREFIX_V6)) (sp_tun_name spec)
               else act_return ()) (\<lambda>_.
     act_bind (run_ip env [''link'', ''set'', sp_tun_name spec, ''up'']) (\<lambda>_. act_return ()))))"

subsection \<open>Installing and removing the tunnel\<close>

definition cleanup_stale :: "('w, 'a) helper_env_scheme \<Rightarrow> 'w \<Rightarrow> 'w" where
  "cleanup_stale env w =
     (let w1 = revert_resolved env TUN_NAME w;
          w2 = (case read_journal env w1 of Some j \<Rightarrow> snd (restore_added env (sj_added j) w1) | None \<Rightarrow> w1);
          w3 = snd (nft_restore env w2);
          w4 = snd (run_ip env [''link'', ''delete'', TUN_NAME] w3) in
      snd (fs_remove env SESSION_JOURNAL w4))"

definition teardown_session :: "('w, 'a) helper_env_scheme \<Rightarrow> 'w helper \<Rightarrow> 'w helper" where
  "teardown_session env s =
     (let w1 = revert_resolved env TUN_NAME (hp_sys s);
          w2 = (case hp_session s of Some added \<Rightarrow> snd (restore_added env added w1) | None \<Rightarrow> w1) in
      \<lparr> hp_session = None, hp_sys = cleanup_stale env w2 \<rparr>)"

definition spec_bypass :: "apply_spec \<Rightarrow> ip_net list" where
  "spec_bypass spec = (if sp_bypass_private spec then sp_extra_bypass spec @ private_cidrs else sp_extra_bypass spec)"

definition spec_script :: "('w, 'a) helper_env_scheme \<Rightarrow> apply_spec \<Rightarrow> string" where
  "spec_script env spec =
     render_table (net_text env) (sp_server_ips spec) (spec_bypass spec) (sp_kill_switch spec)
       (sp_transproxy_port spec) (sp_dns_port spec) (sp_ipv6 spec) (sp_udp_port spec)"

definition spec_policy :: "apply_spec \<Rightarrow> dns_policy" where
  "spec_policy spec = effective_policy True (parse_policy (sp_dns_mode spec))"

definition apply_message :: "apply_spec \<Rightarrow> string" where
  "apply_message spec =
     ''TUN '' @ sp_tun_name spec @ '' up, nftables table inet '' @ NFT_TABLE @ '' (TCP :''
     @ show_nat (unat (sp_transproxy_port spec)) @ '', DNS :'' @ show_nat (unat (sp_dns_port spec)) @ '', UDP :''
     @ (if sp_udp_port spec = 0 then ''reject'' else show_nat (unat (sp_udp_port spec)))
     @ '', ipv6='' @ (if sp_ipv6 spec then ''true'' else ''false'')
     @ '', dns='' @ policy_as_str (spec_policy spec) @ '')''"

text \<open>
  \<^verbatim>\<open>apply_spec\<close> holds the lock of the session twice, at its start and at its end. Its three parts are separate
  definitions, because other clients run between them.
\<close>

definition apply_check :: "apply_spec \<Rightarrow> added_route list option \<Rightarrow> helper_error + unit" where
  "apply_check spec session =
     (case spec_validate spec of
        Inl e \<Rightarrow> Inl (HOther e)
      | Inr _ \<Rightarrow>
          if session \<noteq> None then Inl (HOther ''a tunnel session is already active; disconnect first'') else Inr ())"

definition apply_dns :: "('w, 'a) helper_env_scheme \<Rightarrow> apply_spec \<Rightarrow> 'w \<Rightarrow> 'w" where
  "apply_dns env spec w =
     (if should_configure_resolved (spec_policy spec)
      then snd (configure_resolved env (sp_tun_name spec) (resolve_servers (spec_policy spec) (sp_dns_servers spec)) w)
      else w)"

definition apply_install :: "('w, 'a) helper_env_scheme \<Rightarrow> apply_spec \<Rightarrow> ('w, helper_error, nat) act" where
  "apply_install env spec w =
     (case create_named_tun env (sp_tun_name spec) (cleanup_stale env w) of
        (Inl e, w1) \<Rightarrow> (Inl (HTun e), w1)
      | (Inr tun_fd, w1) \<Rightarrow>
          (case configure_tun env spec w1 of
             (Inl e, w2) \<Rightarrow> (Inl (HRouting e), snd (run_ip env [''link'', ''delete'', TUN_NAME] w2))
           | (Inr _, w2) \<Rightarrow>
               (case apply_table env (spec_script env spec) w2 of
                  (Inl e, w3) \<Rightarrow>
                    (Inl (HNft e), snd (run_ip env [''link'', ''delete'', TUN_NAME] (snd (restore_added env [] w3))))
                | (Inr _, w3) \<Rightarrow>
                    (case write_journal env [] (apply_dns env spec w3) of
                       (Inl e, w4) \<Rightarrow> (Inl e, w4)
                     | (Inr _, w4) \<Rightarrow> (Inr tun_fd, w4)))))"

definition helper_apply_spec :: "('w, 'a) helper_env_scheme \<Rightarrow> apply_spec \<Rightarrow> 'w helper
    \<Rightarrow> (helper_error + string \<times> nat) \<times> 'w helper" where
  "helper_apply_spec env spec s =
     (case apply_check spec (hp_session s) of
        Inl e \<Rightarrow> (Inl e, s)
      | Inr _ \<Rightarrow>
          (case apply_install env spec (hp_sys s) of
             (Inl e, w') \<Rightarrow> (Inl e, s\<lparr>hp_sys := w'\<rparr>)
           | (Inr tun_fd, w') \<Rightarrow> (Inr (apply_message spec, tun_fd), \<lparr> hp_session = Some [], hp_sys = w' \<rparr>)))"

subsection \<open>Serving a client\<close>

definition send_json :: "('w, 'a) helper_env_scheme \<Rightarrow> helper_response \<Rightarrow> nat option \<Rightarrow> (io_kind + nat) list
    \<Rightarrow> (tun_error + unit) option \<times> msg list" where
  "send_json env resp fd results =
     send_frame
       (case resp of
          Pong _ _ \<Rightarrow> ''helper send Pong''
        | ROk _ _ \<Rightarrow> (if fd \<noteq> None then ''helper send Apply (with TUN fd)'' else ''helper send Ok'')
        | RError _ \<Rightarrow> ''helper send Error'')
       (resp_to_json (ipc env) resp) fd results"

text \<open>One request: the response, the descriptor sent with it, whether the client now owns the session, and the state.\<close>

fun handle_request :: "('w, 'a) helper_env_scheme \<Rightarrow> u32 \<Rightarrow> helper_request \<Rightarrow> bool \<Rightarrow> 'w helper
    \<Rightarrow> helper_response \<times> nat option \<times> bool \<times> 'w helper" where
  "handle_request env uid (Ping version) owns s =
     (if version \<noteq> IPC_VERSION
      then (RError (''helper IPC version mismatch: client '' @ show_nat (unat version) @ '', helper ''
              @ show_nat (unat IPC_VERSION)), None, owns, s)
      else (Pong IPC_VERSION uid, None, owns, s))"
| "handle_request env uid Teardown owns s =
     (ROk ''tunnel networking restored'' None, None, False, teardown_session env s)"
| "handle_request env uid (Apply spec) owns s =
     (case helper_apply_spec env spec s of
        (Inr (msg, tun_fd), s') \<Rightarrow> (ROk msg (Some TUN_NAME), Some tun_fd, True, s')
      | (Inl e, s') \<Rightarrow> (RError (show_helper_error (io_text env) e), None, owns, s'))"
| "handle_request env uid _ owns s =
     (let s' = teardown_session env s in
      (ROk ''networking restored; leftover Easy Connection state removed'' None, None, False,
       s'\<lparr>hp_sys := cleanup_stale env (hp_sys s')\<rparr>))"

lemma fill_shorter: "fill op n buf fd s = (Inr m, s') \<Longrightarrow> length buf < n \<Longrightarrow> length s' < length s"
proof (induction op n buf fd s rule: fill.induct)
  case (1 op n buf fd s)
  obtain r s1 where r: "recv_chunk op s = (r, s1)" by fastforce
  with "1.prems" obtain c cfd where c: "r = Inr (c, cfd)" "c \<noteq> []"
    by (subst (asm) fill.simps) (auto split: sum.splits prod.splits if_splits)
  then have l: "length s1 < length s" using recv_chunk_length r by blast
  have f: "fill op n (buf @ c) (case fd of None \<Rightarrow> cfd | Some f \<Rightarrow> Some f) s1 = (Inr m, s')"
    using "1.prems" r c by (subst (asm) fill.simps) simp
  show ?case
  proof (cases "length (buf @ c) < n")
    case True
    have "length s' < length s1" using "1.IH" [OF _ r [symmetric] c(1) refl c(2) f] True "1.prems"(2) by simp
    then show ?thesis using l by simp
  next
    case False
    then show ?thesis using f l by (subst (asm) fill.simps) simp
  qed
qed

lemma fill_not_longer: "fill op n buf fd s = (Inr m, s') \<Longrightarrow> length s' \<le> length s"
  using fill_shorter [of op n buf fd s m s'] by (cases "length buf < n") (auto simp: fill.simps)

lemma recv_frame_shorter: "recv_frame op s = (Inr m, s') \<Longrightarrow> length s' < length s"
  using fill_shorter [of op 4 "[]" None s]
  by (fastforce simp: recv_frame_def Let_def split: prod.splits sum.splits if_splits dest: fill_not_longer)

text \<open>
  The loop of \<^verbatim>\<open>handle_client\<close>: \<open>sends\<close> holds, for each response, the results of \<^verbatim>\<open>sendmsg\<close>. Without a result the
  handler is still waiting to send.
\<close>

function client_loop :: "('w, 'a) helper_env_scheme \<Rightarrow> u32 \<Rightarrow> bool \<Rightarrow> rsock \<Rightarrow> (io_kind + nat) list list \<Rightarrow> 'w helper
    \<Rightarrow> (helper_error + unit) option \<times> bool \<times> 'w helper \<times> msg list list" where
  "client_loop env uid owns sock sends s =
     (case recv_frame ''helper recv client request'' sock of
        (Inl e, _) \<Rightarrow> (Some (Inr ()), owns, s, [])
      | (Inr (payload, _), sock') \<Rightarrow>
          (case req_of_json (ipc env) payload of
             Inl e \<Rightarrow> (Some (Inl (HOther e)), owns, s, [])
           | Inr req \<Rightarrow>
               (let (resp, fd, owns', s') = handle_request env uid req owns s in
                case send_json env resp fd (case sends of [] \<Rightarrow> [] | r # _ \<Rightarrow> r) of
                  (None, out) \<Rightarrow> (None, owns', s', [out])
                | (Some (Inl e), out) \<Rightarrow> (Some (Inl (HTun e)), owns', s', [out])
                | (Some (Inr _), out) \<Rightarrow>
                    (let (r, o', t, outs) = client_loop env uid owns' sock' (tl sends) s' in (r, o', t, out # outs)))))"
  by auto
termination
  by (relation "measure (\<lambda>(env, uid, owns, sock, sends, s). length sock)") (auto dest: recv_frame_shorter [OF sym])

declare client_loop.simps [simp del]

definition handle_client :: "('w, 'a) helper_env_scheme \<Rightarrow> u32 list \<Rightarrow> bool \<Rightarrow> (helper_error + u32) \<Rightarrow> rsock
    \<Rightarrow> (io_kind + nat) list list \<Rightarrow> 'w helper \<Rightarrow> (helper_error + unit) option \<times> 'w helper \<times> msg list list" where
  "handle_client env allow_uid allow_active_sessions peer_uid sock sends s =
     (case peer_uid of
        Inl e \<Rightarrow> (Some (Inl e), s, [])
      | Inr uid \<Rightarrow>
          if \<not> authorized env uid allow_uid allow_active_sessions
          then (let resp = RError (''uid '' @ show_nat (unat uid)
                      @ '' is not authorized to use easy-helper. Pass --allow-uid '' @ show_nat (unat uid)
                      @ '' or add the user to an active session.'') in
                case send_frame ''helper deny unauthorized uid'' (resp_to_json (ipc env) resp) None
                       (case sends of [] \<Rightarrow> [] | r # _ \<Rightarrow> r) of
                  (None, out) \<Rightarrow> (None, s, [out])
                | (Some r, out) \<Rightarrow> (Some (map_err HTun r), s, [out]))
          else (case client_loop env uid False sock sends s of
                  (None, owns, s', outs) \<Rightarrow> (None, s', outs)
                | (Some r, owns, s', outs) \<Rightarrow> (Some r, (if owns then teardown_session env s' else s'), outs)))"

subsection \<open>What the machine shows\<close>

text \<open>
  \<open>net\<close> observes of the machine whether the TUN device exists and which script defines the table. \<open>machine_ok\<close> is what
  \<^verbatim>\<open>ip link delete\<close>, \<^verbatim>\<open>nft delete table\<close>, \<^verbatim>\<open>nft -f\<close> and the TUN driver document: removing removes, a script is
  loaded as a whole or not at all, and no other command touches the device or the table.
\<close>

definition net_effect :: "('w, 'a) sys_scheme \<Rightarrow> string \<Rightarrow> string list \<Rightarrow> bytes \<Rightarrow> bool \<Rightarrow> bool \<times> bytes option \<Rightarrow> bool \<times> bytes option" where
  "net_effect env prog args inp ok n =
     (if prog = ip_bin env \<and> args = [''link'', ''delete'', TUN_NAME] then (False, snd n)
      else if prog = nft_bin env \<and> args = [''delete'', ''table'', ''inet'', NFT_TABLE] then (fst n, None)
      else if prog = nft_bin env \<and> args = [''-f'', ''-''] \<and> ok then (fst n, Some inp)
      else n)"

definition ran_ok :: "(string + proc_output) \<Rightarrow> bool" where
  "ran_ok r = (case r of Inr out \<Rightarrow> out_success out | Inl _ \<Rightarrow> False)"

definition machine_ok :: "('w, 'a) sys_scheme \<Rightarrow> ('w \<Rightarrow> bool \<times> bytes option) \<Rightarrow> bool" where
  "machine_ok env net \<longleftrightarrow>
     (\<forall>prog args inp w. args = [''-f'', ''-''] \<longrightarrow> snd (net w) = None
        \<longrightarrow> net (snd (exec env prog args inp w)) = net_effect env prog args inp (ran_ok (fst (exec env prog args inp w))) (net w))
   \<and> (\<forall>prog args inp w. args \<noteq> [''-f'', ''-'']
        \<longrightarrow> net (snd (exec env prog args inp w)) = net_effect env prog args inp True (net w))
   \<and> (\<forall>name w. net (snd (open_tun env name w)) = (is_ok (fst (open_tun env name w)) \<or> fst (net w), snd (net w)))
   \<and> (\<forall>path raw w. net (snd (fs_write env path raw w)) = net w)
   \<and> (\<forall>path path' w. net (snd (fs_rename env path path' w)) = net w)
   \<and> (\<forall>path w. net (snd (fs_remove env path w)) = net w)"

definition journal_ok :: "('w, 'a) helper_env_scheme \<Rightarrow> bool" where
  "journal_ok env \<longleftrightarrow>
     (\<forall>j. is_ok (journal_to_json env j)) \<and> (\<forall>path raw w. is_ok (fst (fs_write env path raw w)))
   \<and> (\<forall>path path' w. is_ok (fst (fs_rename env path path' w)))"

lemma machine_exec:
  "machine_ok env net \<Longrightarrow> args \<noteq> [''-f'', ''-''] \<Longrightarrow> net (snd (exec env prog args inp w)) = net_effect env prog args inp True (net w)"
  by (simp add: machine_ok_def)

lemma machine_load:
  "machine_ok env net \<Longrightarrow> snd (net w) = None \<Longrightarrow>
     net (snd (exec env prog [''-f'', ''-''] inp w))
       = net_effect env prog [''-f'', ''-''] inp (ran_ok (fst (exec env prog [''-f'', ''-''] inp w))) (net w)"
  by (simp add: machine_ok_def)

lemma machine_quiet:
  assumes "machine_ok env net" and "hd args \<notin> {''delete'', ''-f''}" and "args \<noteq> [''link'', ''delete'', TUN_NAME]"
  shows "net (snd (exec env prog args inp w)) = net w"
proof -
  have "args \<noteq> [''-f'', ''-'']" "args \<noteq> [''delete'', ''table'', ''inet'', NFT_TABLE]" using assms(2) by auto
  then show ?thesis using assms(3) machine_exec [OF assms(1), of args prog inp w] by (simp add: net_effect_def)
qed

lemma run_ip_net: "net (snd (run_ip env args w)) = net (snd (exec env (ip_bin env) args [] w))"
  by (simp add: run_ip_state)

lemma run_ip_quiet:
  "machine_ok env net \<Longrightarrow> hd args \<notin> {''delete'', ''-f''} \<Longrightarrow> args \<noteq> [''link'', ''delete'', TUN_NAME] \<Longrightarrow>
     net (snd (run_ip env args w)) = net w"
  by (simp add: run_ip_net machine_quiet)

lemma link_delete_net: "machine_ok env net \<Longrightarrow> net (snd (run_ip env [''link'', ''delete'', TUN_NAME] w)) = (False, snd (net w))"
  by (simp add: run_ip_net machine_exec net_effect_def)

lemma restore_added_net: "machine_ok env net \<Longrightarrow> net (snd (restore_added env rs w)) = net w"
proof -
  assume m: "machine_ok env net"
  have "net (restore_loop env rs w) = net w" for rs
    by (induction rs arbitrary: w) (simp_all add: run_ip_quiet [OF m] route_args_key)
  then show ?thesis by (simp add: restore_added_def)
qed

lemma nft_bin_not_ip: "nft_bin env \<noteq> ip_bin env"
  by (simp add: nft_bin_def ip_bin_def)

lemma flush_table_net: "machine_ok env net \<Longrightarrow> net (snd (flush_table env w)) = (fst (net w), None)"
  using machine_exec [of env net "[''delete'', ''table'', ''inet'', NFT_TABLE]" "nft_bin env" "[]" w]
  by (auto simp: flush_table_def flush_named_def net_effect_def split: prod.splits sum.splits)

lemma revert_resolved_net: "machine_ok env net \<Longrightarrow> net (revert_resolved env tun w) = net w"
  by (simp add: revert_resolved_def split_beta machine_quiet)

lemma run_all_net: "machine_ok env net \<Longrightarrow> list_all (\<lambda>args. hd args \<notin> {''delete'', ''-f'', ''link''}) argss \<Longrightarrow>
     net (snd (run_all env argss w)) = net w"
proof (induction argss arbitrary: w)
  case (Cons args argss)
  have "net (snd (run_resolvectl env args w)) = net (snd (exec env ''resolvectl'' args [] w))"
    by (simp add: run_resolvectl_def Let_def split: prod.splits sum.splits)
  also have "\<dots> = net w" using Cons.prems by (intro machine_quiet) auto
  finally show ?case using Cons by (simp add: split_beta Let_def)
qed simp

lemma configure_resolved_net: "machine_ok env net \<Longrightarrow> net (snd (configure_resolved env tun servers w)) = net w"
  by (simp add: configure_resolved_def Let_def split_beta run_all_net del: run_all.simps)

lemma apply_dns_net: "machine_ok env net \<Longrightarrow> net (apply_dns env spec w) = net w"
  by (simp add: apply_dns_def configure_resolved_net)

lemma act_bind_net:
  "(\<And>w. net (snd (m w)) = net w) \<Longrightarrow> (\<And>x w. net (snd (f x w)) = net w) \<Longrightarrow> net (snd (act_bind m f w)) = net w"
  by (auto simp: act_bind_def split: prod.splits sum.splits) (metis snd_conv)+

lemma add_address_net: "machine_ok env net \<Longrightarrow> net (snd (add_address env addr dev w)) = net w"
proof -
  assume m: "machine_ok env net"
  have "net (snd (add_address env addr dev w)) = net (snd (run_ip env [''addr'', ''add'', addr, ''dev'', dev] w))"
    by (simp add: add_address_def split: prod.splits sum.splits)
  then show ?thesis by (simp add: run_ip_quiet [OF m])
qed

lemma configure_tun_net: "machine_ok env net \<Longrightarrow> net (snd (configure_tun env spec w)) = net w"
  unfolding configure_tun_def
  by (intro act_bind_net) (simp_all add: run_ip_quiet add_address_net act_return_def)

lemma cleanup_stale_net: "machine_ok env net \<Longrightarrow> net (cleanup_stale env w) = (False, None)"
proof -
  assume m: "machine_ok env net"
  then have "net (snd (fs_remove env p v)) = net v" for p v by (simp add: machine_ok_def)
  then show ?thesis
    by (simp add: cleanup_stale_def Let_def link_delete_net [OF m] nft_restore_def flush_table_net [OF m])
qed

lemma teardown_session_net:
  "machine_ok env net \<Longrightarrow> net (hp_sys (teardown_session env s)) = (False, None)"
  by (simp add: teardown_session_def Let_def cleanup_stale_net)

lemma teardown_session_None [simp]: "hp_session (teardown_session env s) = None"
  by (simp add: teardown_session_def Let_def)

lemma write_journal_net: "machine_ok env net \<Longrightarrow> net (snd (write_journal env added w)) = net w"
proof -
  assume m: "machine_ok env net"
  have f: "net w1 = net w" if "fs_write env p r w = (x, w1)" for p r x w w1
    using m that unfolding machine_ok_def by (metis snd_conv)
  have r: "net w1 = net w" if "fs_rename env p q w = (x, w1)" for p q x w w1
    using m that unfolding machine_ok_def by (metis snd_conv)
  show ?thesis by (auto simp: write_journal_def Let_def split: sum.splits prod.splits dest!: f r)
qed

lemma write_journal_ok: "journal_ok env \<Longrightarrow> fst (write_journal env added w) = Inr ()"
  unfolding journal_ok_def write_journal_def Let_def
  by (auto split: sum.splits prod.splits simp: is_ok_iff) (metis fst_conv sum.distinct(1))+

lemma create_named_tun_net:
  "machine_ok env net \<Longrightarrow> create_named_tun env name w = (r, w') \<Longrightarrow> net w' = (is_ok r \<or> fst (net w), snd (net w))"
proof -
  assume m: "machine_ok env net" and c: "create_named_tun env name w = (r, w')"
  have "net (snd (open_tun env name w)) = (is_ok (fst (open_tun env name w)) \<or> fst (net w), snd (net w))"
    using m by (simp add: machine_ok_def)
  then show ?thesis using c by (auto simp: create_named_tun_def split: if_splits prod.splits sum.splits)
qed

lemma apply_table_net:
  assumes m: "machine_ok env net" and a: "apply_table env script w = (r, w')"
  shows "net w' = (fst (net w), case r of Inl _ \<Rightarrow> None | Inr _ \<Rightarrow> Some (as_bytes script))"
proof -
  obtain x w1 where f: "flush_table env w = (x, w1)" by fastforce
  have n1: "net w1 = (fst (net w), None)" using flush_table_net [OF m, of w] f by simp
  obtain y w2 where e: "exec env (nft_bin env) [''-f'', ''-''] (as_bytes script) w1 = (y, w2)" by fastforce
  have n2: "net w2 = (fst (net w), if ran_ok y then Some (as_bytes script) else None)"
    using machine_load [OF m, of w1 "nft_bin env" "as_bytes script"] n1 e by (simp add: net_effect_def)
  show ?thesis
    using a f e n1 n2 by (auto simp: apply_table_def act_bind_def ran_ok_def split: sum.splits if_splits)
qed

lemma apply_install_net:
  assumes m: "machine_ok env net" and a: "apply_install env spec w = (r, w')"
  shows "net w' = (case r of
      Inr _ \<Rightarrow> (True, Some (as_bytes (spec_script env spec)))
    | Inl (HIo _) \<Rightarrow> (True, Some (as_bytes (spec_script env spec)))
    | Inl _ \<Rightarrow> (False, None))"
proof -
  obtain c w1 where c: "create_named_tun env (sp_tun_name spec) (cleanup_stale env w) = (c, w1)" by fastforce
  have n1: "net w1 = (is_ok c, None)" using create_named_tun_net [OF m c] cleanup_stale_net [OF m] by simp
  obtain t w2 where t: "configure_tun env spec w1 = (t, w2)" by fastforce
  have n2: "net w2 = net w1" using configure_tun_net [OF m, of spec w1] t by simp
  obtain n w3 where n: "apply_table env (spec_script env spec) w2 = (n, w3)" by fastforce
  note n3 = apply_table_net [OF m n]
  obtain j w4 where j: "write_journal env [] (apply_dns env spec w3) = (j, w4)" by fastforce
  have n4: "net w4 = net w3"
    using write_journal_net [OF m, of "[]" "apply_dns env spec w3"] apply_dns_net [OF m] j by simp
  have io: "j = Inr () \<or> (\<exists>e. j = Inl (HIo e))" using j
    by (auto simp: write_journal_def Let_def split: sum.splits prod.splits)
  have d: "net (snd (run_ip env [''link'', ''delete'', TUN_NAME] v)) = (False, snd (net v))" for v
    by (rule link_delete_net [OF m])
  show ?thesis
    using a io n1 n2 n3 n4 by (cases c; cases t; cases n) (auto simp: apply_install_def c t n j d restore_added_net [OF m])
qed

lemma apply_install_ok:
  assumes "journal_ok env" and "apply_install env spec w = (Inl e, w')"
  shows "\<exists>e'. e = HTun e' \<or> (\<exists>e''. e = HRouting e'') \<or> (\<exists>e''. e = HNft e'')"
  using assms(2) write_journal_ok [OF assms(1)]
  by (auto simp: apply_install_def split: sum.splits prod.splits) (metis fst_conv sum.distinct(1))+


subsection \<open>An example machine\<close>

text \<open>A machine whose state is what \<open>net\<close> shows of it, on which every command succeeds.\<close>

definition example_env :: "bool \<Rightarrow> (bool \<times> bytes option) helper_env" where
  "example_env disk =
     \<lparr> exec = (\<lambda>prog args inp w.
         let n = (if args = [''link'', ''delete'', TUN_NAME] then if prog = ''ip'' then (False, snd w) else w
                  else if prog = ''nft'' then
                    (if args = [''-f'', ''-''] then (fst w, Some inp)
                     else if args = [''delete'', ''table'', ''inet'', NFT_TABLE] then (fst w, None) else w)
                  else w) in
         (Inr \<lparr> out_success = True, out_stdout = [], out_stderr = [] \<rparr>, n)),
       path_exists = (\<lambda>_. False), open_tun = (\<lambda>_ w. (Inr 3, (True, snd w))), fs_read = (\<lambda>_ _. None),
       fs_write = (\<lambda>_ _ w. (if disk then Inr () else Inl ''No space left on device'', w)), fs_rename = (\<lambda>_ _ w. (Inr (), w)),
       fs_remove = (\<lambda>_ w. (Inr (), w)), is_dir = (\<lambda>_. False), journal_to_json = (\<lambda>_. Inr []), journal_of_json = (\<lambda>_. None),
       ipc = \<lparr> req_to_json = (\<lambda>_. []), req_of_json = (\<lambda>_. Inr Teardown), resp_to_json = (\<lambda>_. []),
              resp_of_json = (\<lambda>_. Inl []), resp_debug = (\<lambda>_. []) \<rparr>,
       net_text = (\<lambda>_. []), io_text = (\<lambda>_. []) \<rparr>"

definition example_spec :: apply_spec where
  "example_spec =
     \<lparr> sp_session_id = 0, sp_tun_name = TUN_NAME, sp_tun_addr = TUN_ADDR, sp_tun_prefix = TUN_PREFIX, sp_mtu = DEFAULT_MTU,
       sp_server_ips = [IpV4 7], sp_bypass_private = True, sp_extra_bypass = [], sp_ipv6 = False, sp_kill_switch = True,
       sp_transproxy_port = TRANSPROXY_PORT, sp_dns_port = DNS_PROXY_PORT, sp_dns_mode = ''tunnel'', sp_dns_servers = [],
       sp_udp_port = 0 \<rparr>"

lemma example_bins [simp]: "ip_bin (example_env disk) = ''ip''" "nft_bin (example_env disk) = ''nft''"
  by (simp_all add: ip_bin_def nft_bin_def example_env_def)

lemma example_machine_ok: "machine_ok (example_env disk) (\<lambda>w. w)"
  unfolding machine_ok_def net_effect_def example_bins
  by (auto simp: example_env_def Let_def ran_ok_def)

lemma example_journal_ok: "journal_ok (example_env True)"
  by (simp add: journal_ok_def example_env_def is_ok_iff)

lemma example_spec_valid: "spec_validate example_spec = Inr ()"
  by (simp add: spec_validate_def example_spec_def DEFAULT_MTU_def TUN_PREFIX_def TRANSPROXY_PORT_def DNS_PROXY_PORT_def
      first_error_Cons)

lemma example_install:
  "apply_install (example_env True) example_spec w = (Inr 3, (True, Some (as_bytes (spec_script (example_env True) example_spec))))"
proof -
  obtain r w' where r: "apply_install (example_env True) example_spec w = (r, w')"
    by (cases "apply_install (example_env True) example_spec w")
  have ok: "run_ip (example_env True) args v = (Inr (trim (from_utf8_lossy [])), snd (exec (example_env True) ''ip'' args [] v))" for args v
    unfolding run_ip_def example_bins by (simp add: example_env_def Let_def)
  have c: "create_named_tun (example_env True) (sp_tun_name example_spec) v = (Inr 3, (True, snd v))" for v
    by (simp add: create_named_tun_def example_spec_def) (simp add: example_env_def)
  have t: "fst (configure_tun (example_env True) example_spec v) = Inr ()" for v
    by (simp add: configure_tun_def act_bind_def add_address_def ok act_return_def)
  have n: "fst (apply_table (example_env True) script v) = Inr ()" for script v
    by (simp add: apply_table_def flush_table_def flush_named_def act_bind_def example_env_def Let_def)
  have j: "fst (write_journal (example_env True) added v) = Inr ()" for added v
    by (simp add: write_journal_ok example_journal_ok)
  have r3: "r = Inr 3" using r by (auto simp: apply_install_def c split: prod.splits sum.splits) (metis t n j fst_conv sum.distinct(1))+
  show ?thesis using apply_install_net [OF example_machine_ok r] r unfolding r3 by simp
qed


subsection \<open>Several clients\<close>

text \<open>
  Each client has a task of its own. A task holds the lock of the session only while it reads, sets or takes it, so an
  \<open>Apply\<close> of one client can run between the parts of another's: \<open>Checked\<close> is after the first lock and \<open>Installed\<close>
  before the second. The flag is the task's \<^verbatim>\<open>owns_session\<close>; \<open>wo_owner\<close> records which client stored the session.
\<close>

datatype phase = Idle bool | Checked apply_spec bool | Installed bool

fun owns :: "phase \<Rightarrow> bool" where
  "owns (Idle b) = b"
| "owns (Checked spec b) = b"
| "owns (Installed b) = b"

record 'w world =
  wo_helper :: "'w helper"
  wo_clients :: "nat \<rightharpoonup> phase"
  wo_owner :: "nat option"

inductive hstep :: "('w, 'a) helper_env_scheme \<Rightarrow> 'w world \<Rightarrow> 'w world \<Rightarrow> bool" for env where
  connect: "wo_clients S c = None \<Longrightarrow> hstep env S (S\<lparr>wo_clients := (wo_clients S)(c \<mapsto> Idle False)\<rparr>)"
| check: "wo_clients S c = Some (Idle b) \<Longrightarrow> apply_check spec (hp_session (wo_helper S)) = Inr () \<Longrightarrow>
    hstep env S (S\<lparr>wo_clients := (wo_clients S)(c \<mapsto> Checked spec b)\<rparr>)"
| install: "wo_clients S c = Some (Checked spec b) \<Longrightarrow> apply_install env spec (hp_sys (wo_helper S)) = (Inr fd, w) \<Longrightarrow>
    hstep env S (S\<lparr>wo_helper := (wo_helper S)\<lparr>hp_sys := w\<rparr>, wo_clients := (wo_clients S)(c \<mapsto> Installed b)\<rparr>)"
| install_err: "wo_clients S c = Some (Checked spec b) \<Longrightarrow> apply_install env spec (hp_sys (wo_helper S)) = (Inl e, w) \<Longrightarrow>
    hstep env S (S\<lparr>wo_helper := (wo_helper S)\<lparr>hp_sys := w\<rparr>, wo_clients := (wo_clients S)(c \<mapsto> Idle b)\<rparr>)"
| commit: "wo_clients S c = Some (Installed b) \<Longrightarrow>
    hstep env S (S\<lparr>wo_helper := (wo_helper S)\<lparr>hp_session := Some []\<rparr>, wo_clients := (wo_clients S)(c \<mapsto> Idle True),
                   wo_owner := Some c\<rparr>)"
| teardown: "wo_clients S c = Some (Idle b) \<Longrightarrow>
    hstep env S (S\<lparr>wo_helper := teardown_session env (wo_helper S), wo_clients := (wo_clients S)(c \<mapsto> Idle False),
                   wo_owner := None\<rparr>)"
| cleanup: "wo_clients S c = Some (Idle b) \<Longrightarrow>
    hstep env S (S\<lparr>wo_helper := (wo_helper S)\<lparr>hp_sys := cleanup_stale env (hp_sys (wo_helper S))\<rparr>\<rparr>)"
| leave: "wo_clients S c = Some (Idle False) \<Longrightarrow> hstep env S (S\<lparr>wo_clients := (wo_clients S)(c := None)\<rparr>)"
| leave_owner: "wo_clients S c = Some (Idle True) \<Longrightarrow>
    hstep env S (S\<lparr>wo_helper := teardown_session env (wo_helper S), wo_clients := (wo_clients S)(c := None), wo_owner := None\<rparr>)"

inductive_cases hstepE: "hstep env S T"

definition helper_init :: "('w, 'a) helper_env_scheme \<Rightarrow> 'w world \<Rightarrow> bool" where
  "helper_init env S \<longleftrightarrow>
     (\<exists>w. S = \<lparr> wo_helper = \<lparr> hp_session = None, hp_sys = cleanup_stale env w \<rparr>, wo_clients = Map.empty, wo_owner = None \<rparr>)"

definition owner_inv :: "'w world \<Rightarrow> bool" where
  "owner_inv S \<longleftrightarrow>
     (hp_session (wo_helper S) = None \<longleftrightarrow> wo_owner S = None)
   \<and> (case wo_owner S of None \<Rightarrow> True | Some c \<Rightarrow> (\<exists>p. wo_clients S c = Some p \<and> owns p))"

definition idle_clean :: "('w \<Rightarrow> bool \<times> bytes option) \<Rightarrow> 'w world \<Rightarrow> bool" where
  "idle_clean net S \<longleftrightarrow>
     hp_session (wo_helper S) = None \<longrightarrow> (\<forall>c b. wo_clients S c \<noteq> Some (Installed b)) \<longrightarrow>
     net (hp_sys (wo_helper S)) = (False, None)"

lemma owner_inv_step: "hstep env S T \<Longrightarrow> owner_inv S \<Longrightarrow> owner_inv T"
  by (erule hstepE) (auto simp: owner_inv_def split: option.splits if_splits)

lemma owner_inv_init: "helper_init env S \<Longrightarrow> owner_inv S"
  by (auto simp: helper_init_def owner_inv_def)

interpretation ow: inductive_invariant "helper_init env" "hstep env" owner_inv
  by unfold_locales (blast intro: owner_inv_init owner_inv_step)+

lemma idle_clean_update:
  assumes "idle_clean net S" and "\<And>b. wo_clients S c \<noteq> Some (Installed b)"
    and "wo_helper T = wo_helper S" and "wo_clients T = (wo_clients S)(c := p)"
  shows "idle_clean net T"
  unfolding idle_clean_def
proof (intro impI)
  assume "hp_session (wo_helper T) = None" and t: "\<forall>c b. wo_clients T c \<noteq> Some (Installed b)"
  moreover have "wo_clients S d \<noteq> Some (Installed b)" for d b
    using t [rule_format, of d b] assms(2) [of b] assms(4) by (cases "d = c") simp_all
  ultimately show "net (hp_sys (wo_helper T)) = (False, None)" using assms(1,3) by (simp add: idle_clean_def)
qed

lemma idle_clean_step:
  assumes "machine_ok env net" and "journal_ok env" and "hstep env S T" and "idle_clean net S"
  shows "idle_clean net T"
  using assms(3)
proof (cases rule: hstep.cases)
  case (install_err c spec b e w)
  have "net w = (False, None)"
    using apply_install_net [OF assms(1) install_err(3)] apply_install_ok [OF assms(2) install_err(3)] by auto
  then show ?thesis using install_err by (simp add: idle_clean_def)
next
  case (connect c)
  then show ?thesis by (intro idle_clean_update [OF assms(4), of c]) simp_all
next
  case (check c b spec)
  then show ?thesis by (intro idle_clean_update [OF assms(4), of c]) simp_all
next
  case (leave c)
  then show ?thesis by (intro idle_clean_update [OF assms(4), of c]) simp_all
qed (use teardown_session_net [OF assms(1)] cleanup_stale_net [OF assms(1)] in
  \<open>auto simp: idle_clean_def split: if_splits\<close>)

lemma reachable_idle_clean:
  assumes "machine_ok env net" and "journal_ok env" and "reachable (helper_init env) (hstep env) S"
  shows "idle_clean net S"
  using assms(3)
proof (induction rule: reachable.induct)
  case (reach_init s)
  then show ?case using cleanup_stale_net [OF assms(1)] by (auto simp: helper_init_def idle_clean_def)
qed (rule idle_clean_step [OF assms(1,2)])


text \<open>A run on the example machine: client \<open>c\<close> connects and applies.\<close>

definition example_world :: "(nat \<rightharpoonup> phase) \<Rightarrow> nat option \<Rightarrow> (bool \<times> bytes option) world" where
  "example_world clients own =
     \<lparr> wo_helper = (case own of
         None \<Rightarrow> \<lparr> hp_session = None, hp_sys = (False, None) \<rparr>
       | Some _ \<Rightarrow> \<lparr> hp_session = Some [], hp_sys = (True, Some (as_bytes (spec_script (example_env True) example_spec))) \<rparr>),
       wo_clients = clients, wo_owner = own \<rparr>"

abbreviation "example_reach \<equiv> reachable (helper_init (example_env True)) (hstep (example_env True))"

lemma example_cleanup: "cleanup_stale (example_env True) w = (False, None)"
  using cleanup_stale_net [OF example_machine_ok] .

lemma example_teardown: "teardown_session (example_env True) s = \<lparr> hp_session = None, hp_sys = (False, None) \<rparr>"
  by (simp add: teardown_session_def Let_def example_cleanup)

lemma example_start: "example_reach (example_world Map.empty None)"
  by (rule reach_init) (auto simp: helper_init_def example_world_def example_cleanup)

lemma example_connect_step:
  "example_reach (example_world cl own) \<Longrightarrow> cl c = None \<Longrightarrow> example_reach (example_world (cl(c \<mapsto> Idle False)) own)"
  by (rule reach_step, assumption) (use hstep.connect [of "example_world cl own" c] in \<open>simp add: example_world_def\<close>)

lemma example_apply:
  assumes "example_reach (example_world cl None)" and "cl c = Some (Idle b)"
  shows "example_reach (example_world (cl(c \<mapsto> Idle True)) (Some c))"
proof -
  let ?S = "example_world cl None" and ?w = "(True, Some (as_bytes (spec_script (example_env True) example_spec)))"
  have 1: "example_reach (?S\<lparr>wo_clients := cl(c \<mapsto> Checked example_spec b)\<rparr>)"
    using reach_step [OF assms(1) hstep.check [of ?S c b example_spec]] assms(2)
    by (simp add: example_world_def apply_check_def example_spec_valid)
  have 2: "example_reach (?S\<lparr>wo_helper := \<lparr> hp_session = None, hp_sys = ?w \<rparr>, wo_clients := cl(c \<mapsto> Installed b)\<rparr>)"
    using reach_step [OF 1 hstep.install [of _ c example_spec b _ 3 ?w]] by (simp add: example_world_def example_install)
  show ?thesis using reach_step [OF 2 hstep.commit [of _ c b]] by (simp add: example_world_def)
qed


lemma stale_owner_ends_other_session:
  "\<exists>S T. example_reach S \<and> hstep (example_env True) S T \<and> wo_owner S = Some 2 \<and> wo_clients S 2 = Some (Idle True)
     \<and> wo_clients T = (wo_clients S)(1 := None) \<and> hp_session (wo_helper T) = None"
proof -
  have "example_reach (example_world [1 \<mapsto> Idle False] None)" by (rule example_connect_step [OF example_start]) simp
  from example_apply [OF this, of 1 False] have "example_reach (example_world [1 \<mapsto> Idle True] (Some 1))" by simp
  from example_connect_step [OF this, of 2] have "example_reach (example_world [1 \<mapsto> Idle True, 2 \<mapsto> Idle False] (Some 1))" by simp
  from reach_step [OF this hstep.teardown [of _ 2 False]]
  have "example_reach (example_world [1 \<mapsto> Idle True, 2 \<mapsto> Idle False] None)"
    by (simp add: example_world_def example_teardown)
  from example_apply [OF this, of 2 False]
  have r: "example_reach (example_world [1 \<mapsto> Idle True, 2 \<mapsto> Idle True] (Some 2))" (is "example_reach ?S") by simp
  have "hstep (example_env True) ?S (?S\<lparr>wo_helper := teardown_session (example_env True) (wo_helper ?S),
      wo_clients := (wo_clients ?S)(1 := None), wo_owner := None\<rparr>)"
    by (rule hstep.leave_owner) (simp add: example_world_def)
  then show ?thesis using r
    by (intro exI [of _ ?S] exI conjI) (assumption | simp add: example_world_def)+
qed

subsection \<open>A whole connection as a run\<close>

text \<open>
  The handler of a connection, run alone, is one of the runs above: every request is a sequence of steps of its client,
  and so is the connection, from its start to the clean-up after the loop.
\<close>

lemma teardown_cleanup_steps:
  assumes "wo_clients S c = Some (Idle b)"
  shows "\<exists>T. (hstep env)\<^sup>*\<^sup>* S T \<and> wo_helper T = (teardown_session env (wo_helper S))
      \<lparr>hp_sys := cleanup_stale env (hp_sys (teardown_session env (wo_helper S)))\<rparr> \<and> wo_clients T = (wo_clients S)(c \<mapsto> Idle False)"
proof -
  let ?A = "S\<lparr>wo_helper := teardown_session env (wo_helper S), wo_clients := (wo_clients S)(c \<mapsto> Idle False), wo_owner := None\<rparr>"
  have "hstep env S ?A" by (rule hstep.teardown [OF assms])
  moreover have "hstep env ?A (?A\<lparr>wo_helper := (wo_helper ?A)\<lparr>hp_sys := cleanup_stale env (hp_sys (wo_helper ?A))\<rparr>\<rparr>)"
    by (rule hstep.cleanup [of _ c False]) simp
  ultimately show ?thesis by (intro exI conjI) (erule converse_rtranclp_into_rtranclp, erule r_into_rtranclp, simp_all)
qed

lemma stepsI:
  "(hstep env)\<^sup>*\<^sup>* S T \<Longrightarrow> wo_helper T = s \<Longrightarrow> wo_clients T = cl \<Longrightarrow> \<exists>T. (hstep env)\<^sup>*\<^sup>* S T \<and> wo_helper T = s \<and> wo_clients T = cl"
  by blast

lemma steps1: "hstep env S A \<Longrightarrow> (hstep env)\<^sup>*\<^sup>* S A"
  by blast

lemma steps2: "hstep env S A \<Longrightarrow> hstep env A B \<Longrightarrow> (hstep env)\<^sup>*\<^sup>* S B"
  by (meson converse_rtranclp_into_rtranclp r_into_rtranclp)

lemma apply_steps:
  assumes c: "wo_clients S c = Some (Idle b)" and a: "helper_apply_spec env spec (wo_helper S) = (r, s')"
  shows "\<exists>T. (hstep env)\<^sup>*\<^sup>* S T \<and> wo_helper T = s' \<and> wo_clients T = (wo_clients S)(c \<mapsto> Idle (is_ok r \<or> b))"
proof (cases "apply_check spec (hp_session (wo_helper S))")
  case (Inl e)
  then have "r = Inl e" "s' = wo_helper S" using a by (auto simp: helper_apply_spec_def)
  then show ?thesis using c by (intro stepsI [of env S S]) (auto simp: fun_upd_idem)
next
  case (Inr u)
  let ?A = "S\<lparr>wo_clients := (wo_clients S)(c \<mapsto> Checked spec b)\<rparr>"
  have 1: "hstep env S ?A" using hstep.check [OF c] Inr by simp
  obtain x w where x: "apply_install env spec (hp_sys (wo_helper S)) = (x, w)" by fastforce
  show ?thesis
  proof (cases x)
    case (Inl e)
    let ?T = "S\<lparr>wo_helper := (wo_helper S)\<lparr>hp_sys := w\<rparr>, wo_clients := (wo_clients S)(c \<mapsto> Idle b)\<rparr>"
    have 2: "hstep env ?A ?T" using hstep.install_err [of ?A c spec b env e w] x Inl by simp
    have "r = Inl e" "s' = (wo_helper S)\<lparr>hp_sys := w\<rparr>" using a x Inr Inl by (simp_all add: helper_apply_spec_def)
    then show ?thesis by (intro stepsI [OF steps2 [OF 1 2]]) simp_all
  next
    case ok: (Inr f)
    let ?B = "S\<lparr>wo_helper := (wo_helper S)\<lparr>hp_sys := w\<rparr>, wo_clients := (wo_clients S)(c \<mapsto> Installed b)\<rparr>"
    let ?T = "?B\<lparr>wo_helper := (wo_helper ?B)\<lparr>hp_session := Some []\<rparr>, wo_clients := (wo_clients ?B)(c \<mapsto> Idle True), wo_owner := Some c\<rparr>"
    have 2: "hstep env ?A ?B" using hstep.install [of ?A c spec b env f w] x ok by simp
    have 3: "hstep env ?B ?T" by (rule hstep.commit) simp
    have "is_ok r" "s' = \<lparr> hp_session = Some [], hp_sys = w \<rparr>" using a x Inr ok by (auto simp: helper_apply_spec_def)
    then show ?thesis by (intro stepsI [OF rtranclp_trans [OF steps1 [OF 1] steps2 [OF 2 3]]]) simp_all
  qed
qed

lemma handle_request_steps:
  assumes c: "wo_clients S c = Some (Idle b)" and h: "handle_request env uid req b (wo_helper S) = (resp, fd, b', s')"
  shows "\<exists>T. (hstep env)\<^sup>*\<^sup>* S T \<and> wo_helper T = s' \<and> wo_clients T = (wo_clients S)(c \<mapsto> Idle b')"
proof (cases req)
  case (Ping v)
  then have "b' = b" "s' = wo_helper S" using h by (auto split: if_splits)
  then show ?thesis using c by (intro stepsI [of env S S]) (auto simp: fun_upd_idem)
next
  case Teardown
  then have "b' = False" "s' = teardown_session env (wo_helper S)" using h by auto
  then show ?thesis by (intro stepsI [OF steps1 [OF hstep.teardown [OF c]]]) simp_all
next
  case (Apply spec)
  obtain r t where r: "helper_apply_spec env spec (wo_helper S) = (r, t)" by fastforce
  have "t = s'" "b' = (is_ok r \<or> b)" using h Apply r by (auto split: sum.splits prod.splits)
  then show ?thesis using apply_steps [OF c r] by simp
qed (use h teardown_cleanup_steps [OF c, of env] in \<open>auto simp: Let_def\<close>)

lemma client_loop_steps:
  "wo_clients S c = Some (Idle b) \<Longrightarrow> client_loop env uid b sock sends (wo_helper S) = (r, b', s', outs) \<Longrightarrow>
     \<exists>T. (hstep env)\<^sup>*\<^sup>* S T \<and> wo_helper T = s' \<and> wo_clients T = (wo_clients S)(c \<mapsto> Idle b')"
proof (induction "length sock" arbitrary: S b sock sends r b' s' outs rule: less_induct)
  case less
  have done': "\<exists>T. (hstep env)\<^sup>*\<^sup>* S T \<and> wo_helper T = s' \<and> wo_clients T = (wo_clients S)(c \<mapsto> Idle b')"
    if "b' = b" "s' = wo_helper S" using that less.prems(1) by (intro stepsI [of env S S]) (auto simp: fun_upd_idem)
  obtain f sock' where f: "recv_frame ''helper recv client request'' sock = (f, sock')" by fastforce
  show ?case
  proof (cases f)
    case (Inl e)
    then show ?thesis using less.prems(2) f by (intro done') (simp_all add: client_loop.simps [of env uid b sock])
  next
    case (Inr p)
    then obtain payload x where p: "f = Inr (payload, x)" by (cases p) auto
    show ?thesis
    proof (cases "req_of_json (ipc env) payload")
      case (Inl e)
      then show ?thesis using less.prems(2) f p by (intro done') (simp_all add: client_loop.simps [of env uid b sock])
    next
      case (Inr req)
      obtain resp fd b1 s1 where h: "handle_request env uid req b (wo_helper S) = (resp, fd, b1, s1)" by (metis prod_cases4)
      obtain S1 where S1: "(hstep env)\<^sup>*\<^sup>* S S1" "wo_helper S1 = s1" "wo_clients S1 = (wo_clients S)(c \<mapsto> Idle b1)"
        using handle_request_steps [OF less.prems(1) h] by blast
      obtain x out where sj: "send_json env resp fd (case sends of [] \<Rightarrow> [] | r # _ \<Rightarrow> r) = (x, out)" by fastforce
      show ?thesis
      proof (cases "x = Some (Inr ())")
        case True
        obtain outs' where l: "client_loop env uid b1 sock' (tl sends) (wo_helper S1) = (r, b', s', outs')"
          using less.prems(2) f p Inr h sj True S1(2) by (subst (asm) client_loop.simps) (auto split: prod.splits)
        have "length sock' < length sock" using recv_frame_shorter f p by blast
        from less.hyps [OF this _ l] S1(1,3) show ?thesis by (auto intro: rtranclp_trans)
      next
        case False
        then have "b' = b1" "s' = s1"
          using less.prems(2) f p Inr h sj by (subst (asm) client_loop.simps; auto split: option.splits sum.splits)+
        then show ?thesis using S1 by blast
      qed
    qed
  qed
qed

lemma handle_client_steps:
  assumes "wo_clients S c = None" and "authorized env uid allow active"
    and "handle_client env allow active (Inr uid) sock sends (wo_helper S) = (Some r, s', outs)"
  shows "\<exists>T. (hstep env)\<^sup>*\<^sup>* S T \<and> wo_helper T = s' \<and> wo_clients T = wo_clients S"
proof -
  let ?A = "S\<lparr>wo_clients := (wo_clients S)(c \<mapsto> Idle False)\<rparr>"
  obtain x b t os where l: "client_loop env uid False sock sends (wo_helper S) = (x, b, t, os)" by (metis prod_cases4)
  have A: "hstep env S ?A" by (rule hstep.connect [OF assms(1)])
  obtain B where B: "(hstep env)\<^sup>*\<^sup>* ?A B" "wo_helper B = t" "wo_clients B = (wo_clients S)(c \<mapsto> Idle b)"
    using client_loop_steps [of ?A c False env uid sock sends x b t os] l by auto
  have S: "(hstep env)\<^sup>*\<^sup>* S B" by (rule rtranclp_trans [OF steps1 [OF A] B(1)])
  have s': "s' = (if b then teardown_session env t else t)"
    using assms(2,3) l by (auto simp: handle_client_def split: option.splits)
  show ?thesis
  proof (cases b)
    case True
    then have "hstep env B (B\<lparr>wo_helper := teardown_session env (wo_helper B), wo_clients := (wo_clients B)(c := None), wo_owner := None\<rparr>)"
      using B(3) by (intro hstep.leave_owner) simp
    from stepsI [OF rtranclp_trans [OF S steps1 [OF this]] refl refl] show ?thesis
      using B s' True assms(1) by (simp add: fun_upd_idem)
  next
    case False
    then have "hstep env B (B\<lparr>wo_clients := (wo_clients B)(c := None)\<rparr>)" using B(3) by (intro hstep.leave) simp
    from stepsI [OF rtranclp_trans [OF S steps1 [OF this]] refl refl] show ?thesis
      using B s' False assms(1) by (simp add: fun_upd_idem)
  qed
qed

lemma steps_idle_clean:
  "(hstep env)\<^sup>*\<^sup>* S T \<Longrightarrow> machine_ok env net \<Longrightarrow> journal_ok env \<Longrightarrow> idle_clean net S \<Longrightarrow> idle_clean net T"
  by (induction rule: rtranclp.induct) (auto intro: idle_clean_step)



lemma two_owners_race:
  "\<exists>S. example_reach S \<and> wo_clients S 1 = Some (Idle True) \<and> wo_clients S 2 = Some (Idle True)"
proof -
  let ?e = "example_env True" and ?sc = "Some (as_bytes (spec_script (example_env True) example_spec))"
  have "example_reach (example_world [1 \<mapsto> Idle False] None)" by (rule example_connect_step [OF example_start]) simp
  from example_connect_step [OF this, of 2] have "example_reach (example_world [1 \<mapsto> Idle False, 2 \<mapsto> Idle False] None)" by simp
  from reach_step [OF this hstep.check [of _ 2 False example_spec]]
  have "example_reach (example_world [1 \<mapsto> Idle False, 2 \<mapsto> Checked example_spec False] None)"
    by (simp add: example_world_def apply_check_def example_spec_valid)
  from example_apply [OF this, of 1 False]
  have "example_reach (example_world [1 \<mapsto> Idle True, 2 \<mapsto> Checked example_spec False] (Some 1))"
    by (simp add: fun_upd_twist)
  from reach_step [OF this hstep.install [of _ 2 example_spec False _ 3 "(True, ?sc)"]]
  have "example_reach (example_world [1 \<mapsto> Idle True, 2 \<mapsto> Installed False] (Some 1))"
    by (simp add: example_world_def example_install)
  from reach_step [OF this hstep.commit [of _ 2 False]]
  have "example_reach (example_world [1 \<mapsto> Idle True, 2 \<mapsto> Idle True] (Some 2))" by (simp add: example_world_def)
  then show ?thesis by (intro exI conjI) (assumption, simp_all add: example_world_def)
qed

end
