(* ===== verification/Tunnel.thy ===== *)
theory Tunnel
  imports Ss_Connector Smart_Ssh Vless Helper
begin

text \<open>
  The pieces of the tunnel engine (\<^verbatim>\<open>crates/tunnel/src/manager.rs\<close>) below the connection manager: opening the upstream of a profile
  with any protocol, the request that the privileged helper gets, and the texts shown to the user.
\<close>

subsection \<open>Errors\<close>

datatype tunnel_error =
    NotConnected | AlreadyConnected | UnsupportedProtocol string | TunSsh ssh_error | TunProxy socks_error
  | TunHelper tun_error | TunConfig string | TunSecrets string | TunOther string

fun show_socks_error :: "(io_kind \<Rightarrow> string) \<Rightarrow> socks_error \<Rightarrow> string" where
  "show_socks_error txt (SIo e) = ''I/O error: '' @ txt e"
| "show_socks_error txt (SProtocol e) = ''protocol error: '' @ e"
| "show_socks_error txt AuthRequired = ''authentication required''"
| "show_socks_error txt AuthFailed = ''authentication failed''"
| "show_socks_error txt CommandNotSupported = ''command not supported''"
| "show_socks_error txt AddressNotSupported = ''address type not supported''"
| "show_socks_error txt (Upstream e) = ''upstream error: '' @ e"
| "show_socks_error txt Stopped = ''server stopped''"

fun show_tunnel_error :: "(io_kind \<Rightarrow> string) \<Rightarrow> tunnel_error \<Rightarrow> string" where
  "show_tunnel_error txt NotConnected = ''not connected''"
| "show_tunnel_error txt AlreadyConnected = ''already connected''"
| "show_tunnel_error txt (UnsupportedProtocol e) = ''unsupported protocol for this phase: '' @ e"
| "show_tunnel_error txt (TunSsh e) = ''SSH error: '' @ show_ssh_error e"
| "show_tunnel_error txt (TunProxy e) = ''proxy error: '' @ show_socks_error txt e"
| "show_tunnel_error txt (TunHelper e) = ''privileged helper: '' @ show_tun_error txt e"
| "show_tunnel_error txt (TunConfig e) = ''config error: '' @ e"
| "show_tunnel_error txt (TunSecrets e) = ''secrets error: '' @ e"
| "show_tunnel_error txt (TunOther e) = e"

fun show_elevate_error :: "elevate_error \<Rightarrow> string" where
  "show_elevate_error Denied = ''Elevation denied: polkit authentication was cancelled or rejected.''"
| "show_elevate_error PkexecMissing =
     ''pkexec is not available on this system. Install polkitd and pkexec, or run: sudo easy-helper --allow-uid $(id -u)''"
| "show_elevate_error (HelperMissing p) = ''Helper binary not found at '' @ p @ ''. Reinstall the easy-connection package.''"
| "show_elevate_error (Spawn e) = ''Failed to start helper via pkexec: '' @ e"
| "show_elevate_error (SocketTimeout p) = ''Helper started but the control socket never appeared at '' @ p"
| "show_elevate_error (EOther e) = e"

text \<open>A call may also panic, or never return.\<close>

datatype tunnel_outcome = TErr tunnel_error | TPanic | THangs

subsection \<open>Opening the upstream\<close>

datatype upstream = UpSsh ssh_session | UpShadowsocks ss_connector | UpVless vless_connector

record ('w, 'json, 'key) upstream_env =
  ue_text :: "io_kind \<Rightarrow> string"
  ue_ssh :: "'w ssh_env"
  ue_link :: "'json smart_env"
  ue_smart :: smart_ssh_env
  ue_http :: "string \<Rightarrow> u16 \<Rightarrow> bool \<Rightarrow> string \<Rightarrow> exchange"
  ue_shim :: "string \<Rightarrow> u16 \<Rightarrow> shim_io option"
  ue_dial :: "'w dial_env"
  ue_vless :: "'w vless_env"
  ue_crypto :: "'key crypto"

definition on_net :: "('e \<Rightarrow> tunnel_outcome) \<Rightarrow> ('w, 'e, 'a) act \<Rightarrow> ('w net, tunnel_outcome, 'a) act" where
  "on_net g m s = (case on_sys m s of (r, s1) \<Rightarrow> (map_err g r, s1))"

fun smart_outcome_of :: "smart_outcome \<Rightarrow> tunnel_outcome" where
  "smart_outcome_of (SmartErr e) = TErr (TunSsh e)"
| "smart_outcome_of SmartPanic = TPanic"

abbreviation ssh_outcome :: "ssh_error \<Rightarrow> tunnel_outcome" where
  "ssh_outcome e \<equiv> TErr (TunSsh e)"

definition open_ssh :: "('w, 'json, 'key, 'a) upstream_env_scheme \<Rightarrow> file_store \<Rightarrow> string option \<Rightarrow> connection_config
    \<Rightarrow> ('w net, tunnel_outcome, ssh_session) act" where
  "open_ssh env st known_hosts profile =
     (case cfg_smart_link_secret profile of
        Some link_ref \<Rightarrow>
          act_bind (\<lambda>s. (map_err (\<lambda>e. TErr (TunOther (''Smart Config vault: '' @ show_secrets_error e)))
                           (get_secret (ue_ssh env) st link_ref (nw_sys s)), s)) (\<lambda>link.
          on_net smart_outcome_of
            (connect_smart_profile (ue_ssh env) (ue_link env) (ue_smart env) (ue_http env) (ue_shim env) profile link known_hosts))
      | None \<Rightarrow>
          act_bind (act_of (map_err ssh_outcome (ssh_options_from profile))) (\<lambda>opts0.
            let opts = (if so_known_hosts opts0 = None then opts0\<lparr>so_known_hosts := known_hosts\<rparr> else opts0) in
            if cfg_transport profile = Direct then on_net ssh_outcome (ssh_connect (ue_ssh env) opts st)
            else
              act_bind (act_err (\<lambda>e. TErr (TunOther (''SSH transport: '' @ show_transport_error (ue_text env) e)))
                  (dial (ue_dial env) (dial_from_profile (cfg_host profile) (cfg_port profile) (cfg_transport profile) (cfg_tls profile)))) (\<lambda>stream.
              on_net ssh_outcome (connect_over_transport (ue_ssh env) opts st stream))))"

definition open_upstream :: "('w, 'json, 'key, 'a) upstream_env_scheme \<Rightarrow> file_store \<Rightarrow> string option \<Rightarrow> connection_config
    \<Rightarrow> ('w net, tunnel_outcome, ssh_session option \<times> upstream) act" where
  "open_upstream env st known_hosts profile =
     (case cfg_protocol profile of
        PSsh \<Rightarrow> act_bind (open_ssh env st known_hosts profile) (\<lambda>ssh. act_return (Some ssh, UpSsh ssh))
      | PShadowsocks \<Rightarrow>
          (\<lambda>s. case ss_from_profile (ue_crypto env) (ue_ssh env) st profile (nw_sys s) of
                 None \<Rightarrow> (Inl THangs, s)
               | Some (Inl e) \<Rightarrow> (Inl (TErr (TunOther (show_ss_error (ue_text env) e))), s)
               | Some (Inr c) \<Rightarrow> (Inr (None, UpShadowsocks c), s))
      | PVless \<Rightarrow>
          act_bind (on_net (\<lambda>e. TErr (TunOther (show_vless_error e))) (vless_start (ue_vless env) profile))
            (\<lambda>c. act_return (None, UpVless c))
      | PSocks \<Rightarrow> act_fail (TErr (UnsupportedProtocol ''SOCKS is a local listener, not a remote protocol'')))"

subsection \<open>Texts\<close>

definition short_connect_error :: "string \<Rightarrow> string" where
  "short_connect_error detail = (case str_lines detail of [] \<Rightarrow> ''connect failed'' | l # _ \<Rightarrow> l)"

definition proxy_bind_addr :: "string \<Rightarrow> string" where
  "proxy_bind_addr listen' =
     (if listen' \<in> {[], ''127.0.0.1'', ''localhost''} then ''127.0.0.1''
      else if listen' = ''LAN'' \<or> listen' = ''lan'' then ''0.0.0.0''
      else listen')"

definition full_tunnel_error :: "string \<Rightarrow> string" where
  "full_tunnel_error detail =
     (let bullet = (\<lambda>s. BULLET @ '' '' @ s @ [LF]) in
      ''VPN / full-tunnel mode could not be started.'' @ [LF, LF] @ detail @ [LF, LF] @ ''Possible causes:'' @ [LF]
      @ bullet ''polkit elevation was denied or cancelled'' @ bullet ''pkexec / polkitd is not installed''
      @ bullet ''privileged helper failed to start'' @ bullet ''/dev/net/tun or nftables is unavailable'' @ [LF]
      @ ''The desktop app will prompt for authentication via pkexec when needed.'' @ [LF]
      @ ''Manual fallback:'' @ [LF] @ ''  sudo easy-helper --allow-uid $(id -u)'' @ [LF]
      @ ''or: sudo scripts/install-helper.sh'' @ [LF, LF] @ ''Proxy-only mode still works without the helper.'')"

fun dns_mode_text :: "dns_mode \<Rightarrow> string" where
  "dns_mode_text MSystem = ''system''"
| "dns_mode_text MTunnel = ''tunnel''"
| "dns_mode_text MCustom = ''custom''"
| "dns_mode_text MRemote = ''remote''"

definition policy_of :: "connection_config \<Rightarrow> dns_policy" where
  "policy_of profile = effective_policy True (parse_policy (dns_mode_text (dns_mode_of (cfg_dns profile))))"

definition servers_of :: "connection_config \<Rightarrow> string list" where
  "servers_of profile = resolve_servers (policy_of profile) (dns_servers (cfg_dns profile))"

definition dns_status_of :: "connection_config \<Rightarrow> bool \<Rightarrow> string" where
  "dns_status_of profile dns_via_udpgw =
     (let servers = join_with '', '' (servers_of profile) in
      case policy_of profile of
        System \<Rightarrow> ''system''
      | Custom \<Rightarrow>
          if dns_via_udpgw then ''custom via UDPGW ('' @ servers @ '')''
          else if dns_tcp (cfg_dns profile) = TcpOff then ''custom UDP only ('' @ servers @ '')''
          else ''custom DNS-over-TCP ('' @ servers @ '')''
      | _ \<Rightarrow>
          if dns_via_udpgw then ''tunnel UDPGW DNS ('' @ servers @ '')''
          else (case dns_tcp (cfg_dns profile) of
                  TcpOff \<Rightarrow> ''tunnel DNS unavailable (dns_over_tcp=off, no UDPGW)''
                | TcpOn \<Rightarrow> ''tunnel DNS-over-TCP forced ('' @ servers @ '')''
                | TcpAuto \<Rightarrow> ''tunnel DNS-over-TCP fallback ('' @ servers @ '')''))"

definition udp_note_of :: "connection_config \<Rightarrow> bool \<Rightarrow> string \<Rightarrow> string" where
  "udp_note_of profile udpgw_ok status =
     (if udpgw_ok
      then ''UDP is redirected to :'' @ show_nat (unat UDP_PROXY_PORT) @ '' and carried over SSH via UDPGW ('' @ status
        @ ''). Not every QUIC/game protocol survives this path.''
      else if gw_enabled (cfg_udpgw profile)
      then ''UDPGW is enabled but not connected ('' @ status @ ''). Leftover UDP is rejected so apps can fall back to TCP.''
      else ''UDPGW is off. Leftover UDP is rejected; DNS uses DNS-over-TCP. Enable UDPGW if the server runs badvpn-udpgw.'')"

subsection \<open>The request to the helper\<close>

text \<open>The derived order of \<^verbatim>\<open>IpAddr\<close>: IPv4 before IPv6, and each by its octets.\<close>

fun ip_rank :: "ip_addr \<Rightarrow> nat \<times> nat" where
  "ip_rank (IpV4 a) = (0, unat a)"
| "ip_rank (IpV6 a) = (1, unat a)"

lemma ip_rank_inject [simp]: "ip_rank x = ip_rank y \<longleftrightarrow> x = y"
  by (cases x; cases y) (simp_all add: word_unat_eq_iff)

instantiation ip_addr :: linorder
begin

definition less_eq_ip_addr :: "ip_addr \<Rightarrow> ip_addr \<Rightarrow> bool" where
  "less_eq_ip_addr x y \<longleftrightarrow> fst (ip_rank x) < fst (ip_rank y) \<or> (fst (ip_rank x) = fst (ip_rank y) \<and> snd (ip_rank x) \<le> snd (ip_rank y))"

definition less_ip_addr :: "ip_addr \<Rightarrow> ip_addr \<Rightarrow> bool" where
  "less_ip_addr x y \<longleftrightarrow> x \<le> y \<and> \<not> y \<le> x"

instance
proof
  fix x y z :: ip_addr
  show "x < y \<longleftrightarrow> x \<le> y \<and> \<not> y \<le> x" by (rule less_ip_addr_def)
  show "x \<le> x" by (simp add: less_eq_ip_addr_def)
  show "x \<le> y \<Longrightarrow> y \<le> z \<Longrightarrow> x \<le> z" by (auto simp: less_eq_ip_addr_def)
  show "x \<le> y \<Longrightarrow> y \<le> x \<Longrightarrow> x = y" by (auto simp: less_eq_ip_addr_def prod_eq_iff simp flip: ip_rank_inject)
  show "x \<le> y \<or> y \<le> x" by (auto simp: less_eq_ip_addr_def)
qed

end

definition resolve_server_ips :: "('w, 'a) dial_env_scheme \<Rightarrow> string \<Rightarrow> u16 \<Rightarrow> ('w, tunnel_outcome, ip_addr list) act" where
  "resolve_server_ips env host port w =
     (case lookup_host env host port w of
        (Inl e, w1) \<Rightarrow>
          (Inl (TErr (TunOther (''Could not resolve '' @ host @ '':'' @ show_nat (unat port) @ '' before applying routes: '' @ e))), w1)
      | (Inr addrs, w1) \<Rightarrow>
          let ips = remdups_adj (sort (map sock_ip addrs)) in
          if ips = [] then (Inl (TErr (TunOther (''No addresses resolved for '' @ host))), w1) else (Inr ips, w1))"

fun bypass_domains :: "('w, 'a) dial_env_scheme \<Rightarrow> string list \<Rightarrow> 'w \<Rightarrow> ip_net list \<times> 'w" where
  "bypass_domains env [] w = ([], w)"
| "bypass_domains env (domain # ds) w =
     (let host = trim_end_dots (trim domain) in
      if host = [] then bypass_domains env ds w
      else case lookup_host env host 0 w of
        (Inl e, w1) \<Rightarrow> bypass_domains env ds w1
      | (Inr addrs, w1) \<Rightarrow> (case bypass_domains env ds w1 of (nets, w2) \<Rightarrow> (map (host_net \<circ> sock_ip) addrs @ nets, w2)))"

definition split_bypass_nets :: "config_env \<Rightarrow> ('w, 'a) dial_env_scheme \<Rightarrow> connection_config \<Rightarrow> 'w \<Rightarrow> ip_net list \<times> 'w" where
  "split_bypass_nets cenv env profile w =
     (case bypass_domains env (cfg_bypass_domains profile) w of
        (nets, w1) \<Rightarrow> (List.map_filter (ipnet_parse cenv) (cfg_bypass_cidrs profile) @ nets, w1))"

definition tunnel_spec :: "connection_config \<Rightarrow> ip_addr list \<Rightarrow> ip_net list \<Rightarrow> bool \<Rightarrow> apply_spec" where
  "tunnel_spec profile server_ips extra udpgw_ok =
     \<lparr> sp_session_id = cfg_id profile, sp_tun_name = TUN_NAME, sp_tun_addr = TUN_ADDR, sp_tun_prefix = TUN_PREFIX,
       sp_mtu = unwrap_or (cfg_mtu profile) DEFAULT_MTU, sp_server_ips = server_ips,
       sp_bypass_private = (cfg_bypass_private profile \<or> cfg_routing_mode profile = SplitTunnel), sp_extra_bypass = extra,
       sp_ipv6 = cfg_ipv6 profile, sp_kill_switch = cfg_kill_switch profile, sp_transproxy_port = TRANSPROXY_PORT,
       sp_dns_port = DNS_PROXY_PORT, sp_dns_mode = policy_as_str (policy_of profile), sp_dns_servers = servers_of profile,
       sp_udp_port = (if udpgw_ok then UDP_PROXY_PORT else 0) \<rparr>"

subsection \<open>From the profile to the packets\<close>

lemma distinct_remdups_adj_sorted: "sorted xs \<Longrightarrow> distinct (remdups_adj xs)"
  by (induction xs rule: remdups_adj.induct) auto

lemma resolved_ips:
  assumes "resolve_server_ips env host port w = (Inr ips, w1)"
  shows "\<exists>addrs. lookup_host env host port w = (Inr addrs, w1) \<and> ips \<noteq> [] \<and> distinct ips \<and> sorted ips \<and> set ips = sock_ip ` set addrs"
proof -
  obtain addrs where a: "lookup_host env host port w = (Inr addrs, w1)" "ips = remdups_adj (sort (map sock_ip addrs))" "ips \<noteq> []"
    using assms by (auto simp: resolve_server_ips_def Let_def split: prod.splits sum.splits if_splits)
  have "distinct ips" "sorted ips" unfolding a(2) by (simp_all add: distinct_remdups_adj_sorted sorted_remdups_adj)
  then show ?thesis using a by auto
qed

lemma valid_mtu: "valid_config env cfg \<Longrightarrow> cfg_mtu cfg = Some mtu \<Longrightarrow> 576 \<le> mtu \<and> mtu \<le> 9000"
  by (auto simp: valid_config_groups endpoint_guards_def)

lemma spec_valid:
  assumes "valid_config cenv profile" and "ips \<noteq> []"
  shows "spec_validate (tunnel_spec profile ips extra ok) = Inr ()"
proof -
  have "576 \<le> unwrap_or (cfg_mtu profile) DEFAULT_MTU \<and> unwrap_or (cfg_mtu profile) DEFAULT_MTU \<le> 9000"
    using valid_mtu [OF assms(1)] by (cases "cfg_mtu profile") (simp_all add: unwrap_or_def DEFAULT_MTU_def)
  then show ?thesis using assms(2)
    by (simp add: spec_validate_def tunnel_spec_def TUN_PREFIX_def TRANSPROXY_PORT_def DNS_PROXY_PORT_def)
qed

lemma policy_tunnelled: "policy_of profile \<noteq> System" "servers_of profile \<noteq> []"
  by (auto simp: policy_of_def servers_of_def effective_policy_def resolve_servers_def default_dns_servers_def)

lemma exempt_server: "pk_dst p \<in> set ips \<Longrightarrow> exempt ips bypass p"
  unfolding exempt_def exempt_matches_def list_ex_iff by (rule bexI [of _ "MHost (pk_dst p)"]) simp_all



end
