(* ===== verification/Manager.thy ===== *)
theory Manager
  imports Tunnel
begin

text \<open>
  The connection manager (\<^verbatim>\<open>crates/tunnel/src/manager.rs\<close>, \<^verbatim>\<open>state.rs\<close>). The process is the machine with the resources that the manager has
  acquired: tasks, each with the token that ends it and the socket it owns, SSH sessions, VLESS engines and connections to the helper. A
  socket that one of its tasks owns cannot be bound again.
\<close>

subsection \<open>Snapshots\<close>

datatype connection_state =
    Disconnected | Connecting | Authenticating | EstablishingTunnel | Connected | Degraded | Reconnecting | Disconnecting | StateError

datatype connection_phase =
    PhIdle | PhResolvingServer | PhEstablishingTcp | PhNegotiatingTransport | PhAuthenticating | PhEstablishingTunnel
  | PhConfiguringRoutes | PhConfiguringDns | PhReady | PhReconnecting u32 | PhFailed string

record traffic_stats =
  ts_down :: u64
  ts_up :: u64
  ts_rate_down :: u64
  ts_rate_up :: u64
  ts_flows :: u64

record snapshot =
  sn_state :: connection_state
  sn_phase :: connection_phase
  sn_profile_id :: "uuid option"
  sn_profile_name :: "string option"
  sn_socks :: "string option"
  sn_http :: "string option"
  sn_since :: "timestamp option"
  sn_error :: "string option"
  sn_error_detail :: "string option"
  sn_stats :: traffic_stats
  sn_ipv6 :: bool
  sn_routing_mode :: string
  sn_dns_status :: string
  sn_udpgw_status :: string
  sn_server_label :: "string option"
  sn_latency :: "u64 option"
  sn_tun_name :: "string option"
  sn_helper_ok :: bool
  sn_udp_note :: "string option"
  sn_kill_switch :: bool

definition zero_traffic :: traffic_stats where
  "zero_traffic = \<lparr> ts_down = 0, ts_up = 0, ts_rate_down = 0, ts_rate_up = 0, ts_flows = 0 \<rparr>"

definition default_snapshot :: snapshot where
  "default_snapshot =
     \<lparr> sn_state = Disconnected, sn_phase = PhIdle, sn_profile_id = None, sn_profile_name = None, sn_socks = None, sn_http = None,
       sn_since = None, sn_error = None, sn_error_detail = None, sn_stats = zero_traffic, sn_ipv6 = False, sn_routing_mode = ''proxy_only'',
       sn_dns_status = ''system'', sn_udpgw_status = ''disabled'', sn_server_label = None, sn_latency = None, sn_tun_name = None,
       sn_helper_ok = False, sn_udp_note = None, sn_kill_switch = False \<rparr>"

subsection \<open>The process\<close>

datatype socket_kind = SkTcp | SkUdp

datatype task =
    ProxyLoop string u16 | TcpIntercept bool | DnsIntercept bool | UdpIntercept bool | UdpReplies | TunDrain | UdpgwClient | StatsPoller

definition loopback :: "bool \<Rightarrow> string" where
  "loopback v6 = (if v6 then ''::1'' else ''127.0.0.1'')"

fun task_socket :: "task \<Rightarrow> (socket_kind \<times> string \<times> u16) option" where
  "task_socket (ProxyLoop addr port) = Some (SkTcp, addr, port)"
| "task_socket (TcpIntercept v6) = Some (SkTcp, loopback v6, TRANSPROXY_PORT)"
| "task_socket (DnsIntercept v6) = Some (SkUdp, loopback v6, DNS_PROXY_PORT)"
| "task_socket (UdpIntercept v6) = Some (SkUdp, loopback v6, UDP_PROXY_PORT)"
| "task_socket _ = None"

datatype resource = RTask nat task | RSsh nat | REngine vless_connector | RHelper nat

record 'w proc =
  pr_net :: "'w net"
  pr_held :: "resource list"
  pr_next :: nat

record ('w, 'json, 'key) tunnel_env = "('w, 'json, 'key) upstream_env" +
  te_config :: config_env
  te_bind :: "socket_kind \<Rightarrow> string \<Rightarrow> u16 \<Rightarrow> 'w \<Rightarrow> (io_kind + string) \<times> 'w"
  te_elevate :: "'w \<Rightarrow> elevate_env \<times> 'w"
  te_helper_connect :: "'w \<Rightarrow> (tun_error + nat) \<times> 'w"
  te_ipc :: ipc_json
  te_sock :: "nat \<Rightarrow> helper_request \<Rightarrow> 'w \<Rightarrow> ((io_kind + nat) list \<times> (msg list \<Rightarrow> rsock)) \<times> 'w"
  te_tun_io :: "nat \<Rightarrow> 'w \<Rightarrow> (tun_error + unit) \<times> 'w"
  te_ssh_disconnect :: "nat \<Rightarrow> 'w \<Rightarrow> 'w"
  te_now :: "'w \<Rightarrow> timestamp"

definition on_proc :: "('w \<Rightarrow> 'r \<times> 'w) \<Rightarrow> 'w proc \<Rightarrow> 'r \<times> 'w proc" where
  "on_proc m s = (case on_sys m (pr_net s) of (r, n) \<Rightarrow> (r, s\<lparr>pr_net := n\<rparr>))"

definition proc_act :: "('e \<Rightarrow> tunnel_outcome) \<Rightarrow> ('w, 'e, 'a) act \<Rightarrow> ('w proc, tunnel_outcome, 'a) act" where
  "proc_act g m s = (case on_proc m s of (r, s1) \<Rightarrow> (map_err g r, s1))"

definition hold :: "resource \<Rightarrow> 'w proc \<Rightarrow> 'w proc" where
  "hold r s = s\<lparr>pr_held := pr_held s @ [r]\<rparr>"

definition release :: "resource \<Rightarrow> 'w proc \<Rightarrow> 'w proc" where
  "release r s = s\<lparr>pr_held := removeAll r (pr_held s)\<rparr>"

text \<open>Cancelling a token ends its tasks, and with them their sockets.\<close>

definition cancel :: "nat \<Rightarrow> 'w proc \<Rightarrow> 'w proc" where
  "cancel tok s = s\<lparr>pr_held := filter (\<lambda>r. case r of RTask t _ \<Rightarrow> t \<noteq> tok | _ \<Rightarrow> True) (pr_held s)\<rparr>"

definition new_token :: "'w proc \<Rightarrow> nat \<times> 'w proc" where
  "new_token s = (pr_next s, s\<lparr>pr_next := Suc (pr_next s)\<rparr>)"

definition bound_sockets :: "'w proc \<Rightarrow> (socket_kind \<times> string \<times> u16) list" where
  "bound_sockets s = List.map_filter (\<lambda>r. case r of RTask _ t \<Rightarrow> task_socket t | _ \<Rightarrow> None) (pr_held s)"

definition bind_socket :: "('w, 'json, 'key, 'a) tunnel_env_scheme \<Rightarrow> socket_kind \<Rightarrow> string \<Rightarrow> u16 \<Rightarrow> 'w proc \<Rightarrow> (io_kind + string) \<times> 'w proc" where
  "bind_socket env kind addr port s =
     (if (kind, addr, port) \<in> set (bound_sockets s) then (Inl OtherIo, s) else on_proc (te_bind env kind addr port) s)"

definition spawn_task :: "nat \<Rightarrow> task \<Rightarrow> 'w proc \<Rightarrow> 'w proc" where
  "spawn_task tok t = hold (RTask tok t)"

text \<open>A task whose socket may be unavailable: a failure is only logged.\<close>

definition spawn_bound :: "('w, 'json, 'key, 'a) tunnel_env_scheme \<Rightarrow> nat \<Rightarrow> task \<Rightarrow> 'w proc \<Rightarrow> 'w proc" where
  "spawn_bound env tok t s =
     (case task_socket t of
        None \<Rightarrow> spawn_task tok t s
      | Some (kind, addr, port) \<Rightarrow>
          (case bind_socket env kind addr port s of (Inl e, s1) \<Rightarrow> s1 | (Inr _, s1) \<Rightarrow> spawn_task tok t s1))"

text \<open>The proxy server: both listeners, then both loops.\<close>

record proxy_handles =
  ph_token :: nat
  ph_socks :: string
  ph_http :: string

definition proxy_start :: "('w, 'json, 'key, 'a) tunnel_env_scheme \<Rightarrow> string \<Rightarrow> u16 \<Rightarrow> u16 \<Rightarrow> ('w proc, tunnel_outcome, proxy_handles) act" where
  "proxy_start env addr socks http =
     act_bind (act_err (TErr \<circ> TunProxy \<circ> SIo) (bind_socket env SkTcp addr socks)) (\<lambda>socks_addr.
     act_bind (act_err (TErr \<circ> TunProxy \<circ> SIo) (if http = socks then act_fail OtherIo else bind_socket env SkTcp addr http)) (\<lambda>http_addr s.
       case new_token s of (tok, s1) \<Rightarrow>
         (Inr \<lparr> ph_token = tok, ph_socks = socks_addr, ph_http = http_addr \<rparr>,
          spawn_task tok (ProxyLoop addr http) (spawn_task tok (ProxyLoop addr socks) s1))))"

subsection \<open>UDPGW and the full tunnel\<close>

definition UDPGW_DEFAULT_HOST :: string where "UDPGW_DEFAULT_HOST = ''127.0.0.1''"
definition UDPGW_DEFAULT_PORT :: u16 where "UDPGW_DEFAULT_PORT = 7300"

text \<open>The client runs over the SSH session of the tunnel; setting it up on an open stream always succeeds.\<close>

definition start_udpgw_client :: "('w, 'json, 'key, 'a) tunnel_env_scheme \<Rightarrow> connection_config \<Rightarrow> ssh_session \<Rightarrow> nat
    \<Rightarrow> 'w proc \<Rightarrow> (bool \<times> string) \<times> 'w proc" where
  "start_udpgw_client env profile ssh tok s =
     (if \<not> gw_enabled (cfg_udpgw profile) then ((False, ''disabled''), s)
      else let host = (if gw_host (cfg_udpgw profile) = [] then UDPGW_DEFAULT_HOST else gw_host (cfg_udpgw profile));
               port = (if gw_port (cfg_udpgw profile) = 0 then UDPGW_DEFAULT_PORT else gw_port (cfg_udpgw profile));
               at = host @ '':'' @ show_nat (unat port) in
        case on_proc (ssh_upstream_connect (ue_ssh env) ssh host port) s of
          (Inr stream, s1) \<Rightarrow> ((True, ''connected '' @ at), spawn_task tok UdpgwClient s1)
        | (Inl e, s1) \<Rightarrow>
            ((False, ''unreachable '' @ at @ '' ('' @ show_socks_error (ue_text env) (Upstream e)
               @ ''). Start badvpn-udpgw on the SSH host (often 127.0.0.1:7300).''), s1))"

text \<open>A request on the connection to the helper; a socket that never becomes ready makes the call hang.\<close>

definition helper_call :: "('w, 'json, 'key, 'a) tunnel_env_scheme \<Rightarrow> nat \<Rightarrow> helper_request
    \<Rightarrow> ((io_kind + nat) list \<Rightarrow> (msg list \<Rightarrow> rsock) \<Rightarrow> (tun_error + 'r) option) \<Rightarrow> ('w proc, tunnel_outcome, 'r) act" where
  "helper_call env h req call s =
     (case on_proc (te_sock env h req) s of ((results, peer), s1) \<Rightarrow>
        (case call results peer of
           None \<Rightarrow> (Inl THangs, s1)
         | Some r \<Rightarrow> (map_err (TErr \<circ> TunHelper) r, s1)))"

record started_tun =
  st_helper :: nat
  st_stop :: nat
  st_dns_status :: string
  st_udpgw_status :: string
  st_udp_note :: string
  st_udpgw_ok :: bool

definition start_udp_tasks :: "('w, 'json, 'key, 'a) tunnel_env_scheme \<Rightarrow> connection_config \<Rightarrow> nat \<Rightarrow> 'w proc \<Rightarrow> 'w proc" where
  "start_udp_tasks env profile tok s =
     (let s1 = spawn_bound env tok (UdpIntercept False) s;
          s2 = (if cfg_ipv6 profile then spawn_bound env tok (UdpIntercept True) s1 else s1) in
      spawn_task tok UdpReplies s2)"

definition start_intercepts :: "('w, 'json, 'key, 'a) tunnel_env_scheme \<Rightarrow> connection_config \<Rightarrow> bool \<Rightarrow> nat \<Rightarrow> 'w proc \<Rightarrow> 'w proc" where
  "start_intercepts env profile udpgw_ok tok s =
     (let s1 = spawn_task tok (DnsIntercept False) (spawn_task tok (TcpIntercept False) s);
          s2 = (if cfg_ipv6 profile
                then spawn_bound env tok (DnsIntercept True) (spawn_bound env tok (TcpIntercept True) s1) else s1) in
      if udpgw_ok then start_udp_tasks env profile tok s2 else s2)"

definition bind_intercept :: "('w, 'json, 'key, 'a) tunnel_env_scheme \<Rightarrow> task \<Rightarrow> string \<Rightarrow> ('w proc, tunnel_outcome, unit) act" where
  "bind_intercept env t what =
     (case task_socket t of
        None \<Rightarrow> act_return ()
      | Some (kind, addr, port) \<Rightarrow>
          act_bind (act_err (\<lambda>e. TErr (TunOther (''cannot bind '' @ what @ '' '' @ addr @ '':'' @ show_nat (unat port) @ '': '' @ ue_text env e)))
            (bind_socket env kind addr port)) (\<lambda>_. act_return ()))"

text \<open>
  \<open>holding\<close> runs an action with a resource that is dropped when the action fails. An action that hangs or panics keeps what it has.
\<close>

definition holding :: "resource \<Rightarrow> ('w proc, tunnel_outcome, 'r) act \<Rightarrow> ('w proc, tunnel_outcome, 'r) act" where
  "holding r m s = (case m (hold r s) of (Inl (TErr e), s1) \<Rightarrow> (Inl (TErr e), release r s1) | other \<Rightarrow> other)"

definition apply_tunnel :: "('w, 'json, 'key, 'a) tunnel_env_scheme \<Rightarrow> connection_config \<Rightarrow> nat \<Rightarrow> ip_addr list \<Rightarrow> bool \<Rightarrow> nat
    \<Rightarrow> ('w proc, tunnel_outcome, unit) act" where
  "apply_tunnel env profile h server_ips udpgw_ok tok s =
     (case on_proc (split_bypass_nets (te_config env) (ue_dial env) profile) s of (extra, s1) \<Rightarrow>
        let spec = tunnel_spec profile server_ips extra udpgw_ok in
        case helper_call env h (Apply spec) (\<lambda>results peer. client_apply (te_ipc env) results peer spec) s1 of
          (Inl (TErr e), s2) \<Rightarrow> (Inl (TErr e), cancel tok s2)
        | (Inl other, s2) \<Rightarrow> (Inl other, s2)
        | (Inr (msg, fd), s2) \<Rightarrow>
            (case on_proc (te_tun_io env fd) s2 of
               (Inl e, s3) \<Rightarrow> (Inl (TErr (TunHelper e)), s3)
             | (Inr _, s3) \<Rightarrow> (Inr (), spawn_task tok TunDrain s3)))"

text \<open>The tasks of the tunnel, then the routes; both listeners are already bound.\<close>

definition tunnel_udpgw :: "('w, 'json, 'key, 'a) tunnel_env_scheme \<Rightarrow> connection_config \<Rightarrow> upstream \<Rightarrow> nat
    \<Rightarrow> 'w proc \<Rightarrow> (bool \<times> string) \<times> 'w proc" where
  "tunnel_udpgw env profile up tok s =
     (case (cfg_protocol profile, up) of
        (PSsh, UpSsh ssh) \<Rightarrow> start_udpgw_client env profile ssh tok s
      | _ \<Rightarrow> ((False, ''n/a (UDPGW is SSH-only)''), s))"

definition tunnel_tasks :: "('w, 'json, 'key, 'a) tunnel_env_scheme \<Rightarrow> connection_config \<Rightarrow> upstream \<Rightarrow> nat \<Rightarrow> ip_addr list
    \<Rightarrow> ('w proc, tunnel_outcome, started_tun) act" where
  "tunnel_tasks env profile up h server_ips s =
     (case new_token s of (tok, s1) \<Rightarrow>
      case tunnel_udpgw env profile up tok s1 of
        ((udpgw_ok, status), s2) \<Rightarrow>
          act_bind (apply_tunnel env profile h server_ips udpgw_ok tok) (\<lambda>_. act_return
            \<lparr> st_helper = h, st_stop = tok, st_dns_status = dns_status_of profile (gw_transparent_dns (cfg_udpgw profile) \<and> udpgw_ok),
              st_udpgw_status = status, st_udp_note = udp_note_of profile udpgw_ok status, st_udpgw_ok = udpgw_ok \<rparr>)
            (start_intercepts env profile udpgw_ok tok s2))"

definition tunnel_with_helper :: "('w, 'json, 'key, 'a) tunnel_env_scheme \<Rightarrow> connection_config \<Rightarrow> upstream \<Rightarrow> nat \<Rightarrow> ip_addr list
    \<Rightarrow> ('w proc, tunnel_outcome, started_tun) act" where
  "tunnel_with_helper env profile up h server_ips =
     act_bind (helper_call env h (Ping IPC_VERSION) (client_ping (te_ipc env))) (\<lambda>_.
     act_bind (bind_intercept env (TcpIntercept False) ''transparent TCP proxy'') (\<lambda>_.
     act_bind (bind_intercept env (DnsIntercept False) ''DNS intercept'') (\<lambda>_.
       tunnel_tasks env profile up h server_ips)))"

definition helper_ready :: "('w, 'json, 'key, 'a) tunnel_env_scheme \<Rightarrow> ('w proc, tunnel_outcome, unit) act" where
  "helper_ready env s =
     (case on_proc (te_elevate env) s of (elevate, s1) \<Rightarrow>
        (map_err (\<lambda>e. TErr (TunHelper (HelperUnavailable (show_elevate_error e)))) (fst (ensure_helper_running elevate)), s1))"

definition start_full_tunnel :: "('w, 'json, 'key, 'a) tunnel_env_scheme \<Rightarrow> connection_config \<Rightarrow> upstream
    \<Rightarrow> ('w proc, tunnel_outcome, started_tun) act" where
  "start_full_tunnel env profile up =
     act_bind (helper_ready env) (\<lambda>_.
     act_bind (proc_act id (resolve_server_ips (ue_dial env) (cfg_host profile) (cfg_port profile))) (\<lambda>server_ips.
     act_bind (proc_act (TErr \<circ> TunHelper) (te_helper_connect env)) (\<lambda>h.
       holding (RHelper h) (tunnel_with_helper env profile up h server_ips))))"

subsection \<open>The manager\<close>

record active_session =
  as_ssh :: "ssh_session option"
  as_proxies :: proxy_handles
  as_helper :: "nat option"
  as_tun_stop :: "nat option"
  as_stats :: nat

record 'w mgr =
  mg_snapshot :: snapshot
  mg_sent :: "snapshot list"
  mg_active :: "active_session option"
  mg_proc :: "'w proc"

definition mgr_new :: "'w net \<Rightarrow> 'w mgr" where
  "mgr_new net' = \<lparr> mg_snapshot = default_snapshot, mg_sent = [], mg_active = None, mg_proc = \<lparr> pr_net = net', pr_held = [], pr_next = 0 \<rparr> \<rparr>"

definition publish :: "snapshot \<Rightarrow> 'w mgr \<Rightarrow> 'w mgr" where
  "publish next' m = m\<lparr>mg_snapshot := next', mg_sent := mg_sent m @ [next']\<rparr>"

definition set_phase :: "connection_state \<Rightarrow> connection_phase \<Rightarrow> 'w mgr \<Rightarrow> 'w mgr" where
  "set_phase state phase m = publish ((mg_snapshot m)\<lparr>sn_state := state, sn_phase := phase\<rparr>) m"

definition EM_DASH :: string where "EM_DASH = [CHR 0xE2, CHR 0x80, CHR 0x94]"

fun routing_text :: "routing_mode \<Rightarrow> string" where
  "routing_text ProxyOnly = ''proxy_only''"
| "routing_text FullTunnel = ''full_tunnel''"
| "routing_text SplitTunnel = ''split_tunnel''"

definition endpoint_label :: "string \<Rightarrow> u16 \<Rightarrow> string" where
  "endpoint_label host port = host @ '':'' @ show_nat (unat port)"

definition wants_tun :: "connection_config \<Rightarrow> bool" where
  "wants_tun profile \<longleftrightarrow> cfg_routing_mode profile \<noteq> ProxyOnly"

definition connecting_snapshot :: "connection_config \<Rightarrow> snapshot" where
  "connecting_snapshot profile =
     default_snapshot\<lparr>sn_state := Connecting, sn_phase := PhResolvingServer, sn_profile_id := Some (cfg_id profile),
       sn_profile_name := Some (cfg_name profile), sn_server_label := Some (endpoint_label (cfg_host profile) (cfg_port profile)),
       sn_ipv6 := cfg_ipv6 profile, sn_routing_mode := routing_text (cfg_routing_mode profile),
       sn_dns_status := dns_mode_text (dns_mode_of (cfg_dns profile)),
       sn_udpgw_status := (if gw_enabled (cfg_udpgw profile) then ''connecting'' else ''disabled''),
       sn_kill_switch := cfg_kill_switch profile,
       sn_udp_note :=
         (if wants_tun profile then Some ''TCP is intercepted. UDP needs a remote badvpn-udpgw (enable it on the profile).'' else None)\<rparr>"

definition failed_snapshot :: "snapshot \<Rightarrow> string \<Rightarrow> string \<Rightarrow> string \<Rightarrow> snapshot" where
  "failed_snapshot snap detail short long =
     snap\<lparr>sn_state := StateError, sn_phase := PhFailed detail, sn_error := Some short, sn_error_detail := Some long\<rparr>"

definition in_proc :: "('w proc \<Rightarrow> 'r \<times> 'w proc) \<Rightarrow> 'w mgr \<Rightarrow> 'r \<times> 'w mgr" where
  "in_proc f m = (case f (mg_proc m) of (r, s) \<Rightarrow> (r, m\<lparr>mg_proc := s\<rparr>))"

definition do_proc :: "('w proc \<Rightarrow> 'w proc) \<Rightarrow> 'w mgr \<Rightarrow> 'w mgr" where
  "do_proc f m = m\<lparr>mg_proc := f (mg_proc m)\<rparr>"

text \<open>
  What an upstream owns: an SSH session ends when it is disconnected. The other upstreams are shared by the tasks that dial through
  them, and an engine is killed when the last of these is gone.
\<close>

fun upstream_resources :: "upstream \<Rightarrow> resource list" where
  "upstream_resources (UpSsh ssh) = [RSsh (ss_handle ssh)]"
| "upstream_resources (UpShadowsocks c) = []"
| "upstream_resources (UpVless c) = [REngine c]"

fun dials_upstream :: "resource \<Rightarrow> bool" where
  "dials_upstream (RTask _ (ProxyLoop _ _)) \<longleftrightarrow> True"
| "dials_upstream (RTask _ (TcpIntercept _)) \<longleftrightarrow> True"
| "dials_upstream (RTask _ (DnsIntercept _)) \<longleftrightarrow> True"
| "dials_upstream _ \<longleftrightarrow> False"

fun engine_of :: "resource \<Rightarrow> vless_connector option" where
  "engine_of (REngine c) = Some c"
| "engine_of _ = None"

definition drop_upstream :: "('w, 'json, 'key, 'a) tunnel_env_scheme \<Rightarrow> 'w proc \<Rightarrow> 'w proc" where
  "drop_upstream env s =
     (if list_ex dials_upstream (pr_held s) then s
      else snd (on_proc (\<lambda>w. ((), fold (drop_connector (ue_vless env)) (List.map_filter engine_of (pr_held s)) w))
                  (s\<lparr>pr_held := filter (\<lambda>r. engine_of r = None) (pr_held s)\<rparr>)))"

definition ssh_disconnect :: "('w, 'json, 'key, 'a) tunnel_env_scheme \<Rightarrow> ssh_session option \<Rightarrow> 'w proc \<Rightarrow> 'w proc" where
  "ssh_disconnect env ssh s =
     (case ssh of None \<Rightarrow> s
      | Some x \<Rightarrow> release (RSsh (ss_handle x)) (snd (on_proc (\<lambda>w. ((), te_ssh_disconnect env (ss_handle x) w)) s)))"

definition open_session :: "('w, 'json, 'key, 'a) tunnel_env_scheme \<Rightarrow> file_store \<Rightarrow> string option \<Rightarrow> connection_config
    \<Rightarrow> ('w proc, tunnel_outcome, ssh_session option \<times> upstream) act" where
  "open_session env st known_hosts profile s =
     (case open_upstream env st known_hosts profile (pr_net s) of
        (Inl e, n) \<Rightarrow> (Inl e, s\<lparr>pr_net := n\<rparr>)
      | (Inr (ssh, up), n) \<Rightarrow> (Inr (ssh, up), fold hold (upstream_resources up) (s\<lparr>pr_net := n\<rparr>)))"

text \<open>What the middle of \<open>connect\<close> leaves for the final snapshot and the session.\<close>

record tun_part =
  tp_helper :: "nat option"
  tp_stop :: "nat option"
  tp_name :: "string option"
  tp_helper_ok :: bool
  tp_dns :: string
  tp_udpgw :: string
  tp_note :: "string option"
  tp_udpgw_ok :: bool

definition no_tun :: "snapshot \<Rightarrow> tun_part" where
  "no_tun snap = \<lparr> tp_helper = None, tp_stop = None, tp_name = None, tp_helper_ok = False, tp_dns = sn_dns_status snap,
     tp_udpgw = sn_udpgw_status snap, tp_note = sn_udp_note snap, tp_udpgw_ok = False \<rparr>"

definition tun_of :: "started_tun \<Rightarrow> tun_part" where
  "tun_of t = \<lparr> tp_helper = Some (st_helper t), tp_stop = Some (st_stop t), tp_name = Some TUN_NAME, tp_helper_ok = True,
     tp_dns = st_dns_status t, tp_udpgw = st_udpgw_status t, tp_note = Some (st_udp_note t), tp_udpgw_ok = st_udpgw_ok t \<rparr>"

definition proxy_only_udpgw :: "('w, 'json, 'key, 'a) tunnel_env_scheme \<Rightarrow> connection_config \<Rightarrow> ssh_session \<Rightarrow> snapshot
    \<Rightarrow> 'w proc \<Rightarrow> tun_part \<times> 'w proc" where
  "proxy_only_udpgw env profile ssh snap s =
     (case new_token s of (tok, s1) \<Rightarrow>
      case start_udpgw_client env profile ssh tok s1 of ((ok, status), s2) \<Rightarrow>
        ((no_tun snap)\<lparr>tp_udpgw := status, tp_udpgw_ok := ok, tp_stop := Some tok,
           tp_note := Some ''Proxy-only does not intercept system UDP. UDPGW is connected for diagnostics only; use VPN mode for transparent UDP.''\<rparr>, s2))"

definition connect_tunnel :: "('w, 'json, 'key, 'a) tunnel_env_scheme \<Rightarrow> connection_config \<Rightarrow> ssh_session option \<Rightarrow> upstream \<Rightarrow> proxy_handles
    \<Rightarrow> snapshot \<Rightarrow> ('w mgr, tunnel_outcome, tun_part) act" where
  "connect_tunnel env profile ssh up proxies snap m =
     (if wants_tun profile then
        (case in_proc (start_full_tunnel env profile up) (set_phase EstablishingTunnel PhConfiguringRoutes m) of
           (Inr t, m1) \<Rightarrow> (Inr (tun_of t), m1)
         | (Inl (TErr e), m1) \<Rightarrow>
             let detail = show_tunnel_error (ue_text env) e;
                 m2 = do_proc (drop_upstream env \<circ> ssh_disconnect env ssh \<circ> cancel (ph_token proxies)) m1 in
             (Inl (TErr e), publish (failed_snapshot snap detail ''Failed to configure system-wide routing'' (full_tunnel_error detail)) m2)
         | (Inl e, m1) \<Rightarrow> (Inl e, m1))
      else case ssh of
        Some x \<Rightarrow> if gw_enabled (cfg_udpgw profile)
                    then (case in_proc (proxy_only_udpgw env profile x snap) m of (t, m1) \<Rightarrow> (Inr t, m1))
                    else (Inr (no_tun snap), m)
      | None \<Rightarrow> (Inr (no_tun snap), m))"

definition ready_snapshot :: "connection_config \<Rightarrow> proxy_handles \<Rightarrow> tun_part \<Rightarrow> timestamp \<Rightarrow> snapshot \<Rightarrow> snapshot" where
  "ready_snapshot profile proxies t now snap =
     snap\<lparr>sn_state := (if gw_enabled (cfg_udpgw profile) \<and> \<not> tp_udpgw_ok t then Degraded else Connected), sn_phase := PhReady,
       sn_socks := Some (''socks5://'' @ ph_socks proxies), sn_http := Some (''http://'' @ ph_http proxies), sn_since := Some now,
       sn_error := None, sn_error_detail := None, sn_tun_name := tp_name t, sn_helper_ok := tp_helper_ok t, sn_dns_status := tp_dns t,
       sn_udpgw_status := tp_udpgw t, sn_kill_switch := cfg_kill_switch profile, sn_udp_note := tp_note t\<rparr>"

definition connect_finish :: "('w, 'json, 'key, 'a) tunnel_env_scheme \<Rightarrow> connection_config \<Rightarrow> ssh_session option \<Rightarrow> proxy_handles \<Rightarrow> snapshot
    \<Rightarrow> tun_part \<Rightarrow> ('w mgr, tunnel_outcome, snapshot) act" where
  "connect_finish env profile ssh proxies snap0 t m =
     (let snap = ready_snapshot profile proxies t (te_now env (nw_sys (pr_net (mg_proc m)))) snap0 in
      case in_proc new_token (publish snap m) of (tok, m1) \<Rightarrow>
        (Inr snap, (do_proc (spawn_task tok StatsPoller) m1)
           \<lparr>mg_active := Some \<lparr> as_ssh = ssh, as_proxies = proxies, as_helper = tp_helper t, as_tun_stop = tp_stop t, as_stats = tok \<rparr>\<rparr>))"

definition connect_proxies :: "('w, 'json, 'key, 'a) tunnel_env_scheme \<Rightarrow> connection_config \<Rightarrow> ssh_session option \<Rightarrow> upstream \<Rightarrow> snapshot
    \<Rightarrow> ('w mgr, tunnel_outcome, snapshot) act" where
  "connect_proxies env profile ssh up snap m =
     (case in_proc (proxy_start env (proxy_bind_addr (listen (cfg_proxy profile))) (socks_port (cfg_proxy profile)) (http_proxy_port (cfg_proxy profile)))
             (set_phase EstablishingTunnel PhEstablishingTunnel m) of
        (Inl e, m1) \<Rightarrow> (Inl e, do_proc (drop_upstream env \<circ> ssh_disconnect env ssh) m1)
      | (Inr proxies, m1) \<Rightarrow>
          act_bind (connect_tunnel env profile ssh up proxies snap) (connect_finish env profile ssh proxies snap) m1)"

definition resolved_exit :: "ssh_session option \<Rightarrow> connection_config \<Rightarrow> connection_config" where
  "resolved_exit ssh profile = (case ssh of None \<Rightarrow> profile | Some x \<Rightarrow> profile\<lparr>cfg_host := ss_host x, cfg_port := ss_port x\<rparr>)"

definition connect_open :: "('w, 'json, 'key, 'a) tunnel_env_scheme \<Rightarrow> file_store \<Rightarrow> string option \<Rightarrow> connection_config
    \<Rightarrow> ('w mgr, tunnel_outcome, snapshot) act" where
  "connect_open env st known_hosts profile m =
     (let snap = connecting_snapshot profile;
          m1 = set_phase Authenticating PhAuthenticating (set_phase Connecting PhEstablishingTcp (publish snap m)) in
      case in_proc (open_session env st known_hosts profile) m1 of
        (Inl (TErr e), m2) \<Rightarrow>
          let detail = show_tunnel_error (ue_text env) e in
          (Inl (TErr e), publish (failed_snapshot snap detail (short_connect_error detail) detail) m2)
      | (Inl e, m2) \<Rightarrow> (Inl e, m2)
      | (Inr (None, up), m2) \<Rightarrow> connect_proxies env profile None up snap m2
      | (Inr (Some x, up), m2) \<Rightarrow>
          let snap1 = snap\<lparr>sn_server_label := Some (endpoint_label (ss_host x) (ss_port x))\<rparr> in
          connect_proxies env (resolved_exit (Some x) profile) (Some x) up snap1 (publish snap1 m2))"

definition connect_check :: "connection_config \<Rightarrow> 'w mgr \<Rightarrow> tunnel_error option" where
  "connect_check profile m =
     (if mg_active m \<noteq> None then Some AlreadyConnected
      else if cfg_protocol profile = PSocks
      then Some (UnsupportedProtocol (''inbound SOCKS profiles are not a tunnel protocol '' @ EM_DASH @ '' use SSH, Shadowsocks, or VLESS''))
      else None)"

definition mgr_connect :: "('w, 'json, 'key, 'a) tunnel_env_scheme \<Rightarrow> file_store \<Rightarrow> string option \<Rightarrow> connection_config
    \<Rightarrow> ('w mgr, tunnel_outcome, snapshot) act" where
  "mgr_connect env st known_hosts profile m =
     (case connect_check profile m of Some e \<Rightarrow> (Inl (TErr e), m) | None \<Rightarrow> connect_open env st known_hosts profile m)"

text \<open>Disconnecting waits for the helper to answer; only a helper that never does keeps it from returning.\<close>

definition helper_teardown :: "('w, 'json, 'key, 'a) tunnel_env_scheme \<Rightarrow> nat option \<Rightarrow> ('w proc, tunnel_outcome, unit) act" where
  "helper_teardown env helper s =
     (case helper of
        None \<Rightarrow> (Inr (), s)
      | Some h \<Rightarrow>
          (case helper_call env h Teardown (\<lambda>results peer. client_message (te_ipc env) results peer Teardown) s of
             (Inl THangs, s1) \<Rightarrow> (Inl THangs, s1)
           | (_, s1) \<Rightarrow> (Inr (), release (RHelper h) s1)))"

definition end_session :: "('w, 'json, 'key, 'a) tunnel_env_scheme \<Rightarrow> active_session \<Rightarrow> ('w proc, tunnel_outcome, unit) act" where
  "end_session env a s =
     (let s1 = cancel (as_stats a) s;
          s2 = (case as_tun_stop a of None \<Rightarrow> s1 | Some tok \<Rightarrow> cancel tok s1) in
      act_bind (helper_teardown env (as_helper a)) (\<lambda>_ s3.
        (Inr (), drop_upstream env (ssh_disconnect env (as_ssh a) (cancel (ph_token (as_proxies a)) s3)))) s2)"

definition mgr_disconnect :: "('w, 'json, 'key, 'a) tunnel_env_scheme \<Rightarrow> ('w mgr, tunnel_outcome, snapshot) act" where
  "mgr_disconnect env m =
     (let m1 = set_phase Disconnecting PhIdle m;
          m2 = m1\<lparr>mg_active := None\<rparr> in
      case (case mg_active m1 of None \<Rightarrow> (Inr (), m2) | Some a \<Rightarrow> in_proc (end_session env a) m2) of
        (Inl e, m3) \<Rightarrow> (Inl e, m3)
      | (Inr _, m3) \<Rightarrow> (Inr default_snapshot, publish default_snapshot m3))"

text \<open>
  The statistics task: what it reads, and what it then writes. The division by the elapsed time is floating point; \<open>rate\<close> stands for it.
\<close>

definition stats_read :: "(u64 \<Rightarrow> u64) \<Rightarrow> u64 \<times> u64 \<Rightarrow> u64 \<times> u64 \<times> u64 \<Rightarrow> 'w mgr \<Rightarrow> snapshot option" where
  "stats_read rate = (\<lambda>(last_up, last_down) (up, down, flows) m.
     if sn_state (mg_snapshot m) \<noteq> Connected \<and> sn_state (mg_snapshot m) \<noteq> Degraded then None
     else Some ((mg_snapshot m)\<lparr>sn_stats := \<lparr> ts_down = down, ts_up = up, ts_rate_down = rate (if last_down \<le> down then down - last_down else 0),
       ts_rate_up = rate (if last_up \<le> up then up - last_up else 0), ts_flows = flows \<rparr>\<rparr>))"

definition stats_poll :: "(u64 \<Rightarrow> u64) \<Rightarrow> u64 \<times> u64 \<Rightarrow> u64 \<times> u64 \<times> u64 \<Rightarrow> 'w mgr \<Rightarrow> 'w mgr" where
  "stats_poll rate last' now m = (case stats_read rate last' now m of None \<Rightarrow> m | Some snap \<Rightarrow> publish snap m)"

subsection \<open>What the operations hold\<close>

definition same_held :: "'w proc \<Rightarrow> 'w proc \<Rightarrow> bool" where
  "same_held s s1 \<longleftrightarrow> pr_held s1 = pr_held s \<and> pr_next s1 = pr_next s"

definition adds :: "nat \<Rightarrow> 'w proc \<Rightarrow> 'w proc \<Rightarrow> bool" where
  "adds tok s s1 \<longleftrightarrow> pr_next s1 = pr_next s \<and> (\<exists>ts. pr_held s1 = pr_held s @ map (RTask tok) ts)"

lemma on_proc_held: "on_proc f s = (r, s1) \<Longrightarrow> same_held s s1"
  by (auto simp: on_proc_def same_held_def split: prod.splits)

lemma on_proc_snd_held [simp]: "pr_held (snd (on_proc f s)) = pr_held s" "pr_next (snd (on_proc f s)) = pr_next s"
  by (simp_all add: on_proc_def split: prod.splits)

lemma proc_act_held: "proc_act g f s = (r, s1) \<Longrightarrow> same_held s s1"
  by (auto simp: proc_act_def split: prod.splits dest: on_proc_held)

lemma bind_socket_held: "bind_socket env kind addr port s = (r, s1) \<Longrightarrow> same_held s s1"
  by (auto simp: bind_socket_def same_held_def split: if_splits dest: on_proc_held [unfolded same_held_def])

lemma helper_call_held: "helper_call env h req call s = (r, s1) \<Longrightarrow> same_held s s1"
  by (auto simp: helper_call_def split: prod.splits option.splits dest: on_proc_held)

lemma helper_ready_held: "helper_ready env s = (r, s1) \<Longrightarrow> same_held s s1"
  by (auto simp: helper_ready_def split: prod.splits dest: on_proc_held)

lemma bind_intercept_held: "bind_intercept env t what s = (r, s1) \<Longrightarrow> same_held s s1"
  by (auto simp: bind_intercept_def act_bind_def act_err_def act_return_def split: prod.splits option.splits sum.splits dest: bind_socket_held)
     (auto simp: same_held_def)

lemma same_held_adds: "same_held s s1 \<Longrightarrow> adds tok s s1"
  by (auto simp: same_held_def adds_def intro: exI [of _ "[]"])

lemma adds_trans: "adds tok s s1 \<Longrightarrow> adds tok s1 s2 \<Longrightarrow> adds tok s s2"
  by (auto simp: adds_def simp flip: map_append)

lemma adds_refl [simp]: "adds tok s s"
  by (simp add: adds_def)

lemma adds_spawn_task: "adds tok s s1 \<Longrightarrow> adds tok s (spawn_task tok t s1)"
  by (auto simp: adds_def spawn_task_def hold_def intro: exI [of _ "_ @ [t]"])

lemma adds_spawn_bound: "adds tok s s1 \<Longrightarrow> adds tok s (spawn_bound env tok t s1)"
  by (auto simp: spawn_bound_def split: option.splits prod.splits sum.splits
      dest!: bind_socket_held same_held_adds [of _ _ tok] intro: adds_trans adds_spawn_task)

lemmas adds_intros = adds_spawn_task adds_spawn_bound

lemma adds_udpgw: "start_udpgw_client env profile ssh tok s = (r, s1) \<Longrightarrow> adds tok s s1"
  by (auto simp: start_udpgw_client_def Let_def split: if_splits prod.splits sum.splits
      dest!: on_proc_held same_held_adds [of _ _ tok] intro: adds_intros)

lemma adds_intercepts: "adds tok s (start_intercepts env profile ok tok s)"
  by (simp add: start_intercepts_def start_udp_tasks_def Let_def adds_intros)

lemma cancel_adds: "adds tok s s1 \<Longrightarrow> \<forall>t. RTask tok t \<notin> set (pr_held s) \<Longrightarrow> pr_held (cancel tok s1) = pr_held s"
  by (auto simp: adds_def cancel_def filter_id_conv split: resource.splits)

lemma cancel_next [simp]: "pr_next (cancel tok s) = pr_next s"
  by (simp add: cancel_def)

definition tun_io_ok :: "('w, 'json, 'key, 'a) tunnel_env_scheme \<Rightarrow> bool" where
  "tun_io_ok env \<longleftrightarrow> (\<forall>fd w. \<exists>w1. te_tun_io env fd w = (Inr (), w1))"

lemma apply_tunnel_held:
  assumes ok: "tun_io_ok env" and run: "apply_tunnel env profile h ips ok' tok s = (r, s1)"
  shows "case r of Inr _ \<Rightarrow> adds tok s s1 | Inl (TErr _) \<Rightarrow> pr_held s1 = pr_held (cancel tok s) \<and> pr_next s1 = pr_next s | _ \<Rightarrow> True"
proof -
  obtain extra s2 where b: "on_proc (split_bypass_nets (te_config env) (ue_dial env) profile) s = (extra, s2)" by fastforce
  let ?spec = "tunnel_spec profile ips extra ok'"
  obtain q s3 where a: "helper_call env h (Apply ?spec) (\<lambda>results peer. client_apply (te_ipc env) results peer ?spec) s2 = (q, s3)" by fastforce
  have s3: "same_held s s3" using on_proc_held [OF b] helper_call_held [OF a] by (simp add: same_held_def)
  show ?thesis
  proof (cases q)
    case (Inl e)
    then show ?thesis using run s3 by (auto simp: apply_tunnel_def b a Let_def same_held_def cancel_def split: tunnel_outcome.splits)
  next
    case (Inr x)
    obtain w where "te_tun_io env (snd x) (nw_sys (pr_net s3)) = (Inr (), w)" using ok by (auto simp: tun_io_ok_def)
    then have t: "on_proc (te_tun_io env (snd x)) s3 = (Inr (), s3\<lparr>pr_net := (pr_net s3)\<lparr>nw_sys := w\<rparr>\<rparr>)"
      by (simp add: on_proc_def on_sys_def)
    have "r = Inr ()" "s1 = spawn_task tok TunDrain (s3\<lparr>pr_net := (pr_net s3)\<lparr>nw_sys := w\<rparr>\<rparr>)"
      using run Inr t by (auto simp: apply_tunnel_def b a Let_def split: prod.splits)
    then show ?thesis using s3 by (simp add: adds_spawn_task [OF same_held_adds] same_held_def)
  qed
qed

definition fresh :: "'w proc \<Rightarrow> bool" where
  "fresh s \<longleftrightarrow> (\<forall>r\<in>set (pr_held s). case r of RTask t _ \<Rightarrow> t < pr_next s | RHelper _ \<Rightarrow> False | _ \<Rightarrow> True)"

lemma act_bindE:
  assumes "act_bind m f s = (r, s1)"
  obtains (err) e where "m s = (Inl e, s1)" "r = Inl e" | (val) x s2 where "m s = (Inr x, s2)" "f x s2 = (r, s1)"
  using assms by (auto simp: act_bind_def split: prod.splits sum.splits)

text \<open>What a way of starting the tunnel holds: everything it reports, or nothing when it fails.\<close>

definition tunnel_held :: "resource list \<Rightarrow> nat \<Rightarrow> 'w proc \<Rightarrow> tunnel_outcome + started_tun \<Rightarrow> 'w proc \<Rightarrow> bool" where
  "tunnel_held xs h s r s1 \<longleftrightarrow> pr_next s \<le> pr_next s1 \<and>
     (case r of
        Inr t \<Rightarrow> st_helper t = h \<and> pr_next s \<le> st_stop t \<and> st_stop t < pr_next s1 \<and> (\<exists>ts. pr_held s1 = pr_held s @ xs @ map (RTask (st_stop t)) ts)
      | Inl (TErr _) \<Rightarrow> pr_held s1 = pr_held s
      | _ \<Rightarrow> True)"

lemma tunnel_tasks_held:
  assumes "tun_io_ok env" and fresh: "\<forall>t. RTask (pr_next s) t \<notin> set (pr_held s)" and run: "tunnel_tasks env profile up h ips s = (r, s1)"
    and answered: "r \<noteq> Inl THangs" "r \<noteq> Inl TPanic"
  shows "tunnel_held [] h s r s1"
proof -
  let ?tok = "pr_next s" and ?s = "s\<lparr>pr_next := Suc (pr_next s)\<rparr>"
  obtain ok status s2 where g: "tunnel_udpgw env profile up ?tok ?s = ((ok, status), s2)" by (metis prod.exhaust)
  have "adds ?tok ?s s2" using g adds_udpgw by (fastforce simp: tunnel_udpgw_def split: protocol.splits upstream.splits)
  then have a: "adds ?tok ?s (start_intercepts env profile ok ?tok s2)" by (rule adds_trans [OF _ adds_intercepts])
  obtain q s3 where q: "apply_tunnel env profile h ips ok ?tok (start_intercepts env profile ok ?tok s2) = (q, s3)" by fastforce
  have c: "pr_held (cancel ?tok (start_intercepts env profile ok ?tok s2)) = pr_held s"
    using cancel_adds [OF a] fresh by simp
  note run = run [unfolded tunnel_tasks_def new_token_def prod.case g act_bind_def q]
  show ?thesis
  proof (cases q)
    case (Inl e)
    then show ?thesis using run answered apply_tunnel_held [OF assms(1) q] c a
      by (cases e) (auto simp: tunnel_held_def adds_def)
  next
    case (Inr x)
    then have "adds ?tok ?s s3" using adds_trans [OF a] apply_tunnel_held [OF assms(1) q] by simp
    then show ?thesis using Inr run by (auto simp: tunnel_held_def act_return_def adds_def)
  qed
qed

lemma tunnel_held_same: "same_held s s2 \<Longrightarrow> tunnel_held xs h s2 r s1 \<Longrightarrow> tunnel_held xs h s r s1"
  unfolding tunnel_held_def same_held_def by (cases r) (simp_all split: tunnel_outcome.splits)

lemma tunnel_held_error: "same_held s s1 \<Longrightarrow> tunnel_held xs h s (Inl e) s1"
  by (simp add: tunnel_held_def same_held_def split: tunnel_outcome.split)

lemma tunnel_with_helper_held:
  assumes "tun_io_ok env" and "\<forall>t. RTask (pr_next s) t \<notin> set (pr_held s)" and "tunnel_with_helper env profile up h ips s = (r, s1)"
    and "r \<noteq> Inl THangs" "r \<noteq> Inl TPanic"
  shows "tunnel_held [] h s r s1"
  using assms(3) unfolding tunnel_with_helper_def
proof (cases rule: act_bindE)
  case (val x s2)
  note s2 = helper_call_held [OF val(1)]
  show ?thesis
    using val(2)
  proof (cases rule: act_bindE)
    case err
    then show ?thesis using s2 bind_intercept_held [OF err(1)] by (auto simp: same_held_def intro!: tunnel_held_error)
  next
    case (val y s3)
    note s3 = bind_intercept_held [OF val(1)]
    show ?thesis
      using val(2)
    proof (cases rule: act_bindE)
      case err
      then show ?thesis using s2 s3 bind_intercept_held [OF err(1)] by (auto simp: same_held_def intro!: tunnel_held_error)
    next
      case (val z s4)
      have "same_held s s4" using s2 s3 bind_intercept_held [OF val(1)] by (simp add: same_held_def)
      moreover from this have "tunnel_held [] h s4 r s1"
        using tunnel_tasks_held [OF assms(1) _ val(2) assms(4,5)] assms(2) by (simp add: same_held_def)
      ultimately show ?thesis by (rule tunnel_held_same)
    qed
  qed
qed (auto intro: tunnel_held_error helper_call_held)

lemma holding_held:
  assumes "fresh s" and "holding (RHelper h) m s = (r, s1)" and "\<And>q s2. m (hold (RHelper h) s) = (q, s2) \<Longrightarrow> q = r \<Longrightarrow> tunnel_held [] h (hold (RHelper h) s) q s2"
  shows "tunnel_held [RHelper h] h s r s1"
proof -
  obtain q s2 where q: "m (hold (RHelper h) s) = (q, s2)" by fastforce
  have n: "RHelper h \<notin> set (pr_held s)" using assms(1) by (auto simp: fresh_def)
  have r: "r = q" using assms(2) by (auto simp: holding_def q split: sum.splits tunnel_outcome.splits)
  then show ?thesis using assms(2) [unfolded holding_def q prod.case] assms(3) [OF q] n
    by (cases q) (auto simp: tunnel_held_def hold_def release_def split: tunnel_outcome.splits)
qed

lemma same_held_fresh: "same_held s s1 \<Longrightarrow> fresh s \<Longrightarrow> fresh s1"
  by (auto simp: same_held_def fresh_def split: resource.splits)

lemma fresh_token: "fresh s \<Longrightarrow> RTask (pr_next s) t \<notin> set (pr_held s)"
  by (auto simp: fresh_def)

lemma start_full_tunnel_held:
  assumes "tun_io_ok env" and "fresh s" and "start_full_tunnel env profile up s = (r, s1)" and "r \<noteq> Inl THangs" "r \<noteq> Inl TPanic"
  shows "\<exists>h. tunnel_held [RHelper h] h s r s1"
  using assms(3) unfolding start_full_tunnel_def
proof (cases rule: act_bindE)
  case (val x s2)
  note s2 = helper_ready_held [OF val(1)]
  show ?thesis
    using val(2)
  proof (cases rule: act_bindE)
    case err
    then show ?thesis using s2 proc_act_held [OF err(1)] by (auto simp: same_held_def intro!: exI tunnel_held_error)
  next
    case (val ips s3)
    note s3 = proc_act_held [OF val(1)]
    show ?thesis
      using val(2)
    proof (cases rule: act_bindE)
      case err
      then show ?thesis using s2 s3 proc_act_held [OF err(1)] by (auto simp: same_held_def intro!: exI tunnel_held_error)
    next
      case (val h s4)
      have same: "same_held s s4" using s2 s3 proc_act_held [OF val(1)] by (simp add: same_held_def)
      then have f: "fresh s4" using assms(2) by (rule same_held_fresh)
      have "tunnel_held [] h (hold (RHelper h) s4) q s5" if "tunnel_with_helper env profile up h ips (hold (RHelper h) s4) = (q, s5)" "q = r" for q s5
        using tunnel_with_helper_held [OF assms(1) _ that(1)] assms(4,5) that(2) fresh_token [OF f] by (simp add: hold_def)
      from tunnel_held_same [OF same holding_held [OF f val(2) this]] show ?thesis by blast
    qed
  qed
qed (auto intro!: exI tunnel_held_error helper_ready_held)

text \<open>The resources of a session, and that the session owns what the process holds.\<close>

definition session_owns :: "active_session \<Rightarrow> resource \<Rightarrow> bool" where
  "session_owns a r \<longleftrightarrow>
     (case r of
        RTask tok t \<Rightarrow> tok = ph_token (as_proxies a) \<or> tok = as_stats a \<or> as_tun_stop a = Some tok
      | RSsh h \<Rightarrow> map_option ss_handle (as_ssh a) = Some h
      | REngine c \<Rightarrow> True
      | RHelper h \<Rightarrow> as_helper a = Some h)"

definition session_held :: "active_session \<Rightarrow> 'w proc \<Rightarrow> bool" where
  "session_held a s \<longleftrightarrow>
     list_all (session_owns a) (pr_held s) \<and> RTask (as_stats a) StatsPoller \<in> set (pr_held s)
   \<and> (\<exists>addr p q. RTask (ph_token (as_proxies a)) (ProxyLoop addr p) \<in> set (pr_held s) \<and> RTask (ph_token (as_proxies a)) (ProxyLoop addr q) \<in> set (pr_held s))
   \<and> (\<forall>ssh. as_ssh a = Some ssh \<longrightarrow> RSsh (ss_handle ssh) \<in> set (pr_held s))
   \<and> (\<forall>h. as_helper a = Some h \<longrightarrow> RHelper h \<in> set (pr_held s))"

definition live :: "snapshot \<Rightarrow> bool" where
  "live snap \<longleftrightarrow> sn_state snap = Connected \<or> sn_state snap = Degraded"

definition mgr_inv :: "'w mgr \<Rightarrow> bool" where
  "mgr_inv m \<longleftrightarrow>
     (case mg_active m of
        None \<Rightarrow> pr_held (mg_proc m) = [] \<and> \<not> live (mg_snapshot m)
      | Some a \<Rightarrow> session_held a (mg_proc m) \<and> live (mg_snapshot m) \<and> sn_phase (mg_snapshot m) = PhReady)
   \<and> (mg_sent m \<noteq> [] \<longrightarrow> last (mg_sent m) = mg_snapshot m)"

fun returns :: "tunnel_outcome + 'a \<Rightarrow> bool" where
  "returns (Inl (TErr e)) \<longleftrightarrow> True"
| "returns (Inl _) \<longleftrightarrow> False"
| "returns (Inr x) \<longleftrightarrow> True"

lemma returns_not: "returns r \<Longrightarrow> r \<noteq> Inl THangs \<and> r \<noteq> Inl TPanic"
  by auto

fun session_of :: "upstream \<Rightarrow> ssh_session option" where
  "session_of (UpSsh x) = Some x"
| "session_of _ = None"

lemma open_upstream_session: "open_upstream env st kh profile n = (Inr (ssh, up), n1) \<Longrightarrow> ssh = session_of up"
  by (auto simp: open_upstream_def act_bind_def act_return_def act_fail_def on_net_def
      split: protocol.splits prod.splits sum.splits option.splits)

lemma fold_hold: "pr_held (fold hold rs s) = pr_held s @ rs" "pr_next (fold hold rs s) = pr_next s"
  by (induction rs arbitrary: s) (simp_all add: hold_def)

lemma open_session_held:
  assumes "open_session env st kh profile s = (r, s1)"
  shows "pr_next s1 = pr_next s \<and>
    (case r of Inl _ \<Rightarrow> pr_held s1 = pr_held s | Inr (ssh, up) \<Rightarrow> ssh = session_of up \<and> pr_held s1 = pr_held s @ upstream_resources up)"
  using assms
  by (auto simp: open_session_def fold_hold dest: open_upstream_session split: prod.splits sum.splits)

lemma proxy_start_held:
  assumes "proxy_start env addr socks http s = (r, s1)"
  shows "case r of
      Inl e \<Rightarrow> same_held s s1 \<and> (\<exists>io. e = TErr (TunProxy (SIo io)))
    | Inr ph \<Rightarrow> ph_token ph = pr_next s \<and> pr_next s1 = Suc (pr_next s)
        \<and> pr_held s1 = pr_held s @ [RTask (pr_next s) (ProxyLoop addr socks), RTask (pr_next s) (ProxyLoop addr http)]"
  using assms unfolding proxy_start_def
proof (cases rule: act_bindE)
  case (err e)
  then show ?thesis by (auto simp: act_err_def split: prod.splits dest: bind_socket_held elim: map_err.elims)
next
  case (val x s2)
  then have s2: "same_held s s2" by (auto simp: act_err_def split: prod.splits dest: bind_socket_held)
  show ?thesis
    using val(2)
  proof (cases rule: act_bindE)
    case (err e)
    then have "same_held s2 s1 \<and> (\<exists>io. e = TErr (TunProxy (SIo io)))"
      by (auto simp: act_err_def act_fail_def same_held_def split: prod.splits if_splits dest: bind_socket_held [unfolded same_held_def] elim: map_err.elims)
    then show ?thesis using s2 err(2) by (simp add: same_held_def)
  next
    case (val y s3)
    then have "same_held s2 s3" by (auto simp: act_err_def act_fail_def same_held_def split: prod.splits if_splits dest: bind_socket_held [unfolded same_held_def])
    then show ?thesis using s2 val(2) by (auto simp: same_held_def new_token_def spawn_task_def hold_def)
  qed
qed

lemma upstream_no_dial: "\<not> list_ex dials_upstream (upstream_resources up)"
  by (cases up) simp_all

lemma rollback_held:
  assumes "pr_held s = upstream_resources up" and "ssh = session_of up"
  shows "pr_held (drop_upstream env (ssh_disconnect env ssh s)) = []"
  using assms by (cases up) (simp_all add: ssh_disconnect_def release_def drop_upstream_def)

definition proxied :: "upstream \<Rightarrow> nat \<Rightarrow> string \<Rightarrow> u16 \<Rightarrow> u16 \<Rightarrow> resource list" where
  "proxied up tok addr p q = upstream_resources up @ [RTask tok (ProxyLoop addr p), RTask tok (ProxyLoop addr q)]"

lemma proxied_fresh: "pr_held s = proxied up tok addr p q \<Longrightarrow> tok < pr_next s \<Longrightarrow> fresh s"
  by (cases up) (simp_all add: fresh_def proxied_def)

lemma cancel_proxied: "pr_held s = proxied up tok addr p q \<Longrightarrow> pr_held (cancel tok s) = upstream_resources up"
  by (cases up) (simp_all add: cancel_def proxied_def)

text \<open>What \<open>connect\<close> adds to the proxies, as the record of the tunnel describes it.\<close>

definition tun_held :: "tun_part \<Rightarrow> resource list \<Rightarrow> bool" where
  "tun_held t xs \<longleftrightarrow>
     list_all (\<lambda>r. case r of RTask tok _ \<Rightarrow> tp_stop t = Some tok | RHelper h \<Rightarrow> tp_helper t = Some h | _ \<Rightarrow> False) xs
   \<and> (\<forall>h. tp_helper t = Some h \<longrightarrow> RHelper h \<in> set xs)"

lemma proxy_only_udpgw_held:
  assumes "proxy_only_udpgw env profile ssh snap s = (t, s1)"
  shows "\<exists>xs. pr_held s1 = pr_held s @ xs \<and> tun_held t xs"
proof -
  obtain ok status where g: "start_udpgw_client env profile ssh (pr_next s) (s\<lparr>pr_next := Suc (pr_next s)\<rparr>) = ((ok, status), s1)"
    and t: "tp_stop t = Some (pr_next s)" "tp_helper t = None"
    using assms by (auto simp: proxy_only_udpgw_def new_token_def no_tun_def split: prod.splits)
  then show ?thesis using adds_udpgw [OF g] by (auto simp: adds_def tun_held_def list_all_iff)
qed

lemma no_tun_held: "tun_held (no_tun snap) []"
  by (simp add: tun_held_def no_tun_def)

definition synced :: "'w mgr \<Rightarrow> bool" where
  "synced m \<longleftrightarrow> (mg_sent m \<noteq> [] \<longrightarrow> last (mg_sent m) = mg_snapshot m)"

lemma publish_simps [simp]:
  "mg_snapshot (publish snap m) = snap" "mg_active (publish snap m) = mg_active m" "mg_proc (publish snap m) = mg_proc m"
  "mg_sent (publish snap m) = mg_sent m @ [snap]" "synced (publish snap m)"
  by (simp_all add: publish_def synced_def)

lemma set_phase_simps [simp]:
  "mg_snapshot (set_phase st ph m) = (mg_snapshot m)\<lparr>sn_state := st, sn_phase := ph\<rparr>" "mg_active (set_phase st ph m) = mg_active m"
  "mg_proc (set_phase st ph m) = mg_proc m" "mg_sent (set_phase st ph m) = mg_sent m @ [(mg_snapshot m)\<lparr>sn_state := st, sn_phase := ph\<rparr>]"
  "synced (set_phase st ph m)"
  by (simp_all add: set_phase_def)

lemma in_procE:
  assumes "in_proc f m = (r, m1)"
  obtains s1 where "f (mg_proc m) = (r, s1)" "m1 = m\<lparr>mg_proc := s1\<rparr>"
  using assms by (auto simp: in_proc_def split: prod.splits)

lemma synced_proc [simp]: "synced (m\<lparr>mg_proc := s\<rparr>) = synced m" "synced (m\<lparr>mg_active := a\<rparr>) = synced m"
  by (simp_all add: synced_def)

text \<open>The user is told what went wrong.\<close>

fun reported :: "('w, 'json, 'key, 'a) tunnel_env_scheme \<Rightarrow> tunnel_outcome \<Rightarrow> snapshot \<Rightarrow> bool" where
  "reported env (TErr e) snap \<longleftrightarrow> sn_state snap = StateError \<and> sn_phase snap = PhFailed (show_tunnel_error (ue_text env) e)
     \<and> sn_error snap \<noteq> None \<and> sn_error_detail snap \<noteq> None"
| "reported env _ snap \<longleftrightarrow> False"

lemma failed_reported: "reported env (TErr e) (failed_snapshot snap (show_tunnel_error (ue_text env) e) short long)"
  by (simp add: failed_snapshot_def)

lemma reported_not_live: "reported env e snap \<Longrightarrow> \<not> live snap"
  by (cases e) (simp_all add: live_def)

declare reported.simps [simp del]

lemma full_tunnel_part:
  assumes "tun_io_ok env" and held: "pr_held s = proxied up (ph_token proxies) addr p q" "ph_token proxies < pr_next s"
    and run: "start_full_tunnel env profile up s = (r, s1)" "returns r"
  shows "case r of Inr t \<Rightarrow> \<exists>xs. pr_held s1 = pr_held s @ xs \<and> tun_held (tun_of t) xs | Inl _ \<Rightarrow> pr_held s1 = pr_held s"
proof -
  obtain h where "tunnel_held [RHelper h] h s r s1"
    using start_full_tunnel_held [OF assms(1) proxied_fresh [OF held] run(1)] returns_not [OF run(2)] by blast
  then show ?thesis using run(2)
    by (cases r rule: returns.cases) (auto simp: tunnel_held_def tun_held_def tun_of_def list_all_iff)
qed

lemma connect_tunnel_held:
  assumes "tun_io_ok env" and held: "pr_held (mg_proc m) = proxied up (ph_token proxies) addr p q" "ph_token proxies < pr_next (mg_proc m)"
    and ssh: "ssh = session_of up" and run: "connect_tunnel env profile ssh up proxies snap m = (r, m1)" "returns r"
  shows "mg_active m1 = mg_active m \<and>
    (case r of
       Inr t \<Rightarrow> \<exists>xs. pr_held (mg_proc m1) = pr_held (mg_proc m) @ xs \<and> tun_held t xs
     | Inl o' \<Rightarrow> pr_held (mg_proc m1) = [] \<and> reported env o' (mg_snapshot m1) \<and> synced m1)"
proof (cases "wants_tun profile")
  case True
  let ?m = "set_phase EstablishingTunnel PhConfiguringRoutes m"
  obtain g s1 where g: "start_full_tunnel env profile up (mg_proc m) = (g, s1)" by fastforce
  then have i: "in_proc (start_full_tunnel env profile up) ?m = (g, ?m\<lparr>mg_proc := s1\<rparr>)" by (simp add: in_proc_def)
  note run' = run(1) [unfolded connect_tunnel_def i if_P [OF True] prod.case]
  have "returns g" using run(2) run' by (cases g rule: returns.cases) auto
  then have f: "case g of Inr t \<Rightarrow> \<exists>xs. pr_held s1 = pr_held (mg_proc m) @ xs \<and> tun_held (tun_of t) xs | Inl _ \<Rightarrow> pr_held s1 = pr_held (mg_proc m)"
    using full_tunnel_part [OF assms(1) held g] by simp
  show ?thesis
  proof (cases g rule: returns.cases)
    case (1 e)
    then have "pr_held (cancel (ph_token proxies) s1) = upstream_resources up" using f held(1) by (simp add: cancel_proxied)
    then show ?thesis using 1 run' rollback_held [OF _ ssh] by (auto simp: Let_def do_proc_def failed_reported)
  qed (use run' f \<open>returns g\<close> in auto)
next
  case False
  show ?thesis
  proof (cases "session_of up")
    case None
    then show ?thesis using run False ssh no_tun_held by (auto simp: connect_tunnel_def)
  next
    case (Some x)
    obtain t s1 where "proxy_only_udpgw env profile x snap (mg_proc m) = (t, s1)" by fastforce
    then show ?thesis using run False ssh Some no_tun_held [of snap] proxy_only_udpgw_held [of env profile x snap "mg_proc m" t s1]
      by (auto simp: connect_tunnel_def in_proc_def split: if_splits)
  qed
qed

lemma mgr_inv_idle: "mg_active m = None \<Longrightarrow> pr_held (mg_proc m) = [] \<Longrightarrow> \<not> live (mg_snapshot m) \<Longrightarrow> synced m \<Longrightarrow> mgr_inv m"
  by (simp add: mgr_inv_def synced_def)

lemma connect_finish_inv:
  assumes held: "pr_held (mg_proc m) = proxied up (ph_token proxies) addr p q @ xs" and t: "tun_held t xs"
    and run: "connect_finish env profile (session_of up) proxies snap t m = (r, m1)"
  shows "mgr_inv m1 \<and> r = Inr (mg_snapshot m1)"
proof -
  let ?s = "mg_proc m" and ?snap = "ready_snapshot profile proxies t (te_now env (nw_sys (pr_net (mg_proc m)))) snap"
  let ?a = "\<lparr> as_ssh = session_of up, as_proxies = proxies, as_helper = tp_helper t, as_tun_stop = tp_stop t, as_stats = pr_next ?s \<rparr>"
  have m1: "r = Inr ?snap" "mg_active m1 = Some ?a" "mg_snapshot m1 = ?snap" "mg_sent m1 = mg_sent m @ [?snap]"
    "pr_held (mg_proc m1) = proxied up (ph_token proxies) addr p q @ xs @ [RTask (pr_next ?s) StatsPoller]"
    using run held by (auto simp: connect_finish_def Let_def in_proc_def new_token_def do_proc_def spawn_task_def hold_def)
  have "list_all (session_owns ?a) xs" using t
    by (auto simp: tun_held_def list_all_iff session_owns_def split: resource.split)
  moreover have "list_all (session_owns ?a) (proxied up (ph_token proxies) addr p q)"
    by (cases up) (simp_all add: proxied_def session_owns_def)
  moreover have "live ?snap \<and> sn_phase ?snap = PhReady" by (simp add: live_def ready_snapshot_def)
  moreover have "session_of up = Some ssh \<longrightarrow> RSsh (ss_handle ssh) \<in> set (proxied up (ph_token proxies) addr p q)" for ssh
    by (cases up) (simp_all add: proxied_def)
  ultimately show ?thesis using t m1
    by (auto simp: mgr_inv_def session_held_def tun_held_def session_owns_def) (auto simp: proxied_def)
qed

text \<open>How \<open>connect\<close> ends: with a session that owns everything, or with nothing and the error told, which a busy port is not.\<close>

definition connect_ends :: "('w, 'json, 'key, 'a) tunnel_env_scheme \<Rightarrow> tunnel_outcome + snapshot \<Rightarrow> 'w mgr \<Rightarrow> bool" where
  "connect_ends env r m1 \<longleftrightarrow> mgr_inv m1 \<and>
     (case r of
        Inr snap \<Rightarrow> snap = mg_snapshot m1 \<and> mg_active m1 \<noteq> None
      | Inl e \<Rightarrow> mg_active m1 = None \<and>
          (reported env e (mg_snapshot m1)
           \<or> (\<exists>io. e = TErr (TunProxy (SIo io))) \<and> sn_state (mg_snapshot m1) = EstablishingTunnel \<and> sn_phase (mg_snapshot m1) = PhEstablishingTunnel))"

lemma connect_finish_ends:
  assumes "pr_held (mg_proc m) = proxied up (ph_token proxies) addr p q @ xs" and "tun_held t xs"
    and run: "connect_finish env profile (session_of up) proxies snap t m = (r, m1)"
  shows "connect_ends env r m1"
  using connect_finish_inv [OF assms] run
  by (auto simp: connect_ends_def connect_finish_def Let_def split: prod.splits)

lemma connect_proxies_ends:
  assumes "tun_io_ok env" and idle: "mg_active m = None" "pr_held (mg_proc m) = upstream_resources up" and ssh: "ssh = session_of up"
    and run: "connect_proxies env profile ssh up snap m = (r, m1)" "returns r"
  shows "connect_ends env r m1"
proof -
  let ?m = "set_phase EstablishingTunnel PhEstablishingTunnel m"
  let ?addr = "proxy_bind_addr (listen (cfg_proxy profile))" and ?p = "socks_port (cfg_proxy profile)" and ?q = "http_proxy_port (cfg_proxy profile)"
  obtain g s1 where g: "proxy_start env ?addr ?p ?q (mg_proc m) = (g, s1)" by fastforce
  then have i: "in_proc (proxy_start env ?addr ?p ?q) ?m = (g, ?m\<lparr>mg_proc := s1\<rparr>)" by (simp add: in_proc_def)
  note run' = run(1) [unfolded connect_proxies_def i prod.case] and held = proxy_start_held [OF g]
  show ?thesis
  proof (cases g)
    case (Inl e)
    then have "pr_held s1 = upstream_resources up" "\<exists>io. e = TErr (TunProxy (SIo io))" using held idle(2) by (auto simp: same_held_def)
    then show ?thesis using Inl run' rollback_held [OF _ ssh] idle(1)
      by (auto simp: connect_ends_def do_proc_def live_def intro!: mgr_inv_idle)
  next
    case (Inr proxies)
    let ?m1 = "?m\<lparr>mg_proc := s1\<rparr>"
    have b: "pr_held (mg_proc ?m1) = proxied up (ph_token proxies) ?addr ?p ?q" "ph_token proxies < pr_next (mg_proc ?m1)"
      using held Inr idle(2) by (simp_all add: proxied_def)
    have "act_bind (connect_tunnel env profile ssh up proxies snap) (connect_finish env profile ssh proxies snap) ?m1 = (r, m1)"
      using run' Inr by simp
    then show ?thesis
    proof (cases rule: act_bindE)
      case (err e)
      then show ?thesis using connect_tunnel_held [OF assms(1) b ssh err(1)] run(2) idle(1) reported_not_live
        by (cases e) (auto simp: connect_ends_def intro!: mgr_inv_idle)
    next
      case (val t m2)
      then obtain xs where "pr_held (mg_proc m2) = proxied up (ph_token proxies) ?addr ?p ?q @ xs" "tun_held t xs"
        using connect_tunnel_held [OF assms(1) b ssh val(1)] b(1) by auto
      then show ?thesis using val(2) connect_finish_ends ssh by blast
    qed
  qed
qed

lemma connect_open_ends:
  assumes "tun_io_ok env" and idle: "mg_active m = None" "pr_held (mg_proc m) = []" and run: "connect_open env st kh profile m = (r, m1)" "returns r"
  shows "connect_ends env r m1"
proof -
  let ?m = "set_phase Authenticating PhAuthenticating (set_phase Connecting PhEstablishingTcp (publish (connecting_snapshot profile) m))"
  obtain g s1 where g: "open_session env st kh profile (mg_proc m) = (g, s1)" by fastforce
  then have i: "in_proc (open_session env st kh profile) ?m = (g, ?m\<lparr>mg_proc := s1\<rparr>)" by (simp add: in_proc_def)
  note run' = run(1) [unfolded connect_open_def Let_def i prod.case] and held = open_session_held [OF g]
  show ?thesis
  proof (cases g)
    case (Inl e)
    then show ?thesis using run' run(2) held idle failed_reported [of env]
      by (cases e) (auto simp: connect_ends_def intro!: mgr_inv_idle reported_not_live)
  next
    case (Inr x)
    obtain up where x: "x = (session_of up, up)" "pr_held s1 = upstream_resources up" using held Inr idle(2) by (cases x) auto
    show ?thesis
    proof (cases "session_of up")
      case None
      then show ?thesis using run' Inr x idle(1) connect_proxies_ends [OF assms(1), of "?m\<lparr>mg_proc := s1\<rparr>" up None] run(2) by simp
    next
      case (Some y)
      then show ?thesis using run' Inr x idle(1) run(2)
        by (auto intro!: connect_proxies_ends [OF assms(1), of "publish _ (?m\<lparr>mg_proc := s1\<rparr>)" up "Some y"])
    qed
  qed
qed

lemma helper_teardown_held:
  assumes "helper_teardown env helper s = (r, s1)" and "returns r"
  shows "pr_held s1 = (case helper of None \<Rightarrow> pr_held s | Some h \<Rightarrow> removeAll (RHelper h) (pr_held s))"
proof (cases helper)
  case (Some h)
  obtain q s2 where q: "helper_call env h Teardown (\<lambda>results peer. client_message (te_ipc env) results peer Teardown) s = (q, s2)" by fastforce
  show ?thesis using assms helper_call_held [OF q]
    by (auto simp: helper_teardown_def Some q same_held_def release_def split: sum.splits tunnel_outcome.splits)
qed (use assms in \<open>simp add: helper_teardown_def\<close>)

lemma helper_teardown_ok: "helper_teardown env helper s = (r, s1) \<Longrightarrow> returns r \<Longrightarrow> r = Inr ()"
  by (auto simp: helper_teardown_def split: option.splits prod.splits sum.splits tunnel_outcome.splits)

lemma end_session_held:
  assumes "session_held a s" and "end_session env a s = (r, s1)" and "returns r"
  shows "pr_held s1 = []"
proof -
  let ?s = "case as_tun_stop a of None \<Rightarrow> cancel (as_stats a) s | Some tok \<Rightarrow> cancel tok (cancel (as_stats a) s)"
  obtain q s3 where q: "helper_teardown env (as_helper a) ?s = (q, s3)" by fastforce
  note run = assms(2) [unfolded end_session_def Let_def act_bind_def q prod.case]
  have ret: "returns q" using run assms(3) by (cases q rule: returns.cases) auto
  have fin: "s1 = drop_upstream env (ssh_disconnect env (as_ssh a) (cancel (ph_token (as_proxies a)) s3))"
    using run helper_teardown_ok [OF q ret] by simp
  have "\<forall>r\<in>set (pr_held ?s). session_owns a r \<and> (\<forall>tok t. r = RTask tok t \<longrightarrow> tok = ph_token (as_proxies a))"
    using assms(1) by (auto simp: session_held_def list_all_iff cancel_def session_owns_def split: option.splits resource.splits)
  then have s3: "\<forall>r\<in>set (pr_held s3). session_owns a r \<and> (\<forall>tok t. r = RTask tok t \<longrightarrow> tok = ph_token (as_proxies a)) \<and> (\<forall>h. r \<noteq> RHelper h)"
    using helper_teardown_held [OF q ret] by (auto simp: session_owns_def split: option.splits)
  have "(\<exists>c. r = REngine c) \<or> (\<exists>x. as_ssh a = Some x \<and> r = RSsh (ss_handle x))" if "r \<in> set (pr_held (cancel (ph_token (as_proxies a)) s3))" for r
  proof -
    have "r \<in> set (pr_held s3)" "\<forall>t. r \<noteq> RTask (ph_token (as_proxies a)) t" using that by (auto simp: cancel_def)
    then show ?thesis using bspec [OF s3, of r] by (cases r rule: resource.exhaust) (auto simp: session_owns_def)
  qed
  then have "\<forall>r\<in>set (pr_held (ssh_disconnect env (as_ssh a) (cancel (ph_token (as_proxies a)) s3))). \<exists>c. r = REngine c"
    by (cases "as_ssh a"; simp add: ssh_disconnect_def release_def; blast)
  then have "\<not> list_ex dials_upstream (pr_held (ssh_disconnect env (as_ssh a) (cancel (ph_token (as_proxies a)) s3)))"
    "filter (\<lambda>r. engine_of r = None) (pr_held (ssh_disconnect env (as_ssh a) (cancel (ph_token (as_proxies a)) s3))) = []"
    by (force simp: list_ex_iff, force simp: filter_empty_conv)
  then show ?thesis unfolding fin by (simp add: drop_upstream_def)
qed

lemma end_session_ok: "end_session env a s = (r, s1) \<Longrightarrow> returns r \<Longrightarrow> r = Inr ()"
  unfolding end_session_def Let_def
  by (erule act_bindE) (auto dest: helper_teardown_ok)

lemma default_not_live: "\<not> live default_snapshot"
  by (simp add: live_def default_snapshot_def)

lemma mgr_disconnect_inv:
  assumes "mgr_inv m" and "mgr_disconnect env m = (r, m1)" and "returns r"
  shows "mgr_inv m1 \<and> mg_active m1 = None \<and> mg_snapshot m1 = default_snapshot"
proof (cases "mg_active m")
  case None
  then show ?thesis using assms by (auto simp: mgr_disconnect_def Let_def mgr_inv_def live_def default_snapshot_def)
next
  case (Some a)
  let ?m = "(set_phase Disconnecting PhIdle m)\<lparr>mg_active := None\<rparr>"
  obtain q s1 where q: "end_session env a (mg_proc m) = (q, s1)" by fastforce
  then have i: "in_proc (end_session env a) ?m = (q, ?m\<lparr>mg_proc := s1\<rparr>)" by (simp add: in_proc_def)
  have run: "(case q of Inl e \<Rightarrow> (Inl e, ?m\<lparr>mg_proc := s1\<rparr>) | Inr _ \<Rightarrow> (Inr default_snapshot, publish default_snapshot (?m\<lparr>mg_proc := s1\<rparr>))) = (r, m1)"
    using assms(2) unfolding mgr_disconnect_def Let_def set_phase_simps(2) Some option.case i by (cases q) simp_all
  have ret: "returns q" using run assms(3) by (cases q rule: returns.cases) auto
  have "pr_held s1 = []" using end_session_held [OF _ q ret] assms(1) Some by (simp add: mgr_inv_def)
  moreover have m1: "m1 = publish default_snapshot (?m\<lparr>mg_proc := s1\<rparr>)" using run [unfolded end_session_ok [OF q ret]] by simp
  ultimately show ?thesis unfolding m1 by (simp add: mgr_inv_idle default_not_live)
qed

lemma stats_read_Some:
  assumes "stats_read rate last' now m = Some snap"
  shows "sn_state snap = sn_state (mg_snapshot m) \<and> sn_phase snap = sn_phase (mg_snapshot m) \<and> live (mg_snapshot m)"
proof -
  obtain st where "snap = (mg_snapshot m)\<lparr>sn_stats := st\<rparr>" "live (mg_snapshot m)"
    using assms unfolding stats_read_def live_def by (cases last'; cases now) (auto split: if_split_asm)
  then show ?thesis by simp
qed

lemma stats_poll_inv:
  assumes "mgr_inv m"
  shows "mgr_inv (stats_poll rate last' now m)"
proof (cases "stats_read rate last' now m")
  case (Some snap)
  then show ?thesis using assms stats_read_Some [OF Some]
    by (simp add: mgr_inv_def stats_poll_def live_def split: option.splits)
qed (use assms in \<open>simp add: stats_poll_def\<close>)

lemma mgr_connect_inv:
  assumes "tun_io_ok env" and "mgr_inv m" and "mgr_connect env st kh profile m = (r, m1)" and "returns r"
  shows "mgr_inv m1"
  using assms connect_open_ends [OF assms(1), of m st kh profile r m1]
  by (auto simp: mgr_connect_def connect_check_def mgr_inv_def connect_ends_def split: if_splits option.splits)

subsection \<open>Any sequence of calls\<close>

text \<open>Calls that return; the statistics task runs while there is a session.\<close>

inductive mgr_step :: "('w, 'json, 'key, 'a) tunnel_env_scheme \<Rightarrow> 'w mgr \<Rightarrow> 'w mgr \<Rightarrow> bool" for env where
  step_connect: "mgr_connect env st kh profile m = (r, m1) \<Longrightarrow> returns r \<Longrightarrow> mgr_step env m m1"
| step_disconnect: "mgr_disconnect env m = (r, m1) \<Longrightarrow> returns r \<Longrightarrow> mgr_step env m m1"
| step_stats: "mg_active m = Some a \<Longrightarrow> mgr_step env m (stats_poll rate last' now m)"

inductive_cases mgr_stepE: "mgr_step env m m1"

definition mgr_init :: "'w mgr \<Rightarrow> bool" where
  "mgr_init m \<longleftrightarrow> (\<exists>n. m = mgr_new n)"

lemma mgr_init_inv: "mgr_init m \<Longrightarrow> mgr_inv m"
  by (auto simp: mgr_init_def mgr_new_def live_def default_snapshot_def mgr_inv_def)

lemma mgr_step_inv: "tun_io_ok env \<Longrightarrow> mgr_step env m m1 \<Longrightarrow> mgr_inv m \<Longrightarrow> mgr_inv m1"
  by (erule mgr_stepE) (auto intro: mgr_connect_inv stats_poll_inv dest: mgr_disconnect_inv)

end
