(* ===== verification/Lifecycle.thy ===== *)
theory Lifecycle
  imports Manager
begin

text \<open>
  What the connection manager (\<^verbatim>\<open>crates/tunnel/src/manager.rs\<close>) promises over its life: it owns everything that it acquired, it
  leaves nothing behind when a connection fails or ends, and it publishes its progress.
\<close>

subsection \<open>Ownership\<close>

definition sound_step :: "('w, 'json, 'key, 'a) tunnel_env_scheme \<Rightarrow> 'w mgr \<Rightarrow> 'w mgr \<Rightarrow> bool" where
  "sound_step env m m1 \<longleftrightarrow> tun_io_ok env \<and> mgr_step env m m1"

interpretation mgr: inductive_invariant mgr_init "sound_step env" mgr_inv for env
  by unfold_locales (auto simp: sound_step_def intro: mgr_init_inv mgr_step_inv)

lemma reachable_mgr_inv:
  assumes "\<forall>fd w. \<exists>w1. te_tun_io env fd w = (Inr (), w1)" and "(mgr_step env)\<^sup>*\<^sup>* (mgr_new n) m"
  shows "tun_io_ok env \<and> mgr_inv m"
proof -
  have "tun_io_ok env" using assms(1) by (simp add: tun_io_ok_def)
  moreover from this have "sound_step env = mgr_step env" by (simp add: fun_eq_iff sound_step_def)
  moreover have "mgr_inv (mgr_new n)" by (rule mgr_init_inv) (auto simp: mgr_init_def)
  ultimately show ?thesis using mgr.steps_inv [of env "mgr_new n" m] assms(2) by simp
qed

lemma end_session_fails: "end_session env a s = (Inl e, s1) \<Longrightarrow> \<not> returns (Inl e :: tunnel_outcome + 'b)"
  by (cases e) (auto dest: end_session_ok)


text \<open>A machine on which a Shadowsocks profile connects.\<close>

definition example_tunnel_env :: "((string \<rightharpoonup> bytes) \<times> nat, nat, unit) tunnel_env" where
  "example_tunnel_env =
     \<lparr> ue_text = (\<lambda>_. ''error''), ue_ssh = (example_ssh_env (example_key 1))\<lparr>vault_of_json := (\<lambda>_. Inr [(''s'', ''pw'')])\<rparr>,
       ue_link = example_smart_env,
       ue_smart = \<lparr> json_text = (\<lambda>_. []), json_from_slice = (\<lambda>_. None), raw_endpoint_of = (\<lambda>_. None), aes256_gcm_decrypt = (\<lambda>_ _ _. None) \<rparr>,
       ue_http = (\<lambda>_ _ _ _. \<lparr> ex_open = Inl [], ex_write = Inl [], ex_reads = [], ex_timeout = False \<rparr>), ue_shim = (\<lambda>_ _. None),
       ue_dial = \<lparr> lookup_host = (\<lambda>_ port w. (Inr [SockV4 1 port], w)), tcp_connect = (\<lambda>_ w. (Inr (stream_of []), w)),
         tls_connect = (\<lambda>_ b w. (Inr b, w)), acquire_permit = (\<lambda>w. (Inr (), w)), draw_ws_key = (\<lambda>w. (replicate 16 0, w)),
         instant_now = (\<lambda>_. 0), sha1_digest = (\<lambda>_. []) \<rparr>,
       ue_vless = \<lparr> getenv = (\<lambda>_. None), bind_loopback = (\<lambda>w. (Inr 9, w)), temp_join = (\<lambda>s. s), new_v4 = (\<lambda>w. ([], w)),
         json_to_vec = (\<lambda>_. Inr []), create_new_0600 = (\<lambda>_ w. (Inr (), w)), write_flush = (\<lambda>_ _ w. (Inr (), w)), unlink = (\<lambda>_ w. w),
         spawn = (\<lambda>_ _ w. (Inl SpawnNotFound, w)), try_wait = (\<lambda>_ w. (Inr None, w)), probe = (\<lambda>_ w. (False, w)),
         start_kill = (\<lambda>_ w. w), start_polls = 1 \<rparr>,
       ue_crypto = example_crypto, te_config = \<lparr> uuid_parse = (\<lambda>_. None), uuid_show = (\<lambda>_. []), ipnet_parse = (\<lambda>_. None), str_debug = (\<lambda>s. s) \<rparr>,
       te_bind = (\<lambda>_ addr port w. (Inr (addr @ '':'' @ show_nat (unat port)), w)),
       te_elevate = (\<lambda>w. (\<lparr> reachable_at = (\<lambda>_. True), unit_installed = False, pkexec_found = False, helper_files = [],
         spawn_pkexec = Inr (), child_at = (\<lambda>_. None) \<rparr>, w)),
       te_helper_connect = (\<lambda>w. (Inr 5, w)),
       te_ipc = \<lparr> req_to_json = (\<lambda>_. []), req_of_json = (\<lambda>_. Inl []), resp_to_json = (\<lambda>_. []), resp_of_json = (\<lambda>_. Inl []), resp_debug = (\<lambda>_. []) \<rparr>,
       te_sock = (\<lambda>_ _ w. (([], \<lambda>_. []), w)), te_tun_io = (\<lambda>_ w. (Inr (), w)), te_ssh_disconnect = (\<lambda>_ w. w), te_now = (\<lambda>_. 0) \<rparr>"

definition example_machine :: "((string \<rightharpoonup> bytes) \<times> nat) net" where
  "example_machine = \<lparr> nw_cache = [], nw_sys = example_disk \<rparr>"

lemma example_tunnel_open:
  "open_upstream example_tunnel_env example_store None example_ss example_machine = (Inr (None, UpShadowsocks example_connector), example_machine)"
proof -
  let ?e = "(example_ssh_env (example_key 1))\<lparr>vault_of_json := (\<lambda>_. Inr [(''s'', ''pw'')])\<rparr>"
  have "get_secret ?e example_store \<lparr>ref_id = ''s''\<rparr> example_disk = Inr ''pw''"
    by (simp add: get_secret_def vault_get_def vault_load_def example_ssh_env_def vault_env.defs example_vault_env_def example_store_def
        example_disk_def NONCE_LEN_def FILE_MAGIC_def tget_def Let_def)
  moreover have "parse_method ''aes-128-gcm'' = Inr Aes128Gcm" by (simp add: parse_method_def to_ascii_lowercase_def ascii_lower_def)
  moreover have "evp_bytes_to_key example_crypto (as_bytes ''pw'') 16 = Some (replicate 16 0)"
    by (simp add: evp_bytes_to_key_def evp_loop_step evp_loop_enough example_crypto_def)
  ultimately have "ss_from_profile example_crypto ?e example_store example_ss example_disk = Some (Inr example_connector)"
    by (simp add: ss_from_profile_def example_ss_def new_shadowsocks_def example_connector_def)
  moreover have "cfg_protocol example_ss = PShadowsocks" by (simp add: example_ss_def new_shadowsocks_def)
  moreover have "ue_ssh example_tunnel_env = ?e" "ue_crypto example_tunnel_env = example_crypto" by (simp_all add: example_tunnel_env_def)
  ultimately show ?thesis by (simp add: open_upstream_def example_machine_def)
qed

lemma example_proxy_start:
  assumes "pr_held s = []"
  shows "proxy_start example_tunnel_env ''127.0.0.1'' 1080 8080 s =
    (Inr \<lparr> ph_token = pr_next s, ph_socks = ''127.0.0.1:1080'', ph_http = ''127.0.0.1:8080'' \<rparr>,
     s\<lparr>pr_next := Suc (pr_next s), pr_held := [RTask (pr_next s) (ProxyLoop ''127.0.0.1'' 1080), RTask (pr_next s) (ProxyLoop ''127.0.0.1'' 8080)]\<rparr>)"
proof -
  have t: "show_nat 1080 = ''1080''" "show_nat 8080 = ''8080''"
    by (simp_all add: show_nat.simps [of 1080] show_nat.simps [of 108] show_nat.simps [of 10] show_nat.simps [of 1] show_nat.simps [of "Suc 0"]
        show_nat.simps [of 8080] show_nat.simps [of 808] show_nat.simps [of 80] show_nat.simps [of 8] digit_char_def char_of_def bit_0)
  have b: "bind_socket example_tunnel_env k addr port s = (Inr (addr @ '':'' @ show_nat (unat port)), s)" for k addr port
    using assms by (simp add: bind_socket_def bound_sockets_def on_proc_def on_sys_def example_tunnel_env_def)
  show ?thesis using assms
    by (simp add: proxy_start_def act_bind_def act_err_def b t new_token_def spawn_task_def hold_def)
qed

definition example_connected :: "((string \<rightharpoonup> bytes) \<times> nat) mgr" where
  "example_connected = snd (mgr_connect example_tunnel_env example_store None example_ss (mgr_new example_machine))"

lemma example_mgr_connect:
  "\<exists>snap. mgr_connect example_tunnel_env example_store None example_ss (mgr_new example_machine) = (Inr snap, example_connected)
     \<and> mg_active example_connected = Some \<lparr> as_ssh = None, as_proxies = \<lparr> ph_token = 0, ph_socks = ''127.0.0.1:1080'', ph_http = ''127.0.0.1:8080'' \<rparr>,
          as_helper = None, as_tun_stop = None, as_stats = 1 \<rparr>"
proof -
  let ?s = "mg_proc (mgr_new example_machine)"
  let ?snap = "connecting_snapshot example_ss"
  let ?m = "set_phase Authenticating PhAuthenticating (set_phase Connecting PhEstablishingTcp (publish ?snap (mgr_new example_machine)))"
  have p: "listen (cfg_proxy example_ss) = ''127.0.0.1''" "socks_port (cfg_proxy example_ss) = 1080" "http_proxy_port (cfg_proxy example_ss) = 8080"
    "\<not> wants_tun example_ss" "cfg_protocol example_ss = PShadowsocks"
    by (simp_all add: example_ss_def new_shadowsocks_def default_proxy_share_settings_def wants_tun_def)
  have h: "pr_held ?s = []" "pr_next ?s = 0" "pr_net ?s = example_machine" "mg_active (mgr_new example_machine) = None" by (simp_all add: mgr_new_def)
  have o': "in_proc (open_session example_tunnel_env example_store None example_ss) ?m = (Inr (None, UpShadowsocks example_connector), ?m)"
    using example_tunnel_open h by (simp add: in_proc_def open_session_def)
  have "in_proc (proxy_start example_tunnel_env ''127.0.0.1'' 1080 8080) (set_phase EstablishingTunnel PhEstablishingTunnel ?m) =
      (Inr \<lparr> ph_token = 0, ph_socks = ''127.0.0.1:1080'', ph_http = ''127.0.0.1:8080'' \<rparr>, (set_phase EstablishingTunnel PhEstablishingTunnel ?m)
        \<lparr>mg_proc := ?s\<lparr>pr_next := 1, pr_held := [RTask 0 (ProxyLoop ''127.0.0.1'' 1080), RTask 0 (ProxyLoop ''127.0.0.1'' 8080)]\<rparr>\<rparr>)"
    using example_proxy_start [OF h(1)] h by (simp add: in_proc_def)
  then have c: "\<exists>snap m1. connect_proxies example_tunnel_env example_ss None (UpShadowsocks example_connector) ?snap ?m = (Inr snap, m1)
     \<and> mg_active m1 = Some \<lparr> as_ssh = None, as_proxies = \<lparr> ph_token = 0, ph_socks = ''127.0.0.1:1080'', ph_http = ''127.0.0.1:8080'' \<rparr>,
          as_helper = None, as_tun_stop = None, as_stats = 1 \<rparr>"
    using p by (simp add: connect_proxies_def proxy_bind_addr_def act_bind_def connect_tunnel_def connect_finish_def Let_def in_proc_def
        new_token_def do_proc_def no_tun_def)
  have "mgr_connect example_tunnel_env example_store None example_ss (mgr_new example_machine)
      = connect_proxies example_tunnel_env example_ss None (UpShadowsocks example_connector) ?snap ?m"
    unfolding mgr_connect_def connect_open_def Let_def o' using p(5) h(4) by (simp add: connect_check_def)
  with c show ?thesis unfolding example_connected_def by auto
qed


subsection \<open>Failed connections\<close>



subsection \<open>Progress\<close>

definition progress :: "'w mgr \<Rightarrow> (connection_state \<times> connection_phase) list" where
  "progress m = map (\<lambda>snap. (sn_state snap, sn_phase snap)) (mg_sent m)"

lemma progress_simps [simp]:
  "progress (publish snap m) = progress m @ [(sn_state snap, sn_phase snap)]" "progress (set_phase st ph m) = progress m @ [(st, ph)]"
  "progress (m\<lparr>mg_proc := s\<rparr>) = progress m" "progress (m\<lparr>mg_active := a\<rparr>) = progress m"
  by (simp_all add: progress_def)

lemma connect_tunnel_progress:
  assumes "connect_tunnel env profile ssh up proxies snap m = (Inr t, m1)"
  shows "progress m1 = progress m @ (if wants_tun profile then [(EstablishingTunnel, PhConfiguringRoutes)] else [])
    \<and> tp_helper_ok t = wants_tun profile \<and> tp_name t = (if wants_tun profile then Some TUN_NAME else None) \<and> (tp_helper t \<noteq> None) = wants_tun profile"
  using assms
  by (auto simp: connect_tunnel_def Let_def in_proc_def tun_of_def no_tun_def proxy_only_udpgw_def
      split: if_splits prod.splits sum.splits tunnel_outcome.splits option.splits)

lemma connect_proxies_progress:
  assumes "connect_proxies env profile ssh up snap m = (Inr s, m1)"
  shows "\<exists>t proxies. progress m1 = progress m @ [(EstablishingTunnel, PhEstablishingTunnel)]
        @ (if wants_tun profile then [(EstablishingTunnel, PhConfiguringRoutes)] else []) @ [(sn_state s, PhReady)]
    \<and> mg_snapshot m1 = s \<and> tp_helper_ok t = wants_tun profile \<and> tp_name t = (if wants_tun profile then Some TUN_NAME else None)
    \<and> (\<exists>now. s = ready_snapshot profile proxies t now snap)
    \<and> (\<exists>a. mg_active m1 = Some a \<and> as_ssh a = ssh \<and> as_proxies a = proxies \<and> (as_helper a \<noteq> None) = wants_tun profile)"
proof -
  obtain proxies m2 where p: "act_bind (connect_tunnel env profile ssh up proxies snap) (connect_finish env profile ssh proxies snap) m2 = (Inr s, m1)"
    and m2: "progress m2 = progress m @ [(EstablishingTunnel, PhEstablishingTunnel)]"
    using assms by (auto simp: connect_proxies_def in_proc_def split: prod.splits sum.splits)
  then obtain t m3 where t: "connect_tunnel env profile ssh up proxies snap m2 = (Inr t, m3)" and f: "connect_finish env profile ssh proxies snap t m3 = (Inr s, m1)"
    by (auto simp: act_bind_Inr)
  note c = connect_tunnel_progress [OF t]
  have "s = ready_snapshot profile proxies t (te_now env (nw_sys (pr_net (mg_proc m3)))) snap" "mg_snapshot m1 = s"
    "progress m1 = progress m3 @ [(sn_state s, sn_phase s)]"
    "\<exists>a. mg_active m1 = Some a \<and> as_ssh a = ssh \<and> as_proxies a = proxies \<and> as_helper a = tp_helper t"
    using f by (auto simp: connect_finish_def Let_def in_proc_def do_proc_def new_token_def)
  moreover have "sn_phase (ready_snapshot profile proxies t now snap) = PhReady" for now by (simp add: ready_snapshot_def)
  ultimately show ?thesis using c m2 by (intro exI [of _ t] exI [of _ proxies]) auto
qed

lemma open_upstream_ssh: "open_upstream env st kh profile n = (Inr (ssh, up), n1) \<Longrightarrow> (ssh \<noteq> None) = (cfg_protocol profile = PSsh)"
  by (auto simp: open_upstream_def act_bind_def act_return_def act_fail_def on_net_def
      split: protocol.splits prod.splits sum.splits option.splits)

lemma connect_open_opened:
  assumes "connect_open env st kh profile m = (Inr s, m1)"
  shows "\<exists>ssh up m2 snap. (ssh \<noteq> None) = (cfg_protocol profile = PSsh)
    \<and> snap = (connecting_snapshot profile)\<lparr>sn_server_label :=
        Some (case ssh of None \<Rightarrow> endpoint_label (cfg_host profile) (cfg_port profile) | Some x \<Rightarrow> endpoint_label (ss_host x) (ss_port x))\<rparr>
    \<and> progress m2 = progress m @ [(Connecting, PhResolvingServer), (Connecting, PhEstablishingTcp), (Authenticating, PhAuthenticating)]
        @ (if ssh = None then [] else [(Connecting, PhResolvingServer)])
    \<and> connect_proxies env (resolved_exit ssh profile) ssh up snap m2 = (Inr s, m1)"
proof -
  let ?snap = "connecting_snapshot profile"
  let ?m = "set_phase Authenticating PhAuthenticating (set_phase Connecting PhEstablishingTcp (publish ?snap m))"
  obtain g s1 where i: "in_proc (open_session env st kh profile) ?m = (g, ?m\<lparr>mg_proc := s1\<rparr>)" and g: "open_session env st kh profile (mg_proc m) = (g, s1)"
    by (cases "open_session env st kh profile (mg_proc m)") (simp add: in_proc_def)
  note run = assms [unfolded connect_open_def Let_def i prod.case]
  have p: "sn_state ?snap = Connecting" "sn_phase ?snap = PhResolvingServer"
    "?snap\<lparr>sn_server_label := Some (endpoint_label (cfg_host profile) (cfg_port profile))\<rparr> = ?snap"
    by (simp_all add: connecting_snapshot_def)
  obtain ssh up where u: "g = Inr (ssh, up)" using run by (cases g rule: returns.cases) auto
  then have ssh: "(ssh \<noteq> None) = (cfg_protocol profile = PSsh)" using g by (auto simp: open_session_def split: prod.splits sum.splits dest: open_upstream_ssh)
  show ?thesis
  proof (cases ssh)
    case None
    then show ?thesis using run u ssh p
      by (intro exI [of _ None] exI [of _ up] exI [of _ "?m\<lparr>mg_proc := s1\<rparr>"] exI [of _ ?snap]) (simp add: resolved_exit_def)
  next
    case (Some x)
    let ?snap1 = "?snap\<lparr>sn_server_label := Some (endpoint_label (ss_host x) (ss_port x))\<rparr>"
    show ?thesis using run u ssh p Some
      by (intro exI [of _ "Some x"] exI [of _ up] exI [of _ "publish ?snap1 (?m\<lparr>mg_proc := s1\<rparr>)"] exI [of _ ?snap1]) simp
  qed
qed

text \<open>
  C17. A connection that succeeds reports its progress and describes the session. The published states go through the phases in order,
  with one step back: when an SSH session has been opened the snapshot with its endpoint is published as still resolving the server.
  The helper and a TUN device are used exactly when the profile asks for more than the proxies. The final snapshot is the one that is
  returned: it names the profile, the endpoint of the session, the kill switch and the addresses of the proxies, and it says degraded
  only if UDPGW is enabled.
\<close>

theorem connect_reports_progress:
  assumes "mgr_connect env st kh profile m = (Inr snap, m1)"
  shows "\<exists>a. mg_active m = None \<and> mg_active m1 = Some a \<and> mg_snapshot m1 = snap \<and> (as_ssh a \<noteq> None) = (cfg_protocol profile = PSsh)
    \<and> progress m1 = progress m
        @ [(Connecting, PhResolvingServer), (Connecting, PhEstablishingTcp), (Authenticating, PhAuthenticating)]
        @ (if cfg_protocol profile = PSsh then [(Connecting, PhResolvingServer)] else []) @ [(EstablishingTunnel, PhEstablishingTunnel)]
        @ (if cfg_routing_mode profile = ProxyOnly then [] else [(EstablishingTunnel, PhConfiguringRoutes)]) @ [(sn_state snap, PhReady)]
    \<and> (sn_state snap = Connected \<or> sn_state snap = Degraded \<and> gw_enabled (cfg_udpgw profile))
    \<and> sn_profile_id snap = Some (cfg_id profile) \<and> sn_kill_switch snap = cfg_kill_switch profile
    \<and> sn_server_label snap = Some (case as_ssh a of None \<Rightarrow> endpoint_label (cfg_host profile) (cfg_port profile) | Some x \<Rightarrow> endpoint_label (ss_host x) (ss_port x))
    \<and> sn_socks snap = Some (''socks5://'' @ ph_socks (as_proxies a)) \<and> sn_http snap = Some (''http://'' @ ph_http (as_proxies a))
    \<and> (as_helper a \<noteq> None) = (cfg_routing_mode profile \<noteq> ProxyOnly) \<and> sn_helper_ok snap = (cfg_routing_mode profile \<noteq> ProxyOnly)
    \<and> sn_tun_name snap = (if cfg_routing_mode profile = ProxyOnly then None else Some TUN_NAME)"
proof -
  have idle: "mg_active m = None" and run: "connect_open env st kh profile m = (Inr snap, m1)"
    using assms by (auto simp: mgr_connect_def connect_check_def split: if_splits)
  obtain ssh up m2 snap0 where ssh: "(ssh \<noteq> None) = (cfg_protocol profile = PSsh)"
    and snap0: "snap0 = (connecting_snapshot profile)\<lparr>sn_server_label :=
        Some (case ssh of None \<Rightarrow> endpoint_label (cfg_host profile) (cfg_port profile) | Some x \<Rightarrow> endpoint_label (ss_host x) (ss_port x))\<rparr>"
    and m2: "progress m2 = progress m @ [(Connecting, PhResolvingServer), (Connecting, PhEstablishingTcp), (Authenticating, PhAuthenticating)]
        @ (if ssh = None then [] else [(Connecting, PhResolvingServer)])"
    and run: "connect_proxies env (resolved_exit ssh profile) ssh up snap0 m2 = (Inr snap, m1)"
    using connect_open_opened [OF run] by blast
  have r: "wants_tun (resolved_exit ssh profile) = (cfg_routing_mode profile \<noteq> ProxyOnly)" "cfg_udpgw (resolved_exit ssh profile) = cfg_udpgw profile"
    "cfg_kill_switch (resolved_exit ssh profile) = cfg_kill_switch profile"
    by (simp_all add: wants_tun_def resolved_exit_def split: option.splits)
  obtain t proxies now a where p: "progress m1 = progress m2 @ [(EstablishingTunnel, PhEstablishingTunnel)]
        @ (if cfg_routing_mode profile \<noteq> ProxyOnly then [(EstablishingTunnel, PhConfiguringRoutes)] else []) @ [(sn_state snap, PhReady)]"
    "mg_snapshot m1 = snap" "tp_helper_ok t = (cfg_routing_mode profile \<noteq> ProxyOnly)"
    "tp_name t = (if cfg_routing_mode profile \<noteq> ProxyOnly then Some TUN_NAME else None)"
    "snap = ready_snapshot (resolved_exit ssh profile) proxies t now snap0"
    "mg_active m1 = Some a" "as_ssh a = ssh" "as_proxies a = proxies" "(as_helper a \<noteq> None) = (cfg_routing_mode profile \<noteq> ProxyOnly)"
    using connect_proxies_progress [OF run] unfolding r by blast
  have "sn_profile_id snap = Some (cfg_id profile) \<and> sn_server_label snap = sn_server_label snap0 \<and> sn_kill_switch snap = cfg_kill_switch profile
      \<and> (sn_state snap = Connected \<or> sn_state snap = Degraded \<and> gw_enabled (cfg_udpgw profile))
      \<and> sn_socks snap = Some (''socks5://'' @ ph_socks proxies) \<and> sn_http snap = Some (''http://'' @ ph_http proxies)
      \<and> sn_helper_ok snap = tp_helper_ok t \<and> sn_tun_name snap = tp_name t"
    unfolding p(5) ready_snapshot_def snap0 connecting_snapshot_def r by simp
  then show ?thesis using idle ssh m2 p snap0 by (intro exI [of _ a]) auto
qed

theorem connect_reports_progress_witness:
  "progress example_connected = [(Connecting, PhResolvingServer), (Connecting, PhEstablishingTcp), (Authenticating, PhAuthenticating),
     (EstablishingTunnel, PhEstablishingTunnel), (Connected, PhReady)]"
proof -
  have p: "cfg_protocol example_ss = PShadowsocks" "cfg_routing_mode example_ss = ProxyOnly" "\<not> gw_enabled (cfg_udpgw example_ss)"
    "progress (mgr_new example_machine) = []"
    by (simp_all add: example_ss_def new_shadowsocks_def default_udpgw_settings_def progress_def mgr_new_def)
  obtain snap where "mgr_connect example_tunnel_env example_store None example_ss (mgr_new example_machine) = (Inr snap, example_connected)"
    using example_mgr_connect by blast
  from connect_reports_progress [OF this] p show ?thesis by auto
qed

subsection \<open>What the guarantees exclude\<close>

text \<open>
  The statistics task reads the snapshot and writes it back in two steps. A disconnect between them is overwritten: the manager then
  says connected and has no session.
\<close>

lemma stats_overwrite_disconnect:
  assumes "stats_read rate last' now m = Some snap" and "mgr_inv m" and "mgr_disconnect env m = (r, m1)" and "returns r"
  shows "live (mg_snapshot (publish snap m1)) \<and> mg_active (publish snap m1) = None \<and> pr_held (mg_proc (publish snap m1)) = []"
proof -
  have "mg_active m1 = None \<and> pr_held (mg_proc m1) = []" using mgr_disconnect_inv [OF assms(2-4)] by (auto simp: mgr_inv_def)
  then show ?thesis using stats_read_Some [OF assms(1)] by (simp add: live_def)
qed

text \<open>A TUN device that cannot be opened ends the connection without cancelling the tasks of the tunnel: they keep their ports.\<close>

lemma tun_io_failure_keeps_tasks:
  assumes "on_proc (split_bypass_nets (te_config env) (ue_dial env) profile) s = (extra, s1)"
    and "helper_call env h (Apply (tunnel_spec profile ips extra ok)) (\<lambda>results peer. client_apply (te_ipc env) results peer (tunnel_spec profile ips extra ok)) s1
       = (Inr (msg, fd), s2)"
    and "on_proc (te_tun_io env fd) s2 = (Inl e, s3)"
  shows "apply_tunnel env profile h ips ok tok s = (Inl (TErr (TunHelper e)), s3) \<and> pr_held s3 = pr_held s"
  using assms on_proc_held [OF assms(1)] helper_call_held [OF assms(2)] on_proc_held [OF assms(3)]
  by (simp add: apply_tunnel_def Let_def same_held_def)

end
