(* ===== verification/Udpgw.thy ===== *)
theory Udpgw
  imports Byte_Stream
begin

text \<open>
  The UDPGW client (\<^verbatim>\<open>crates/udpgw\<close>): the packet format of \<^verbatim>\<open>proto.rs\<close> and the flow table,
  the DNS waiters and the read loop of \<^verbatim>\<open>client.rs\<close>. Every operation that holds a lock of
  \<^verbatim>\<open>Inner\<close> is one atomic function on the state; the calls suspended in \<^verbatim>\<open>query_dns\<close> are
  part of the state, so that timeouts and replies can interleave in any order.
\<close>

subsection \<open>Packets\<close>

datatype udpgw_error = UIo io_kind | UPacket string | UClosed | UTimeout

definition FLAG_KEEPALIVE :: u8 where "FLAG_KEEPALIVE = 1"
definition FLAG_REBIND :: u8 where "FLAG_REBIND = 2"
definition FLAG_DNS :: u8 where "FLAG_DNS = 4"
definition FLAG_IPV6 :: u8 where "FLAG_IPV6 = 8"

lemmas flag_defs = FLAG_KEEPALIVE_def FLAG_REBIND_def FLAG_DNS_def FLAG_IPV6_def

record udpgw_packet =
  pkt_flags :: u8
  pkt_conid :: u16
  pkt_dest :: "sock_addr option"
  pkt_payload :: bytes

definition keepalive :: "u16 \<Rightarrow> udpgw_packet" where
  "keepalive c = \<lparr> pkt_flags = FLAG_KEEPALIVE, pkt_conid = c, pkt_dest = None, pkt_payload = [] \<rparr>"

definition data_packet :: "u16 \<Rightarrow> sock_addr \<Rightarrow> bytes \<Rightarrow> bool \<Rightarrow> bool \<Rightarrow> udpgw_packet" where
  "data_packet c d p dns rebind =
     (let f0 = (0 :: u8);
          f1 = (if is_ipv6 (sock_ip d) then f0 OR FLAG_IPV6 else f0);
          f2 = (if dns then f1 OR FLAG_DNS else f1);
          f3 = (if rebind then f2 OR FLAG_REBIND else f2)
      in \<lparr> pkt_flags = f3, pkt_conid = c, pkt_dest = Some d, pkt_payload = p \<rparr>)"

definition encode_body :: "udpgw_packet \<Rightarrow> udpgw_error + bytes" where
  "encode_body pkt =
     (let body = [pkt_flags pkt] @ to_le 2 (unat (pkt_conid pkt)) in
      if pkt_flags pkt AND FLAG_KEEPALIVE \<noteq> 0 then Inr body
      else and_then (ok_or (UPacket ''data packet missing destination'') (pkt_dest pkt)) (\<lambda>d.
        case sock_ip d of
          IpV4 ip \<Rightarrow> Inr (body @ octets4 ip @ to_be 2 (unat (sock_port d)) @ pkt_payload pkt)
        | IpV6 ip \<Rightarrow>
            if pkt_flags pkt AND FLAG_IPV6 = 0 then Inl (UPacket ''IPv6 dest without FLAG_IPV6'')
            else Inr (body @ octets6 ip @ to_be 2 (unat (sock_port d)) @ pkt_payload pkt)))"

definition encode_frame :: "udpgw_packet \<Rightarrow> udpgw_error + bytes" where
  "encode_frame pkt =
     and_then (encode_body pkt) (\<lambda>body.
       if 65535 < length body then Inl (UPacket ''UDPGW payload exceeds 65535'')
       else Inr (to_le 2 (length body) @ body))"

definition decode_body :: "bytes \<Rightarrow> udpgw_error + udpgw_packet" where
  "decode_body body =
     (if length body < 3 then Inl (UPacket ''UDPGW header truncated'')
      else
        let f = body ! 0; c = word_of_nat (of_le [body ! 1, body ! 2]); rest = drop 3 body in
        if f AND FLAG_KEEPALIVE \<noteq> 0 then
          Inr \<lparr> pkt_flags = f, pkt_conid = c, pkt_dest = None, pkt_payload = [] \<rparr>
        else if f AND FLAG_IPV6 \<noteq> 0 then
          (if length rest < 18 then Inl (UPacket ''IPv6 address truncated'')
           else Inr \<lparr> pkt_flags = f, pkt_conid = c,
                      pkt_dest = Some (sock_new (IpV6 (v6_from_octets (take 16 rest)))
                                            (word_of_nat (of_be [rest ! 16, rest ! 17]))),
                      pkt_payload = drop 18 rest \<rparr>)
        else
          (if length rest < 6 then Inl (UPacket ''IPv4 address truncated'')
           else Inr \<lparr> pkt_flags = f, pkt_conid = c,
                      pkt_dest = Some (sock_new (IpV4 (v4_from_octets [rest ! 0, rest ! 1, rest ! 2, rest ! 3]))
                                            (word_of_nat (of_be [rest ! 4, rest ! 5]))),
                      pkt_payload = drop 6 rest \<rparr>))"

text \<open>
  The packets both sides agree on: a keepalive carries nothing else, a data packet has a
  destination of the family its flag announces (\<^verbatim>\<open>flowinfo\<close> and \<^verbatim>\<open>scope_id\<close> are not on the
  wire), and the body fits the 16-bit length.
\<close>

definition wf_packet :: "udpgw_packet \<Rightarrow> bool" where
  "wf_packet pkt \<longleftrightarrow>
     (if pkt_flags pkt AND FLAG_KEEPALIVE \<noteq> 0 then pkt_dest pkt = None \<and> pkt_payload pkt = []
      else case pkt_dest pkt of
             None \<Rightarrow> False
           | Some (SockV4 a p) \<Rightarrow> pkt_flags pkt AND FLAG_IPV6 = 0 \<and> length (pkt_payload pkt) \<le> 65526
           | Some (SockV6 a p fl sc) \<Rightarrow>
               pkt_flags pkt AND FLAG_IPV6 \<noteq> 0 \<and> fl = 0 \<and> sc = 0 \<and> length (pkt_payload pkt) \<le> 65514)"

lemma conid_bytes: "word_of_nat (of_le [to_le 2 (unat c) ! 0, to_le 2 (unat c) ! 1]) = (c :: u16)"
proof -
  have "[to_le 2 (unat c) ! 0, to_le 2 (unat c) ! 1] = to_le 2 (unat c)" by (simp add: to_le_2)
  then show ?thesis by simp
qed

lemma port_bytes:
  "word_of_nat (of_be [to_be 2 (unat p) ! 0, to_be 2 (unat p) ! 1]) = (p :: u16)"
proof -
  have "[to_be 2 (unat p) ! 0, to_be 2 (unat p) ! 1] = to_be 2 (unat p)" by (simp add: to_be_2)
  then show ?thesis by simp
qed

lemma list4_nth: "length xs = 4 \<Longrightarrow> [xs ! 0, xs ! 1, xs ! 2, xs ! 3] = xs"
  by (auto simp: eval_nat_numeral length_Suc_conv)

lemma encode_body_ok: "wf_packet pkt \<Longrightarrow> \<exists>b. encode_body pkt = Inr b \<and> length b \<le> 65535 \<and> 3 \<le> length b"
  by (auto simp: wf_packet_def encode_body_def split: if_splits option.splits sock_addr.splits)

lemma decode_encode_v4:
  assumes "\<not> pkt_flags pkt AND FLAG_KEEPALIVE \<noteq> 0" "pkt_flags pkt AND FLAG_IPV6 = 0" "pkt_dest pkt = Some (SockV4 a p)"
  shows "and_then (encode_body pkt) decode_body = Inr pkt"
  using assms conid_bytes [of "pkt_conid pkt"] port_bytes [of p] list4_nth [of "octets4 a"]
  by (simp add: encode_body_def decode_body_def nth_append nth_Cons' Let_def)

lemma decode_encode_v6:
  assumes "\<not> pkt_flags pkt AND FLAG_KEEPALIVE \<noteq> 0" "pkt_flags pkt AND FLAG_IPV6 \<noteq> 0"
    "pkt_dest pkt = Some (SockV6 a p 0 0)"
  shows "and_then (encode_body pkt) decode_body = Inr pkt"
  using assms conid_bytes [of "pkt_conid pkt"] port_bytes [of p]
  by (simp add: encode_body_def decode_body_def nth_append nth_Cons' Let_def)

lemma decode_encode_keepalive:
  assumes "pkt_flags pkt AND FLAG_KEEPALIVE \<noteq> 0" "pkt_dest pkt = None" "pkt_payload pkt = []"
  shows "and_then (encode_body pkt) decode_body = Inr pkt"
  using assms conid_bytes [of "pkt_conid pkt"]
  by (simp add: encode_body_def decode_body_def nth_append nth_Cons' Let_def)

lemma decode_encode_body: "wf_packet pkt \<Longrightarrow> and_then (encode_body pkt) decode_body = Inr pkt"
  by (auto simp: wf_packet_def split: if_splits option.splits sock_addr.splits
      intro: decode_encode_keepalive decode_encode_v4 decode_encode_v6)

lemma encode_frame_wf:
  assumes "wf_packet pkt"
  obtains body where "encode_frame pkt = Inr (to_le 2 (length body) @ body)"
    and "decode_body body = Inr pkt" and "0 < length body" and "length body \<le> 65535"
proof -
  from encode_body_ok [OF assms] obtain b where "encode_body pkt = Inr b" "length b \<le> 65535" "3 \<le> length b"
    by blast
  moreover from this have "decode_body b = Inr pkt" using decode_encode_body [OF assms] by simp
  ultimately show ?thesis using that [of b] by (cases b) (auto simp: encode_frame_def)
qed

lemma wf_data: "length p \<le> 65514 \<Longrightarrow> \<forall>a q fl sc. d = SockV6 a q fl sc \<longrightarrow> fl = 0 \<and> sc = 0
  \<Longrightarrow> wf_packet (data_packet c d p dns rebind)"
  by (cases d) (auto simp: wf_packet_def data_packet_def flag_defs Let_def)

subsection \<open>The client\<close>

definition KEEPALIVE_SECS :: nat where "KEEPALIVE_SECS = 10"
definition UDPGW_MAX_FRAME :: nat where "UDPGW_MAX_FRAME = 65535"

text \<open>A DNS flow holds the sending half of the one-shot channel of the call that waits; calls are numbered.\<close>

datatype flow = Udp sock_addr | Dns nat

record inner =
  conn :: bstream
  next_conid :: u16
  flows :: "u16 \<Rightarrow> flow option"
  keys :: "sock_addr \<times> sock_addr \<Rightarrow> u16 option"
  waiting :: "nat \<Rightarrow> u16 option"
  answers :: "(nat \<times> bytes) list"
  replies :: "(sock_addr \<times> bytes) list"
  replies_open :: bool

definition run_udpgw :: "bstream \<Rightarrow> inner" where
  "run_udpgw stream =
     \<lparr> conn = stream, next_conid = 1, flows = Map.empty, keys = Map.empty, waiting = Map.empty,
       answers = [], replies = [], replies_open = True \<rparr>"

definition alloc_conid :: "inner \<Rightarrow> u16 \<times> inner" where
  "alloc_conid s = (next_conid s, s\<lparr>next_conid := next_conid s + 1\<rparr>)"

definition write_packet :: "udpgw_packet \<Rightarrow> inner \<Rightarrow> (udpgw_error + unit) \<times> inner" where
  "write_packet pkt s =
     (case encode_frame pkt of
        Inl e \<Rightarrow> (Inl e, s)
      | Inr frame \<Rightarrow> (case write_all UIo frame (conn s) of (r, c) \<Rightarrow> (r, s\<lparr>conn := c\<rparr>)))"

definition send_udp :: "sock_addr \<Rightarrow> sock_addr \<Rightarrow> bytes \<Rightarrow> bool \<Rightarrow> inner \<Rightarrow> (udpgw_error + unit) \<times> inner" where
  "send_udp from d p dns s =
     (case (case keys s (from, d) of
              Some cid \<Rightarrow> (cid, s)
            | None \<Rightarrow>
                (case alloc_conid s of
                   (cid, s') \<Rightarrow> (cid, s'\<lparr>keys := (keys s')((from, d) \<mapsto> cid), flows := (flows s')(cid \<mapsto> Udp from)\<rparr>)))
      of (cid, s') \<Rightarrow> write_packet (data_packet cid d p dns False) s')"

text \<open>
  \<^verbatim>\<open>query_dns\<close> up to the \<^verbatim>\<open>await\<close> on the channel, by call \<open>w\<close>; then its three ways to
  resume. A one-shot sender that is dropped (its flow overwritten) resumes the call with
  \<^verbatim>\<open>Closed\<close>.
\<close>

definition query_dns_send :: "nat \<Rightarrow> sock_addr \<Rightarrow> bytes \<Rightarrow> inner \<Rightarrow> (udpgw_error + unit) \<times> inner" where
  "query_dns_send w d q s =
     (case alloc_conid s of
        (cid, s1) \<Rightarrow>
          (case write_packet (data_packet cid d q True False) (s1\<lparr>flows := (flows s1)(cid \<mapsto> Dns w)\<rparr>) of
             (Inl e, s2) \<Rightarrow> (Inl e, s2\<lparr>flows := (flows s2)(cid := None)\<rparr>)
           | (Inr u, s2) \<Rightarrow> (Inr u, s2\<lparr>waiting := (waiting s2)(w \<mapsto> cid)\<rparr>)))"

definition query_dns_timeout :: "nat \<Rightarrow> inner \<Rightarrow> (udpgw_error + bytes) \<times> inner" where
  "query_dns_timeout w s =
     (case waiting s w of
        None \<Rightarrow> (Inl UTimeout, s)
      | Some cid \<Rightarrow> (Inl UTimeout, s\<lparr>flows := (flows s)(cid := None), waiting := (waiting s)(w := None)\<rparr>))"

definition query_dns_resume :: "nat \<Rightarrow> inner \<Rightarrow> ((udpgw_error + bytes) \<times> inner) option" where
  "query_dns_resume w s =
     (case waiting s w of
        None \<Rightarrow> None
      | Some cid \<Rightarrow>
          (case map_of (answers s) w of
             Some resp \<Rightarrow> Some (Inr resp, s\<lparr>waiting := (waiting s)(w := None)\<rparr>)
           | None \<Rightarrow>
               if flows s cid = Some (Dns w) then None
               else Some (Inl UClosed, s\<lparr>waiting := (waiting s)(w := None)\<rparr>)))"

definition keepalive_tick :: "inner \<Rightarrow> (udpgw_error + unit) \<times> inner" where
  "keepalive_tick s = write_packet (keepalive 0) s"

text \<open>
  The body of \<^verbatim>\<open>read_loop\<close> after a packet has been decoded; \<open>Inr True\<close> goes on with the next
  iteration, \<open>Inr False\<close> is the \<^verbatim>\<open>return Ok(())\<close> when nobody receives replies any more.
\<close>

definition handle_packet :: "udpgw_packet \<Rightarrow> inner \<Rightarrow> (udpgw_error + bool) \<times> inner" where
  "handle_packet pkt s =
     (if pkt_flags pkt AND FLAG_KEEPALIVE \<noteq> 0 then (Inr True, s)
      else case flows s (pkt_conid pkt) of
        Some (Dns w) \<Rightarrow>
          (Inr True, s\<lparr>flows := (flows s)(pkt_conid pkt := None), answers := (w, pkt_payload pkt) # answers s\<rparr>)
      | Some (Udp from) \<Rightarrow>
          (if replies_open s then (Inr True, s\<lparr>replies := replies s @ [(from, pkt_payload pkt)]\<rparr>)
           else (Inr False, s))
      | None \<Rightarrow> (Inr True, s))"

definition read_packet :: "(udpgw_error, udpgw_packet) io" where
  "read_packet =
     io_bind (read_exact UIo 2) (\<lambda>hdr.
       let len = of_le hdr in
       if len = 0 \<or> UDPGW_MAX_FRAME < len
       then io_fail (UPacket (''invalid frame length '' @ show_nat len))
       else io_bind (read_exact UIo len) (\<lambda>body. io_lift (decode_body body)))"

definition read_iter :: "inner \<Rightarrow> (udpgw_error + bool) \<times> inner" where
  "read_iter s =
     (case read_packet (conn s) of
        (Inl e, c) \<Rightarrow> (Inl e, s\<lparr>conn := c\<rparr>)
      | (Inr pkt, c) \<Rightarrow> handle_packet pkt (s\<lparr>conn := c\<rparr>))"

lemma handle_packet_conn [simp]: "conn (snd (handle_packet pkt s)) = conn s"
  by (auto simp: handle_packet_def split: option.splits flow.splits)

lemma read_iter_shorter:
  assumes "read_iter s = (Inr b, t)" shows "length (rx (conn t)) < length (rx (conn s))"
proof -
  from assms obtain pkt c where c: "handle_packet pkt (s\<lparr>conn := c\<rparr>) = (Inr b, t)"
    and r: "length (rx c) < length (rx (conn s))"
    by (auto simp: read_iter_def read_packet_def io_bind_def Let_def io_defs read_exact_def
        split: prod.splits sum.splits if_splits)
  then show ?thesis using handle_packet_conn [of pkt "s\<lparr>conn := c\<rparr>"] by simp
qed

function read_loop :: "inner \<Rightarrow> (udpgw_error + unit) \<times> inner" where
  "read_loop s =
     (case read_iter s of
        (Inl e, t) \<Rightarrow> (Inl e, t)
      | (Inr go_on, t) \<Rightarrow> if go_on then read_loop t else (Inr (), t))"
  by auto
termination
  by (relation "measure (\<lambda>s. length (rx (conn s)))") (auto dest: read_iter_shorter [OF sym])

declare read_loop.simps [simp del]

subsection \<open>Frames on the stream\<close>

definition frame_of :: "udpgw_packet \<Rightarrow> bytes" where
  "frame_of pkt = (case encode_frame pkt of Inl e \<Rightarrow> [] | Inr f \<Rightarrow> f)"

definition unframe_packet :: "bytes \<Rightarrow> (udpgw_packet \<times> bytes) option" where
  "unframe_packet bs =
     (case read_packet (stream_of bs) of (Inr pkt, t) \<Rightarrow> Some (pkt, rx t) | _ \<Rightarrow> None)"

lemma read_packet_frame:
  assumes "wf_packet pkt" and "rx c = frame_of pkt @ rest"
  shows "read_packet c = (Inr pkt, c\<lparr>rx := rest\<rparr>)"
proof -
  from encode_frame_wf [OF assms(1)] obtain body where
    b: "encode_frame pkt = Inr (to_le 2 (length body) @ body)" "decode_body body = Inr pkt"
       "0 < length body" "length body \<le> 65535" .
  then have "rx c = to_le 2 (length body) @ (body @ rest)" using assms(2) by (simp add: frame_of_def)
  moreover have "of_le (to_le 2 (length body)) = length body" using b(4) by simp
  ultimately show ?thesis
    using b by (simp add: read_packet_def UDPGW_MAX_FRAME_def io_defs Let_def)
qed

interpretation udpgw_frames: framing frame_of unframe_packet wf_packet
proof
  fix pkt rest assume "wf_packet pkt"
  then show "unframe_packet (frame_of pkt @ rest) = Some (pkt, rest)"
    by (simp add: unframe_packet_def read_packet_frame)
qed

text \<open>\<open>handle_packet\<close> does not look at the connection, so the loop is a fold over the packets.\<close>

definition handle_all :: "udpgw_packet list \<Rightarrow> inner \<Rightarrow> inner" where
  "handle_all ps s = fold (\<lambda>p t. snd (handle_packet p t)) ps s"

lemma handle_packet_update_conn:
  "handle_packet p (s\<lparr>conn := c\<rparr>) = (case handle_packet p s of (r, t) \<Rightarrow> (r, t\<lparr>conn := c\<rparr>))"
  by (auto simp: handle_packet_def split: option.splits flow.splits)

lemma handle_packet_open:
  "replies_open s \<Longrightarrow> \<exists>t. handle_packet p s = (Inr True, t) \<and> replies_open t \<and> conn t = conn s"
  by (auto simp: handle_packet_def split: option.splits flow.splits)

text \<open>
  C18. Whatever well-formed packets the peer writes back to back on the connection, the
  read loop decodes exactly those packets, in order, with no byte lost or reinterpreted: it
  returns only at the end of the stream, with its I/O error, in the state the packets'
  handlers lead to.
\<close>

theorem udpgw_read_loop_frames:
  assumes "list_all wf_packet ps" and "replies_open s" and "rx (conn s) = concat (map frame_of ps)"
  shows "read_loop s = (Inl (UIo (rx_end (conn s))), (handle_all ps s)\<lparr>conn := (conn s)\<lparr>rx := []\<rparr>\<rparr>)"
  using assms
proof (induction ps arbitrary: s)
  case Nil
  then have "read_packet (conn s) = (Inl (UIo (rx_end (conn s))), (conn s)\<lparr>rx := []\<rparr>)"
    by (simp add: read_packet_def io_bind_def)
  then show ?case by (subst read_loop.simps) (simp add: read_iter_def handle_all_def)
next
  case (Cons p ps)
  let ?c = "(conn s)\<lparr>rx := concat (map frame_of ps)\<rparr>"
  obtain t where t: "handle_packet p s = (Inr True, t)" "replies_open t" "conn t = conn s"
    using handle_packet_open [OF Cons.prems(2)] by blast
  have "read_packet (conn s) = (Inr p, ?c)"
    using Cons.prems by (intro read_packet_frame) simp_all
  then have it: "read_iter s = (Inr True, t\<lparr>conn := ?c\<rparr>)"
    by (simp add: read_iter_def handle_packet_update_conn t)
  have fold_conn: "handle_all ps (t\<lparr>conn := c\<rparr>) = (handle_all ps t)\<lparr>conn := c\<rparr>" for c t
    by (induction ps arbitrary: t)
      (auto simp: handle_all_def handle_packet_update_conn split: prod.splits)
  have "read_loop (t\<lparr>conn := ?c\<rparr>)
      = (Inl (UIo (rx_end (conn s))), (handle_all ps (t\<lparr>conn := ?c\<rparr>))\<lparr>conn := ?c\<lparr>rx := []\<rparr>\<rparr>)"
    using Cons.IH [of "t\<lparr>conn := ?c\<rparr>"] Cons.prems t by simp
  then show ?case
    using it t fold_conn by (subst read_loop.simps) (simp add: handle_all_def)
qed

definition example_packet :: udpgw_packet where
  "example_packet = data_packet 1 (SockV4 (ipv4 8 8 8 8) 53) [1, 2, 3] True False"

definition example_client :: inner where
  "example_client = run_udpgw (stream_of (frame_of example_packet @ frame_of (keepalive 0)))"

theorem udpgw_read_loop_frames_witness:
  "fst (read_loop example_client) = Inl (UIo UnexpectedEof)"
proof -
  have "wf_packet example_packet" unfolding example_packet_def by (rule wf_data) simp_all
  moreover have "wf_packet (keepalive 0)" by (simp add: keepalive_def wf_packet_def flag_defs)
  ultimately show ?thesis
    using udpgw_read_loop_frames [of "[example_packet, keepalive 0]" example_client]
    by (simp add: example_client_def run_udpgw_def)
qed

subsection \<open>Interleavings of the calls, the reader and the peer\<close>

inductive udpgw_step :: "inner \<Rightarrow> inner \<Rightarrow> bool" where
  step_send: "send_udp f d p dns s = (r, t) \<Longrightarrow> udpgw_step s t"
| step_query: "waiting s w = None \<Longrightarrow> map_of (answers s) w = None \<Longrightarrow> \<forall>c. flows s c \<noteq> Some (Dns w)
    \<Longrightarrow> query_dns_send w d q s = (r', t) \<Longrightarrow> udpgw_step s t"
| step_timeout: "query_dns_timeout w s = (r'', t) \<Longrightarrow> udpgw_step s t"
| step_resume: "query_dns_resume w s = Some (r'', t) \<Longrightarrow> udpgw_step s t"
| step_keepalive: "keepalive_tick s = (r, t) \<Longrightarrow> udpgw_step s t"
| step_read: "read_iter s = (b, t) \<Longrightarrow> udpgw_step s t"
| step_receiver_gone: "udpgw_step s (s\<lparr>replies_open := False\<rparr>)"
| step_peer: "udpgw_step s (s\<lparr>conn := (conn s)\<lparr>rx := rx (conn s) @ bs\<rparr>\<rparr>)"

definition udpgw_init :: "inner \<Rightarrow> bool" where
  "udpgw_init s \<longleftrightarrow> (\<exists>stream. s = run_udpgw stream)"

text \<open>
  The connection identifier is a wrapping 16-bit counter that starts at 1; it has not
  wrapped as long as it has not come back to 0. Under that proviso identifiers are never
  shared.
\<close>

definition unwrapped_step :: "inner \<Rightarrow> inner \<Rightarrow> bool" where
  "unwrapped_step s t \<longleftrightarrow> udpgw_step s t \<and> next_conid t \<noteq> 0"

definition flow_inv :: "inner \<Rightarrow> bool" where
  "flow_inv s \<longleftrightarrow>
     next_conid s \<noteq> 0
   \<and> (\<forall>c x. flows s c = Some x \<longrightarrow> c < next_conid s)
   \<and> (\<forall>k c. keys s k = Some c \<longrightarrow> flows s c = Some (Udp (fst k)))
   \<and> (\<forall>k k' c. keys s k = Some c \<longrightarrow> keys s k' = Some c \<longrightarrow> k = k')
   \<and> (\<forall>c w. flows s c = Some (Dns w) \<longrightarrow> waiting s w = Some c \<and> map_of (answers s) w = None)
   \<and> (\<forall>w c. waiting s w = Some c \<longrightarrow>
        c < next_conid s \<and> (flows s c = Some (Dns w) \<or> flows s c = None \<and> map_of (answers s) w \<noteq> None))"

lemma write_packet_keeps [simp]:
  "next_conid (snd (write_packet pkt s)) = next_conid s" "flows (snd (write_packet pkt s)) = flows s"
  "keys (snd (write_packet pkt s)) = keys s" "waiting (snd (write_packet pkt s)) = waiting s"
  "answers (snd (write_packet pkt s)) = answers s" "replies (snd (write_packet pkt s)) = replies s"
  by (auto simp: write_packet_def split: sum.splits prod.splits)

lemma flow_inv_cong:
  "next_conid s = next_conid t \<Longrightarrow> flows s = flows t \<Longrightarrow> keys s = keys t \<Longrightarrow> waiting s = waiting t
   \<Longrightarrow> answers s = answers t \<Longrightarrow> flow_inv s = flow_inv t"
  by (simp add: flow_inv_def)

lemma flow_inv_write [simp]: "flow_inv (snd (write_packet pkt s)) = flow_inv s"
  by (rule flow_inv_cong) simp_all

lemma next_less: "(c :: u16) + 1 \<noteq> 0 \<Longrightarrow> c < c + 1"
  using unatSuc [of c] by (simp add: word_less_nat_alt add.commute)

lemma next_less_trans: "(c :: u16) + 1 \<noteq> 0 \<Longrightarrow> d < c \<Longrightarrow> d < c + 1"
  using next_less [of c] by auto

lemma flow_invD:
  assumes "flow_inv s"
  shows "next_conid s \<noteq> 0"
    and "flows s c = Some x \<Longrightarrow> c < next_conid s"
    and "keys s k = Some c \<Longrightarrow> flows s c = Some (Udp (fst k))"
    and "keys s k = Some c \<Longrightarrow> keys s k' = Some c \<Longrightarrow> k = k'"
    and "flows s c = Some (Dns w) \<Longrightarrow> waiting s w = Some c \<and> map_of (answers s) w = None"
    and "waiting s w = Some c \<Longrightarrow> c < next_conid s"
    and "waiting s w = Some c \<Longrightarrow> flows s c = Some (Dns w) \<or> flows s c = None \<and> map_of (answers s) w \<noteq> None"
  using assms unfolding flow_inv_def by blast+

lemma flow_invI:
  assumes "next_conid s \<noteq> 0"
    and "\<And>c x. flows s c = Some x \<Longrightarrow> c < next_conid s"
    and "\<And>k c. keys s k = Some c \<Longrightarrow> flows s c = Some (Udp (fst k))"
    and "\<And>k k' c. keys s k = Some c \<Longrightarrow> keys s k' = Some c \<Longrightarrow> k = k'"
    and "\<And>c w. flows s c = Some (Dns w) \<Longrightarrow> waiting s w = Some c \<and> map_of (answers s) w = None"
    and "\<And>w c. waiting s w = Some c \<Longrightarrow> c < next_conid s"
    and "\<And>w c. waiting s w = Some c \<Longrightarrow>
           flows s c = Some (Dns w) \<or> flows s c = None \<and> map_of (answers s) w \<noteq> None"
  shows "flow_inv s"
  using assms unfolding flow_inv_def by blast

lemma flow_inv_fresh: "flow_inv s \<Longrightarrow> flows s (next_conid s) = None"
  using flow_invD(2) [of s "next_conid s"] by (cases "flows s (next_conid s)") auto

lemma flow_inv_fresh_key: "flow_inv s \<Longrightarrow> keys s k \<noteq> Some (next_conid s)"
  using flow_invD(3) [of s k "next_conid s"] flow_inv_fresh [of s] by auto

lemma flow_inv_fresh_waiting: "flow_inv s \<Longrightarrow> waiting s w \<noteq> Some (next_conid s)"
  using flow_invD(6) [of s w "next_conid s"] by auto

lemmas flow_inv_fresh_all = flow_inv_fresh flow_inv_fresh_key flow_inv_fresh_waiting

text \<open>The four ways the tables change: a flow is added for a key, a flow is added for a call, a
  flow and its call leave the tables, a call's flow is replaced by its answer.\<close>

lemma flow_inv_add_udp:
  assumes inv: "flow_inv s" and n: "next_conid s + 1 \<noteq> 0"
    and t: "next_conid t = next_conid s + 1" "keys t = (keys s)((f, d) \<mapsto> next_conid s)"
      "flows t = (flows s)(next_conid s \<mapsto> Udp f)" "waiting t = waiting s" "answers t = answers s"
  shows "flow_inv t"
proof (rule flow_invI, goal_cases)
  case (3 k c)
  then show ?case using t flow_invD(3) [OF inv, of k c] flow_inv_fresh [OF inv] by (auto split: if_splits)
next
  case (4 k k' c)
  then show ?case
    using t flow_invD(4) [OF inv, of k c k'] flow_inv_fresh_key [OF inv] by (auto split: if_splits)
next
  case (7 w c)
  then show ?case
    using t flow_invD(7) [OF inv, of w c] flow_inv_fresh_waiting [OF inv, of w] by auto
qed (use t n flow_invD(2,5,6) [OF inv] next_less [OF n] next_less_trans [OF n] in
      \<open>auto split: if_splits\<close>)

lemma flow_inv_add_dns:
  assumes inv: "flow_inv s" and n: "next_conid s + 1 \<noteq> 0"
    and w: "waiting s w = None" "map_of (answers s) w = None"
    and t: "next_conid t = next_conid s + 1" "keys t = keys s" "answers t = answers s"
      "flows t = (flows s)(next_conid s \<mapsto> Dns w)" "waiting t = (waiting s)(w \<mapsto> next_conid s)"
  shows "flow_inv t"
proof (rule flow_invI, goal_cases)
  case (3 k c)
  then show ?case using t flow_invD(3) [OF inv, of k c] flow_inv_fresh [OF inv] by (auto split: if_splits)
next
  case (4 k k' c)
  then show ?case using t flow_invD(4) [OF inv, of k c k'] by auto
next
  case (5 c w')
  then show ?case using t w flow_invD(5) [OF inv, of c w'] by (auto split: if_splits)
next
  case (7 w' c)
  then show ?case
    using t flow_invD(7) [OF inv, of w' c] flow_inv_fresh_waiting [OF inv, of w'] by (auto split: if_splits)
qed (use t n flow_invD(2,6) [OF inv] next_less [OF n] next_less_trans [OF n] in
      \<open>auto split: if_splits\<close>)

lemma flow_inv_skip:
  assumes inv: "flow_inv s" and n: "next_conid s + 1 \<noteq> 0"
    and t: "next_conid t = next_conid s + 1" "keys t = keys s" "answers t = answers s"
      "flows t = flows s" "waiting t = waiting s"
  shows "flow_inv t"
proof (rule flow_invI, goal_cases)
  case (2 c x)
  then show ?case using t flow_invD(2) [OF inv, of c x] next_less_trans [OF n] by simp
next
  case (6 w c)
  then show ?case using t flow_invD(6) [OF inv, of w c] next_less_trans [OF n] by simp
next
  case (7 w c)
  then show ?case using t flow_invD(7) [OF inv, of w c] by simp
qed (simp_all add: t n flow_invD(3,5) [OF inv], metis flow_invD(4) [OF inv])

lemma flow_inv_drop_call:
  assumes inv: "flow_inv s" and w: "waiting s w = Some c0"
    and t: "next_conid t = next_conid s" "keys t = keys s" "answers t = answers s"
      "flows t = (flows s)(c0 := None)" "waiting t = (waiting s)(w := None)"
  shows "flow_inv t"
proof (rule flow_invI, goal_cases)
  case (3 k c)
  then show ?case using t flow_invD(3) [OF inv, of k c] flow_invD(7) [OF inv w] by auto
next
  case (4 k k' c)
  then show ?case using t flow_invD(4) [OF inv, of k c k'] by auto
next
  case (5 c w')
  then show ?case using t w flow_invD(5) [OF inv, of c w'] by (auto split: if_splits)
next
  case (7 w' c)
  then show ?case
    using t flow_invD(7) [OF inv, of w' c] flow_invD(7) [OF inv w] by (auto split: if_splits)
qed (use t flow_invD(1,2,6) [OF inv] in \<open>auto split: if_splits\<close>)

lemma flow_inv_answer:
  assumes inv: "flow_inv s" and c0: "flows s c0 = Some (Dns w)"
    and t: "next_conid t = next_conid s" "keys t = keys s" "answers t = (w, resp) # answers s"
      "flows t = (flows s)(c0 := None)" "waiting t = waiting s"
  shows "flow_inv t"
proof (rule flow_invI, goal_cases)
  case (3 k c)
  then show ?case using t c0 flow_invD(3) [OF inv, of k c] by auto
next
  case (4 k k' c)
  then show ?case using t flow_invD(4) [OF inv, of k c k'] by auto
next
  case (5 c w')
  then show ?case
    using t flow_invD(5) [OF inv, of c w'] flow_invD(5) [OF inv c0] by (auto split: if_splits)
next
  case (7 w' c)
  then show ?case using t c0 flow_invD(7) [OF inv, of w' c] by auto
qed (use t flow_invD(1,2,6) [OF inv] in \<open>auto split: if_splits\<close>)

lemma flow_inv_send:
  assumes inv: "flow_inv s" and st: "send_udp f d p dns s = (r, t)" and "next_conid t \<noteq> 0"
  shows "flow_inv t"
proof (cases "keys s (f, d)")
  case (Some c)
  then have "t = snd (write_packet (data_packet c d p dns False) s)"
    using st by (simp add: send_udp_def)
  then show ?thesis using inv by simp
next
  case None
  let ?c = "next_conid s"
  let ?s = "s\<lparr>next_conid := ?c + 1, keys := (keys s)((f, d) \<mapsto> ?c), flows := (flows s)(?c \<mapsto> Udp f)\<rparr>"
  from st None have t: "t = snd (write_packet (data_packet ?c d p dns False) ?s)"
    by (simp add: send_udp_def alloc_conid_def)
  then have "?c + 1 \<noteq> 0" using assms(3) by simp
  then show ?thesis using flow_inv_add_udp [OF inv, of t f d] t by simp
qed

lemma flow_inv_query:
  assumes inv: "flow_inv s" and w: "waiting s w = None" "map_of (answers s) w = None"
    and st: "query_dns_send w d q s = (r, t)" and "next_conid t \<noteq> 0"
  shows "flow_inv t"
proof -
  let ?c = "next_conid s"
  let ?s = "s\<lparr>next_conid := ?c + 1, flows := (flows s)(?c \<mapsto> Dns w)\<rparr>"
  obtain r2 s2 where s2: "write_packet (data_packet ?c d q True False) ?s = (r2, s2)" by force
  have f: "next_conid s2 = ?c + 1" "flows s2 = (flows s)(?c \<mapsto> Dns w)" "keys s2 = keys s"
    "waiting s2 = waiting s" "answers s2 = answers s"
    using s2 write_packet_keeps [of "data_packet ?c d q True False" ?s] by simp_all
  have t: "t = (case r2 of Inl e \<Rightarrow> s2\<lparr>flows := (flows s2)(?c := None)\<rparr>
                        | Inr u \<Rightarrow> s2\<lparr>waiting := (waiting s2)(w \<mapsto> ?c)\<rparr>)"
    using st s2 by (auto simp: query_dns_send_def alloc_conid_def split: sum.splits)
  then have n: "?c + 1 \<noteq> 0" using assms(5) f by (auto split: sum.splits)
  show ?thesis
  proof (cases r2)
    case (Inl e)
    have "(flows s)(?c := None) = flows s" using flow_inv_fresh [OF inv] by (simp add: fun_upd_idem)
    then show ?thesis using flow_inv_skip [OF inv n, of t] t f Inl by simp
  next
    case (Inr u)
    then show ?thesis using flow_inv_add_dns [OF inv n w, of t] t f by simp
  qed
qed

lemma flow_inv_timeout: "flow_inv s \<Longrightarrow> query_dns_timeout w s = (r, t) \<Longrightarrow> flow_inv t"
  using flow_inv_drop_call [of s w _ t] by (fastforce simp: query_dns_timeout_def split: option.splits)

lemma flow_inv_resume:
  assumes inv: "flow_inv s" and "query_dns_resume w s = Some (r, t)" shows "flow_inv t"
proof -
  from assms(2) obtain c where c: "waiting s w = Some c"
    and t: "t = s\<lparr>waiting := (waiting s)(w := None)\<rparr>"
    and "flows s c \<noteq> Some (Dns w) \<or> map_of (answers s) w \<noteq> None"
    by (auto simp: query_dns_resume_def split: option.splits if_splits)
  then have "flows s c = None"
    using flow_invD(7) [OF inv c] flow_invD(5) [OF inv, of c w] by auto
  then have "(flows s)(c := None) = flows s" by (simp add: fun_upd_idem)
  then show ?thesis using flow_inv_drop_call [OF inv c, of t] t by simp
qed

lemma flow_inv_handle:
  assumes "flow_inv s" shows "flow_inv (snd (handle_packet pkt s))"
proof (cases "\<exists>w. flows s (pkt_conid pkt) = Some (Dns w) \<and> pkt_flags pkt AND FLAG_KEEPALIVE = 0")
  case True
  then obtain w where "flows s (pkt_conid pkt) = Some (Dns w)"
    and "snd (handle_packet pkt s)
      = s\<lparr>flows := (flows s)(pkt_conid pkt := None), answers := (w, pkt_payload pkt) # answers s\<rparr>"
    by (auto simp: handle_packet_def)
  then show ?thesis using flow_inv_answer [OF assms, of "pkt_conid pkt" w "snd (handle_packet pkt s)"] by simp
next
  case False
  then have "flow_inv (snd (handle_packet pkt s)) = flow_inv s"
    by (intro flow_inv_cong) (auto simp: handle_packet_def split: option.splits flow.splits)
  then show ?thesis using assms by simp
qed

lemma flow_inv_conn [simp]: "flow_inv (s\<lparr>conn := c\<rparr>) = flow_inv s"
  by (rule flow_inv_cong) simp_all

lemma flow_inv_read: "flow_inv s \<Longrightarrow> read_iter s = (r, t) \<Longrightarrow> flow_inv t"
  by (auto simp: read_iter_def split: prod.splits sum.splits)
    (metis flow_inv_conn flow_inv_handle snd_conv)

lemma flow_inv_step: "udpgw_step s t \<Longrightarrow> next_conid t \<noteq> 0 \<Longrightarrow> flow_inv s \<Longrightarrow> flow_inv t"
proof (induction rule: udpgw_step.cases)
  case (step_keepalive s' r t')
  then show ?case using flow_inv_write [of "keepalive 0" s] by (simp add: keepalive_tick_def)
next
  case (step_receiver_gone s')
  then show ?case using flow_inv_cong [of t s] by simp
qed (auto intro: flow_inv_send flow_inv_query flow_inv_timeout flow_inv_resume flow_inv_read)

interpretation udpgw_flows: inductive_invariant udpgw_init unwrapped_step flow_inv
  by unfold_locales
    (auto simp: udpgw_init_def run_udpgw_def unwrapped_step_def intro: flow_inv_step,
     auto simp: flow_inv_def)

text \<open>
  C19. As long as the 16-bit connection identifier has not wrapped, replies are never
  misrouted, in any interleaving of \<^verbatim>\<open>send_udp\<close>, \<^verbatim>\<open>query_dns\<close>, its timeout, the reader,
  keepalives and the peer: a packet whose identifier belongs to a UDP key is handed to
  the local address of that key, and one that belongs to an unanswered DNS call is handed
  to that call and to no other.
\<close>

theorem udpgw_reply_routing:
  assumes "reachable udpgw_init unwrapped_step s" and "pkt_flags pkt AND FLAG_KEEPALIVE = 0"
    and "replies_open s"
  shows "(keys s (f, d) = Some (pkt_conid pkt) \<longrightarrow>
            handle_packet pkt s = (Inr True, s\<lparr>replies := replies s @ [(f, pkt_payload pkt)]\<rparr>))
       \<and> (waiting s w = Some (pkt_conid pkt) \<longrightarrow> map_of (answers s) w = None \<longrightarrow>
            handle_packet pkt s =
              (Inr True, s\<lparr>flows := (flows s)(pkt_conid pkt := None), answers := (w, pkt_payload pkt) # answers s\<rparr>))"
proof -
  have inv: "flow_inv s" by (rule udpgw_flows.reachable_inv [OF assms(1)])
  show ?thesis
    using flow_invD(3) [OF inv, of "(f, d)" "pkt_conid pkt"] flow_invD(7) [OF inv, of w "pkt_conid pkt"] assms(2,3)
    by (auto simp: handle_packet_def)
qed

definition example_src :: sock_addr where "example_src = SockV4 (ipv4 10 0 0 2) 40000"
definition example_dst :: sock_addr where "example_dst = SockV4 (ipv4 1 1 1 1) 443"

definition example_sent :: inner where
  "example_sent = snd (send_udp example_src example_dst [7] False (run_udpgw (stream_of [])))"

lemma example_sent_fields:
  "keys example_sent (example_src, example_dst) = Some 1" "next_conid example_sent = 2"
  "replies example_sent = []" "replies_open example_sent" "tx_cap (conn example_sent) = None"
proof -
  have "wf_packet (data_packet 1 example_dst [7] False False)"
    by (rule wf_data) (simp_all add: example_dst_def)
  then obtain b where f: "encode_frame (data_packet 1 example_dst [7] False False) = Inr b"
    using encode_frame_wf by metis
  show "keys example_sent (example_src, example_dst) = Some 1" "next_conid example_sent = 2"
    "replies example_sent = []" "replies_open example_sent" "tx_cap (conn example_sent) = None"
    by (simp_all add: example_sent_def send_udp_def run_udpgw_def alloc_conid_def write_packet_def f)
qed

lemma example_sent_step: "udpgw_step (run_udpgw (stream_of [])) example_sent"
  unfolding example_sent_def
  by (rule step_send [OF surjective_pairing])

lemma example_init: "udpgw_init (run_udpgw (stream_of []))"
  by (auto simp: udpgw_init_def)

theorem udpgw_reply_routing_witness:
  "replies (snd (handle_packet \<lparr> pkt_flags = 0, pkt_conid = 1, pkt_dest = None, pkt_payload = [9] \<rparr> example_sent))
     = [(example_src, [9])]"
proof -
  have "unwrapped_step (run_udpgw (stream_of [])) example_sent"
    using example_sent_step by (simp add: unwrapped_step_def example_sent_fields)
  then have "reachable udpgw_init unwrapped_step example_sent"
    using reach_step [where step = unwrapped_step, OF reach_init [where init = udpgw_init, OF example_init]] by blast
  then show ?thesis
    using udpgw_reply_routing [of example_sent
        "\<lparr> pkt_flags = 0, pkt_conid = 1, pkt_dest = None, pkt_payload = [9] \<rparr>" example_src example_dst 0]
    by (simp add: example_sent_fields)
qed

subsection \<open>The identifier wraps around\<close>

lemma query_timeout_round:
  assumes "tx_cap (conn s) = None" and "waiting s w = None" and "map_of (answers s) w = None"
    and "\<forall>c. flows s c \<noteq> Some (Dns w)"
  shows "\<exists>t. udpgw_step\<^sup>*\<^sup>* s t \<and> tx_cap (conn t) = None \<and> waiting t = waiting s \<and> answers t = answers s
           \<and> keys t = keys s \<and> next_conid t = next_conid s + 1
           \<and> flows t = (flows s)(next_conid s := None)"
proof -
  let ?c = "next_conid s" and ?d = "SockV4 0 53"
  let ?s1 = "s\<lparr>next_conid := ?c + 1, flows := (flows s)(?c \<mapsto> Dns w)\<rparr>"
  have "wf_packet (data_packet ?c ?d [] True False)" by (rule wf_data) simp_all
  then obtain f where f: "encode_frame (data_packet ?c ?d [] True False) = Inr f"
    using encode_frame_wf by metis
  let ?s2 = "?s1\<lparr>conn := (conn s)\<lparr>tx := tx (conn s) @ f\<rparr>, waiting := (waiting s)(w \<mapsto> ?c)\<rparr>"
  let ?t = "?s2\<lparr>flows := (flows s)(?c := None), waiting := waiting s\<rparr>"
  have "query_dns_send w ?d [] s = (Inr (), ?s2)"
    by (simp add: query_dns_send_def alloc_conid_def write_packet_def f assms)
  then have "udpgw_step s ?s2" using assms by (auto intro: step_query)
  moreover have "query_dns_timeout w ?s2 = (Inl UTimeout, ?t)"
    using assms(2) by (simp add: query_dns_timeout_def fun_upd_idem)
  then have "udpgw_step ?s2 ?t" by (rule step_timeout)
  ultimately have "udpgw_step\<^sup>*\<^sup>* s ?t" by simp
  then show ?thesis using assms by (intro exI [of _ ?t]) simp
qed

lemma query_timeout_rounds:
  assumes "tx_cap (conn s) = None" and "waiting s w = None" and "map_of (answers s) w = None"
    and "\<forall>c. flows s c \<noteq> Some (Dns w)"
  shows "\<exists>t. udpgw_step\<^sup>*\<^sup>* s t \<and> tx_cap (conn t) = None \<and> waiting t w = None \<and> map_of (answers t) w = None
           \<and> (\<forall>c. flows t c \<noteq> Some (Dns w)) \<and> keys t = keys s \<and> next_conid t = next_conid s + word_of_nat n"
proof (induction n)
  case 0
  then show ?case using assms by (intro exI [of _ s]) simp
next
  case (Suc n)
  then obtain t where t: "udpgw_step\<^sup>*\<^sup>* s t" "tx_cap (conn t) = None" "waiting t w = None"
    "map_of (answers t) w = None" "\<forall>c. flows t c \<noteq> Some (Dns w)" "keys t = keys s"
    "next_conid t = next_conid s + word_of_nat n" by blast
  from query_timeout_round [OF t(2-5)] obtain u where "udpgw_step\<^sup>*\<^sup>* t u" "tx_cap (conn u) = None"
    "waiting u = waiting t" "answers u = answers t" "keys u = keys t" "next_conid u = next_conid t + 1"
    "flows u = (flows t)(next_conid t := None)" by blast
  moreover from this have "udpgw_step\<^sup>*\<^sup>* s u" using t(1) by simp
  ultimately show ?case using t by (intro exI [of _ u]) (simp add: add.commute add.left_commute)
qed

lemma reachable_rtranclp: "step\<^sup>*\<^sup>* s t \<Longrightarrow> reachable init step s \<Longrightarrow> reachable init step t"
  by (induction rule: rtranclp.induct) (auto intro: reachable.reach_step)

text \<open>
  After the identifier has wrapped, a DNS query can take over the identifier of a
  live UDP flow and delete it from the flow table while \<^verbatim>\<open>keys\<close> still points to it: the
  state is reachable, sending on that key again does not re-create the flow, and every
  reply for it is then dropped as an unknown identifier.
\<close>

theorem udpgw_wrap_loses_flow:
  "\<exists>s f d c. reachable udpgw_init udpgw_step s \<and> keys s (f, d) = Some c
     \<and> (\<forall>p dns. flows (snd (send_udp f d p dns s)) c = None)
     \<and> (\<forall>fl q. handle_packet \<lparr> pkt_flags = fl, pkt_conid = c, pkt_dest = Some d, pkt_payload = q \<rparr> s = (Inr True, s))"
proof -
  have r0: "reachable udpgw_init udpgw_step example_sent"
    using reach_step [where step = udpgw_step, OF reach_init [where init = udpgw_init, OF example_init] example_sent_step] .
  have w: "waiting example_sent 0 = None" "map_of (answers example_sent) 0 = None"
    "\<forall>c. flows example_sent c \<noteq> Some (Dns 0)"
    by (auto simp: example_sent_def send_udp_def run_udpgw_def alloc_conid_def split: if_splits)
  obtain t where t: "udpgw_step\<^sup>*\<^sup>* example_sent t" "tx_cap (conn t) = None" "waiting t 0 = None"
    "map_of (answers t) 0 = None" "\<forall>c. flows t c \<noteq> Some (Dns 0)" "keys t = keys example_sent"
    "next_conid t = next_conid example_sent + word_of_nat 65535"
    using query_timeout_rounds [OF example_sent_fields(5) w] by blast
  have n: "next_conid t = 1" using t(7) by (simp add: example_sent_fields)
  obtain u where u: "udpgw_step\<^sup>*\<^sup>* t u" "keys u = keys t" "flows u = (flows t)(next_conid t := None)"
    using query_timeout_round [OF t(2-5)] by blast
  have k: "keys u (example_src, example_dst) = Some 1" "flows u 1 = None"
    using u t(6) n by (simp_all add: example_sent_fields)
  have "reachable udpgw_init udpgw_step u"
    using r0 t(1) u(1) by (blast intro: reachable_rtranclp)
  moreover have "flows (snd (send_udp example_src example_dst p dns u)) 1 = None" for p dns
    using k by (simp add: send_udp_def)
  moreover have "handle_packet \<lparr> pkt_flags = fl, pkt_conid = 1, pkt_dest = Some example_dst, pkt_payload = q \<rparr> u
      = (Inr True, u)" for fl q
    using k by (simp add: handle_packet_def)
  ultimately show ?thesis using k(1) by blast
qed

end
