(* ===== verification/Transproxy.thy ===== *)
theory Transproxy
  imports Ss_Connector Udpgw Dns
begin

text \<open>
  The intercepts of full-tunnel mode (\<^verbatim>\<open>crates/tunnel/src/transproxy.rs\<close>): the transparent TCP proxy, the DNS proxy with its reused
  DNS-over-TCP stream, and the UDP proxy in front of UDPGW. The kernel's answers (socket options, control messages, datagrams) and the
  upstream, a trait object, are arguments.
\<close>

subsection \<open>Addresses from the kernel\<close>

text \<open>Ports and addresses are kept as the bytes in memory, in network order.\<close>

record sockaddr_in =
  sin_port :: bytes
  sin_addr :: bytes

record sockaddr_in6 =
  sin6_port :: bytes
  sin6_flowinfo :: u32
  sin6_addr :: bytes
  sin6_scope_id :: u32

datatype sockaddr = SaIn sockaddr_in | SaIn6 sockaddr_in6 | SaOther

definition from_sockaddr_in :: "sockaddr_in \<Rightarrow> sock_addr" where
  "from_sockaddr_in a = SockV4 (v4_from_octets (sin_addr a)) (word_of_nat (of_be (sin_port a)))"

definition from_sockaddr_in6 :: "sockaddr_in6 \<Rightarrow> sock_addr" where
  "from_sockaddr_in6 a =
     SockV6 (v6_from_octets (sin6_addr a)) (word_of_nat (of_be (sin6_port a))) (sin6_flowinfo a) (sin6_scope_id a)"

text \<open>\<open>None\<close> is a socket option that the kernel refuses.\<close>

definition original_dst_v4 :: "sockaddr option \<Rightarrow> sock_addr option" where
  "original_dst_v4 opt = (case opt of Some (SaIn a) \<Rightarrow> Some (from_sockaddr_in a) | _ \<Rightarrow> None)"

definition original_dst_v6 :: "sockaddr option \<Rightarrow> sock_addr option" where
  "original_dst_v6 opt = (case opt of Some (SaIn6 a) \<Rightarrow> Some (from_sockaddr_in6 a) | _ \<Rightarrow> None)"

definition original_dst :: "sockaddr option \<Rightarrow> sockaddr option \<Rightarrow> io_kind + sock_addr \<Rightarrow> io_kind + sock_addr" where
  "original_dst opt4 opt6 peer =
     (case original_dst_v4 opt4 of
        Some v4 \<Rightarrow> Inr v4
      | None \<Rightarrow> (case original_dst_v6 opt6 of Some v6 \<Rightarrow> Inr v6 | None \<Rightarrow> peer))"

definition sockaddr_storage :: "sockaddr \<Rightarrow> sock_addr option" where
  "sockaddr_storage ss = (case ss of SaIn a \<Rightarrow> Some (from_sockaddr_in a) | SaIn6 a \<Rightarrow> Some (from_sockaddr_in6 a) | SaOther \<Rightarrow> None)"

text \<open>A control message, with its data read as either structure.\<close>

record cmsg =
  cm_level :: nat
  cm_type :: nat
  cm_in :: sockaddr_in
  cm_in6 :: sockaddr_in6

definition IPPROTO_IP :: nat where "IPPROTO_IP = 0"
definition IPPROTO_IPV6 :: nat where "IPPROTO_IPV6 = 41"
definition IP_ORIGDSTADDR :: nat where "IP_ORIGDSTADDR = 20"
definition IPV6_ORIGDSTADDR :: nat where "IPV6_ORIGDSTADDR = 74"

fun origdst_from_cmsg :: "cmsg list \<Rightarrow> sock_addr option" where
  "origdst_from_cmsg [] = None"
| "origdst_from_cmsg (hdr # rest) =
     (if cm_level hdr = IPPROTO_IP \<and> cm_type hdr = IP_ORIGDSTADDR then Some (from_sockaddr_in (cm_in hdr))
      else if cm_level hdr = IPPROTO_IPV6 \<and> cm_type hdr = IPV6_ORIGDSTADDR then Some (from_sockaddr_in6 (cm_in6 hdr))
      else origdst_from_cmsg rest)"

definition recv_udp_origdst :: "io_kind + bytes \<times> sockaddr \<times> cmsg list \<Rightarrow> io_kind + bytes \<times> sock_addr \<times> sock_addr" where
  "recv_udp_origdst received =
     (case received of
        Inl e \<Rightarrow> Inl e
      | Inr (payload, name, control) \<Rightarrow>
          (case sockaddr_storage name of
             None \<Rightarrow> Inl InvalidData
           | Some src \<Rightarrow> Inr (payload, src, unwrap_or (origdst_from_cmsg control) src)))"

subsection \<open>TCP\<close>

text \<open>What an intercepted connection does: its result, the client, the counters, and the targets it asked the upstream for.\<close>

definition handle_intercepted :: "'u connector \<Rightarrow> 'u copier \<Rightarrow> io_kind + sock_addr \<Rightarrow> proxy_stats \<Rightarrow> bstream
    \<Rightarrow> (io_kind + unit) \<times> bstream \<times> proxy_stats \<times> (string \<times> u16) list" where
  "handle_intercepted connect copy dst stats client =
     (case dst of
        Inl e \<Rightarrow> (Inl e, client, stats, [])
      | Inr dest \<Rightarrow>
          let target = (show_ip (sock_ip dest), sock_port dest) in
          (case connect (fst target) (snd target) of
             Inl e \<Rightarrow> (Inr (), client, stats, [target])
           | Inr rhs \<Rightarrow>
               (case copy client rhs of
                  (Inr (up_n, down_n), c) \<Rightarrow> (Inr (), c, record_relay stats up_n down_n, [target])
                | (Inl e, c) \<Rightarrow> (Inr (), c, stats, [target]))))"

text \<open>The accept and receive loops: they serve what arrives until they are cancelled or the socket fails.\<close>

datatype 'a event = Cancelled | Arrived 'a | SocketFailed io_kind

fun serve_loop :: "'a event list \<Rightarrow> 'a list" where
  "serve_loop [] = []"
| "serve_loop (Arrived x # es) = x # serve_loop es"
| "serve_loop (Cancelled # es) = []"
| "serve_loop (SocketFailed e # es) = []"

text \<open>The sessions run concurrently; their atomic additions to the counters commute, so they are taken one after the other.\<close>

fun serve_intercepted :: "'u connector \<Rightarrow> 'u copier \<Rightarrow> ((io_kind + sock_addr) \<times> bstream) list \<Rightarrow> proxy_stats
    \<Rightarrow> (string \<times> u16) list \<times> proxy_stats" where
  "serve_intercepted connect copy [] stats = ([], stats)"
| "serve_intercepted connect copy ((dst, client) # cs) stats =
     (case handle_intercepted connect copy dst stats client of (r, c, stats1, targets) \<Rightarrow>
      case serve_intercepted connect copy cs stats1 of (later, stats2) \<Rightarrow> (targets @ later, stats2))"

definition run_transproxy :: "'u connector \<Rightarrow> 'u copier \<Rightarrow> ((io_kind + sock_addr) \<times> bstream) event list \<Rightarrow> proxy_stats
    \<Rightarrow> (string \<times> u16) list \<times> proxy_stats" where
  "run_transproxy connect copy es = serve_intercepted connect copy (serve_loop es)"

subsection \<open>DNS\<close>

text \<open>
  \<open>tp_dials\<close> records the targets asked from the upstream. A call of \<^verbatim>\<open>query_dns\<close> waits while the other tasks of the UDPGW client run;
  \<open>others\<close> is what they do to its state meanwhile.
\<close>

type_synonym dns_pool = "(string \<times> bstream) option"
type_synonym 'w dialer = "string \<Rightarrow> u16 \<Rightarrow> 'w \<Rightarrow> (socks_error + bstream) \<times> 'w"

record 'w intercept =
  tp_net :: 'w
  tp_pool :: dns_pool
  tp_gw :: inner
  tp_call :: nat
  tp_dials :: "(string \<times> u16) list"

definition pool_reuse :: "bytes \<Rightarrow> string \<Rightarrow> dns_pool \<Rightarrow> bytes option \<times> dns_pool" where
  "pool_reuse query host pool =
     (case pool of
        None \<Rightarrow> (None, None)
      | Some (cached_host, stream) \<Rightarrow>
          if cached_host = host then
            (case exchange_over_tcp query stream of
               (Inr resp, stream1) \<Rightarrow> (Some resp, Some (cached_host, stream1))
             | (Inl e, stream1) \<Rightarrow> (None, None))
          else (None, None))"

definition upstream_dial :: "'w dialer \<Rightarrow> string \<Rightarrow> u16 \<Rightarrow> 'w intercept \<Rightarrow> (socks_error + bstream) \<times> 'w intercept" where
  "upstream_dial dial' host port s =
     (case dial' host port (tp_net s) of (r, w) \<Rightarrow> (r, s\<lparr>tp_net := w, tp_dials := tp_dials s @ [(host, port)]\<rparr>))"

definition pool_exchange :: "'w dialer \<Rightarrow> bytes \<Rightarrow> string \<Rightarrow> 'w intercept \<Rightarrow> bytes option \<times> 'w intercept" where
  "pool_exchange dial' query host s =
     (case pool_reuse query host (tp_pool s) of
        (Some resp, pool) \<Rightarrow> (Some resp, s\<lparr>tp_pool := pool\<rparr>)
      | (None, pool) \<Rightarrow>
          (case upstream_dial dial' host 53 (s\<lparr>tp_pool := pool\<rparr>) of
             (Inl e, s1) \<Rightarrow> (None, s1)
           | (Inr stream, s1) \<Rightarrow>
               (case exchange_over_tcp query stream of
                  (Inr resp, stream1) \<Rightarrow> (Some resp, s1\<lparr>tp_pool := Some (host, stream1)\<rparr>)
                | (Inl e, stream1) \<Rightarrow> (None, s1))))"

definition servers_or_default :: "string list \<Rightarrow> string list" where
  "servers_or_default servers = (if servers = [] then default_dns_servers else servers)"

fun first_answer :: "(string \<Rightarrow> 's \<Rightarrow> bytes option \<times> 's) \<Rightarrow> string list \<Rightarrow> 's \<Rightarrow> bytes option \<times> 's" where
  "first_answer ask [] s = (None, s)"
| "first_answer ask (host # hosts) s = (case ask host s of (Some resp, s1) \<Rightarrow> (Some resp, s1) | (None, s1) \<Rightarrow> first_answer ask hosts s1)"

definition dns_over_tcp_query :: "'w dialer \<Rightarrow> bytes \<Rightarrow> string list \<Rightarrow> 'w intercept \<Rightarrow> bytes option \<times> 'w intercept" where
  "dns_over_tcp_query dial' query servers = first_answer (pool_exchange dial' query) (servers_or_default servers)"

definition query_dns :: "(inner \<Rightarrow> inner) \<Rightarrow> sock_addr \<Rightarrow> bytes \<Rightarrow> 'w intercept \<Rightarrow> (udpgw_error + bytes) \<times> 'w intercept" where
  "query_dns others dest query s =
     (case query_dns_send (tp_call s) dest query (tp_gw s) of
        (Inl e, gw) \<Rightarrow> (Inl e, s\<lparr>tp_gw := gw, tp_call := Suc (tp_call s)\<rparr>)
      | (Inr _, gw) \<Rightarrow>
          (case (case query_dns_resume (tp_call s) (others gw) of Some x \<Rightarrow> x | None \<Rightarrow> query_dns_timeout (tp_call s) (others gw)) of
             (r, gw1) \<Rightarrow> (r, s\<lparr>tp_gw := gw1, tp_call := Suc (tp_call s)\<rparr>)))"

definition dns_server_addr :: "string \<Rightarrow> sock_addr option" where
  "dns_server_addr host =
     (case parse_sock_addr (host @ '':53'') of
        Some addr \<Rightarrow> Some addr
      | None \<Rightarrow> map_option (\<lambda>ip. sock_new ip 53) (parse_ip host))"

definition ask_udpgw :: "(inner \<Rightarrow> inner) \<Rightarrow> bytes \<Rightarrow> string \<Rightarrow> 'w intercept \<Rightarrow> bytes option \<times> 'w intercept" where
  "ask_udpgw others query host s =
     (case dns_server_addr host of
        None \<Rightarrow> (None, s)
      | Some addr \<Rightarrow>
          (case query_dns others addr query s of
             (Inr resp, s1) \<Rightarrow> (if resp \<noteq> [] then Some resp else None, s1)
           | (Inl e, s1) \<Rightarrow> (None, s1)))"

text \<open>\<open>gw\<close> is \<open>None\<close> without a UDPGW client for DNS.\<close>

definition resolve_dns_query :: "'w dialer \<Rightarrow> (inner \<Rightarrow> inner) option \<Rightarrow> dns_over_tcp \<Rightarrow> string list \<Rightarrow> bytes
    \<Rightarrow> 'w intercept \<Rightarrow> bytes option \<times> 'w intercept" where
  "resolve_dns_query dial' gw mode servers query s =
     (case gw of
        Some others \<Rightarrow>
          (case first_answer (ask_udpgw others query) (servers_or_default servers) s of
             (Some resp, s1) \<Rightarrow> (Some resp, s1)
           | (None, s1) \<Rightarrow> if mode = TcpOff then (None, s1) else dns_over_tcp_query dial' query servers s1)
      | None \<Rightarrow> if mode = TcpOff then (None, s) else dns_over_tcp_query dial' query servers s)"

text \<open>The replies that the DNS proxy sends: each to the sender of its query. Queries are served one after the other here.\<close>

fun answer_queries :: "(bytes \<Rightarrow> 's \<Rightarrow> bytes option \<times> 's) \<Rightarrow> (bytes \<times> sock_addr) list \<Rightarrow> 's \<Rightarrow> (bytes \<times> sock_addr) list \<times> 's" where
  "answer_queries resolve [] s = ([], s)"
| "answer_queries resolve ((query, from) # qs) s =
     (case resolve query s of (r, s1) \<Rightarrow>
      case answer_queries resolve qs s1 of (sent, s2) \<Rightarrow> ((case r of None \<Rightarrow> [] | Some resp \<Rightarrow> [(resp, from)]) @ sent, s2))"

definition run_dns_intercept :: "'w dialer \<Rightarrow> (inner \<Rightarrow> inner) option \<Rightarrow> dns_over_tcp \<Rightarrow> string list
    \<Rightarrow> (bytes \<times> sock_addr) event list \<Rightarrow> 'w intercept \<Rightarrow> (bytes \<times> sock_addr) list \<times> 'w intercept" where
  "run_dns_intercept dial' gw mode servers es = answer_queries (resolve_dns_query dial' gw mode servers) (serve_loop es)"

subsection \<open>UDP\<close>

fun is_loopback :: "ip_addr \<Rightarrow> bool" where
  "is_loopback (IpV4 a) \<longleftrightarrow> unat a div 16777216 = 127"
| "is_loopback (IpV6 a) \<longleftrightarrow> a = 1"

fun run_udp_intercept :: "(io_kind + bytes \<times> sockaddr \<times> cmsg list) event list \<Rightarrow> inner \<Rightarrow> inner" where
  "run_udp_intercept [] gw = gw"
| "run_udp_intercept (Cancelled # es) gw = gw"
| "run_udp_intercept (SocketFailed e # es) gw = gw"
| "run_udp_intercept (Arrived m # es) gw =
     (case recv_udp_origdst m of
        Inr (payload, from, dest) \<Rightarrow>
          if is_loopback (sock_ip dest) then run_udp_intercept es gw
          else run_udp_intercept es (snd (send_udp from dest payload (sock_port dest = 53) gw))
      | Inl e \<Rightarrow> if e = WouldBlock then run_udp_intercept es gw else gw)"

definition send_reply :: "('sock \<Rightarrow> sock_addr \<Rightarrow> bytes \<Rightarrow> bool) \<Rightarrow> 'sock list \<Rightarrow> sock_addr \<times> bytes \<Rightarrow> ('sock \<times> sock_addr \<times> bytes) list" where
  "send_reply send_to socks = (\<lambda>(from, payload).
     case find (\<lambda>sock. send_to sock from payload) socks of None \<Rightarrow> [] | Some sock \<Rightarrow> [(sock, from, payload)])"

definition pump_udpgw_replies :: "('sock \<Rightarrow> sock_addr \<Rightarrow> bytes \<Rightarrow> bool) \<Rightarrow> 'sock list \<Rightarrow> (sock_addr \<times> bytes) event list
    \<Rightarrow> ('sock \<times> sock_addr \<times> bytes) list" where
  "pump_udpgw_replies send_to socks es = concat (map (send_reply send_to socks) (serve_loop es))"

fun drain_tun :: "(io_kind + nat) event list \<Rightarrow> nat" where
  "drain_tun (Arrived (Inr n) # es) = (if n = 0 then 0 else Suc (drain_tun es))"
| "drain_tun _ = 0"

subsection \<open>Intercepted connections\<close>

lemma header_of_sockaddr:
  assumes "length (sin_addr a) = 4" and "length (sin_port a) = 2"
  shows "encode_socks_addr (show_ip (sock_ip (from_sockaddr_in a))) (sock_port (from_sockaddr_in a)) = [1] @ sin_addr a @ sin_port a"
  using assms by (simp add: from_sockaddr_in_def encode_socks_addr_def v4_from_octets_def octets4_def to_be_word_of_be)

text \<open>
  C22. An intercepted IPv4 connection is carried to the address that the application dialled. It makes exactly one upstream connection; the
  host is the text of exactly that address, so every upstream which parses it gets the address back, and the Shadowsocks header for it
  ends in the very bytes, address and port, that the kernel reported. The counters grow by what was relayed and by nothing on an error.
\<close>

theorem intercepted_reaches_destination:
  assumes "length (sin_addr a) = 4" and "length (sin_port a) = 2"
    and "handle_intercepted connect copy (original_dst (Some (SaIn a)) opt6 peer) stats client = (r, c, stats1, targets)"
  shows "\<exists>host port. targets = [(host, port)] \<and> r = Inr ()
    \<and> parse_ip host = Some (IpV4 (v4_from_octets (sin_addr a))) \<and> to_be 2 (unat port) = sin_port a
    \<and> encode_socks_addr host port = [1] @ sin_addr a @ sin_port a
    \<and> (case connect host port of
         Inl e \<Rightarrow> stats1 = stats \<and> c = client
       | Inr rhs \<Rightarrow> c = snd (copy client rhs)
           \<and> stats1 = (case fst (copy client rhs) of Inl e \<Rightarrow> stats | Inr (up, down) \<Rightarrow> record_relay stats up down))"
proof -
  let ?d = "from_sockaddr_in a"
  let ?host = "show_ip (sock_ip ?d)" and ?port = "sock_port ?d"
  have d: "original_dst (Some (SaIn a)) opt6 peer = Inr ?d" by (simp add: original_dst_def original_dst_v4_def)
  have "parse_ip ?host = Some (IpV4 (v4_from_octets (sin_addr a)))" "to_be 2 (unat ?port) = sin_port a"
    using assms(2) by (simp_all add: from_sockaddr_in_def to_be_word_of_be)
  moreover have "targets = [(?host, ?port)] \<and> r = Inr () \<and>
    (case connect ?host ?port of
         Inl e \<Rightarrow> stats1 = stats \<and> c = client
       | Inr rhs \<Rightarrow> c = snd (copy client rhs)
           \<and> stats1 = (case fst (copy client rhs) of Inl e \<Rightarrow> stats | Inr (up, down) \<Rightarrow> record_relay stats up down))"
    using assms(3) by (auto simp: handle_intercepted_def d Let_def split: sum.splits prod.splits)
  ultimately show ?thesis using header_of_sockaddr [OF assms(1,2)] by (intro exI [of _ ?host] exI [of _ ?port]) simp
qed

theorem intercepted_reaches_destination_witness:
  "\<exists>host port. encode_socks_addr host port = [1, 93, 184, 216, 34, 1, 187] \<and> parse_ip host = Some (IpV4 (v4_from_octets [93, 184, 216, 34]))"
proof -
  let ?a = "\<lparr> sin_port = [1, 187], sin_addr = [93, 184, 216, 34] \<rparr>"
  let ?st = "\<lparr> accepted = 0, active = 0, bytes_up = 0, bytes_down = 0 \<rparr>"
  obtain r c st ts where h: "handle_intercepted (\<lambda>_ _. Inr ()) (\<lambda>c _. (Inr (1, 2), c)) (original_dst (Some (SaIn ?a)) None (Inl OtherIo)) ?st
      (stream_of []) = (r, c, st, ts)"
    by (metis prod.exhaust)
  show ?thesis using intercepted_reaches_destination [OF _ _ h] by auto
qed

subsection \<open>The reused DNS stream\<close>

lemma exchange_over_tcp_Inr:
  assumes "exchange_over_tcp q s = (Inr r, t)"
  shows "message_ok q \<and> message_ok r \<and> rx s = tcp_message r @ rx t \<and> tx t = tx s @ tcp_message q"
proof -
  have q: "message_ok q" and run: "io_bind (write_all DIo (to_be 2 (length q))) (\<lambda>_. io_bind (write_all DIo q) (\<lambda>_. read_message)) s = (Inr r, t)"
    using assms by (auto simp: exchange_over_tcp_def message_ok_def io_fail_def split: if_splits)
  obtain s1 s2 where w: "write_all DIo (to_be 2 (length q)) s = (Inr (), s1)" "write_all DIo q s1 = (Inr (), s2)" and m: "read_message s2 = (Inr r, t)"
    using run by (auto simp: io_bind_Inr)
  have s2: "rx s2 = rx s" "tx s2 = tx s @ tcp_message q"
    using w by (auto simp: write_all_def tcp_message_def split: option.splits if_splits)
  let ?h = "take 2 (rx s2)" and ?s3 = "s2\<lparr>rx := drop 2 (rx s2)\<rparr>"
  have len: "2 \<le> length (rx s2)" and n: "of_be ?h \<noteq> 0" "of_be ?h \<le> 65535" and rd: "read_exact DIo (of_be ?h) ?s3 = (Inr r, t)"
    using m by (auto simp: read_message_def io_bind_Inr read_exact_Inr Let_def io_fail_def split: if_splits)
  then have r: "length r = of_be ?h" "drop 2 (rx s2) = r @ rx t" "tx t = tx s2"
    using append_take_drop_id [of "of_be ?h" "drop 2 (rx s2)"] by (auto simp: read_exact_Inr)
  have "to_be 2 (length r) = ?h" unfolding r(1) using len by (intro to_be_of_be) simp
  then have "rx s2 = tcp_message r @ rx t" using r(2) by (metis append_take_drop_id append_assoc tcp_message_def)
  moreover have "message_ok r" using r(1) n by (auto simp: message_ok_def)
  ultimately show ?thesis using q s2 r(3) by simp
qed

text \<open>
  The pool under concurrent queries: a task either uses the stream while it holds the lock, or opens one of its own and later puts it
  into the pool. \<open>po_origin\<close> is the stream as it was opened, \<open>po_done\<close> the exchanges made on it.
\<close>

record pool_run =
  po_pool :: dns_pool
  po_origin :: bstream
  po_done :: "(bytes \<times> bytes) list"

inductive dns_pool_step :: "(string \<Rightarrow> bstream \<Rightarrow> bool) \<Rightarrow> pool_run \<Rightarrow> pool_run \<Rightarrow> bool" for opened where
  reuse_hit: "pool_reuse q host (po_pool s) = (Some r, pool) \<Longrightarrow>
    dns_pool_step opened s (s\<lparr>po_pool := pool, po_done := po_done s @ [(q, r)]\<rparr>)"
| reuse_miss: "pool_reuse q host (po_pool s) = (None, pool) \<Longrightarrow> dns_pool_step opened s (s\<lparr>po_pool := pool\<rparr>)"
| put_stream: "opened host s0 \<Longrightarrow> exchange_over_tcp q s0 = (Inr r, s1) \<Longrightarrow>
    dns_pool_step opened s \<lparr> po_pool = Some (host, s1), po_origin = s0, po_done = [(q, r)] \<rparr>"

definition dns_pool_inv :: "(string \<Rightarrow> bstream \<Rightarrow> bool) \<Rightarrow> pool_run \<Rightarrow> bool" where
  "dns_pool_inv opened s \<longleftrightarrow>
     (\<forall>host stream. po_pool s = Some (host, stream) \<longrightarrow>
        opened host (po_origin s) \<and> list_all (\<lambda>(q, r). message_ok q \<and> message_ok r) (po_done s)
      \<and> rx (po_origin s) = concat (map (tcp_message \<circ> snd) (po_done s)) @ rx stream
      \<and> tx stream = tx (po_origin s) @ concat (map (tcp_message \<circ> fst) (po_done s)))"

lemma pool_reuse_Some:
  assumes "pool_reuse q host pool = (Some r, pool1)"
  obtains s t where "pool = Some (host, s)" "pool1 = Some (host, t)" "exchange_over_tcp q s = (Inr r, t)"
  using assms by (auto simp: pool_reuse_def split: option.splits if_splits prod.splits sum.splits)

lemma pool_reuse_None: "pool_reuse q host pool = (None, pool1) \<Longrightarrow> pool1 = None"
  by (auto simp: pool_reuse_def split: option.splits if_splits prod.splits sum.splits)

lemma dns_pool_step_inv: "dns_pool_step opened s t \<Longrightarrow> dns_pool_inv opened s \<Longrightarrow> dns_pool_inv opened t"
proof (induction rule: dns_pool_step.induct)
  case (reuse_hit q host s r pool)
  then show ?case
    by (elim pool_reuse_Some) (auto simp: dns_pool_inv_def dest: exchange_over_tcp_Inr)
next
  case (reuse_miss q host s pool)
  then show ?case by (auto simp: dns_pool_inv_def dest: pool_reuse_None)
next
  case (put_stream host s0 q r s1 s)
  then show ?case using exchange_over_tcp_Inr [OF put_stream(2)] by (simp add: dns_pool_inv_def)
qed

definition dns_pool_init :: "pool_run \<Rightarrow> bool" where
  "dns_pool_init s \<longleftrightarrow> po_pool s = None"

interpretation dns_pool: inductive_invariant dns_pool_init "dns_pool_step opened" "dns_pool_inv opened" for opened
  by unfold_locales (simp add: dns_pool_init_def dns_pool_inv_def, rule dns_pool_step_inv)

text \<open>
  C7. However concurrent queries interleave on the pool, the reused stream never gets out of step. When a query is answered from it, the
  stream was opened to the very server asked for; the answer is the first message on it behind the answers of the earlier queries, so
  from a server that answers in order it is the answer of this query; and what the server has received is exactly those queries and this
  one, each of which it can recover. A stream on which an exchange failed is never used again.
\<close>

theorem dns_pool_in_step:
  assumes "reachable dns_pool_init (dns_pool_step opened) s" and "pool_reuse q host (po_pool s) = (result, pool)"
  shows "case result of
      None \<Rightarrow> pool = None
    | Some r \<Rightarrow> \<exists>stream rest. pool = Some (host, stream) \<and> opened host (po_origin s)
        \<and> rx (po_origin s) = concat (map (tcp_message \<circ> snd) (po_done s)) @ tcp_message r @ rest
        \<and> (\<exists>sent. tx stream = tx (po_origin s) @ sent
            \<and> unframe_n unframe_message (Suc (length (po_done s))) sent = Some (map fst (po_done s) @ [q], []))"
proof (cases result)
  case (Some r)
  have inv: "dns_pool_inv opened s" using dns_pool.reachable_inv [OF assms(1)] .
  obtain u v where e: "po_pool s = Some (host, u)" "pool = Some (host, v)" "exchange_over_tcp q u = (Inr r, v)"
    using pool_reuse_Some assms(2) Some by blast
  note x = exchange_over_tcp_Inr [OF e(3)]
  let ?qs = "map fst (po_done s) @ [q]"
  have ok: "list_all message_ok ?qs" using inv e(1) x by (auto simp: dns_pool_inv_def list_all_iff)
  have "unframe_n unframe_message (length ?qs) (concat (map tcp_message ?qs) @ []) = Some (?qs, [])" by (rule dns_frames.unframe_frames [OF ok])
  moreover have "tx v = tx (po_origin s) @ concat (map tcp_message ?qs)" using inv e(1) x by (simp add: dns_pool_inv_def)
  moreover have "rx (po_origin s) = concat (map (tcp_message \<circ> snd) (po_done s)) @ tcp_message r @ rx v" "opened host (po_origin s)"
    using inv e(1) x by (simp_all add: dns_pool_inv_def)
  ultimately show ?thesis using Some e(2) by auto
qed (use pool_reuse_None assms(2) in auto)

theorem dns_pool_in_step_witness:
  "fst (pool_reuse [2] ''1.1.1.1'' (Some (''1.1.1.1'', (stream_of (tcp_message [8]))\<lparr>tx := tcp_message [1]\<rparr>))) = Some [8]
   \<and> unframe_n unframe_message 2 (tcp_message [1] @ tcp_message [2]) = Some ([[1], [2]], [])"
proof -
  let ?org = "stream_of (tcp_message [7] @ tcp_message [8])"
  let ?cur = "(stream_of (tcp_message [8]))\<lparr>tx := tcp_message [1]\<rparr>"
  let ?opened = "\<lambda>host s. host = ''1.1.1.1'' \<and> s = ?org"
  let ?i = "\<lparr> po_pool = None, po_origin = ?org, po_done = [] \<rparr>"
  let ?fin = "\<lparr> po_pool = Some (''1.1.1.1'', ?cur), po_origin = ?org, po_done = [([1], [7])] \<rparr>"
  have x: "exchange_over_tcp [1] ?org = (Inr [7], ?cur)"
    using exchange_over_tcp_ok [of "[1]" "[7]" ?org "tcp_message [8]"] by (simp add: message_ok_def stream_of_def)
  have "reachable dns_pool_init (dns_pool_step ?opened) ?i" by (rule reach_init) (simp add: dns_pool_init_def)
  moreover have "dns_pool_step ?opened ?i ?fin" using x by (intro put_stream) simp_all
  ultimately have r: "reachable dns_pool_init (dns_pool_step ?opened) ?fin" by (rule reach_step)
  have y: "exchange_over_tcp [2] ?cur = (Inr [8], ?cur\<lparr>rx := [], tx := tcp_message [1] @ tcp_message [2]\<rparr>)"
    using exchange_over_tcp_ok [of "[2]" "[8]" ?cur "[]"] by (simp add: message_ok_def stream_of_def)
  then have p: "pool_reuse [2] ''1.1.1.1'' (po_pool ?fin) = (Some [8], Some (''1.1.1.1'', ?cur\<lparr>rx := [], tx := tcp_message [1] @ tcp_message [2]\<rparr>))"
    by (simp add: pool_reuse_def)
  from dns_pool_in_step [OF r p] p show ?thesis by (simp add: stream_of_def numeral_2_eq_2)
qed

subsection \<open>Where a DNS query goes\<close>

text \<open>An attempt that only dials the servers of a set, on port 53, and answers with a message that is not empty.\<close>

definition confined :: "string set \<Rightarrow> 'w intercept \<Rightarrow> bytes option \<times> 'w intercept \<Rightarrow> bool" where
  "confined hosts s = (\<lambda>(r, s1). (\<exists>ds. tp_dials s1 = tp_dials s @ ds \<and> set ds \<subseteq> hosts \<times> {53}) \<and> r \<noteq> Some [])"

lemma confined_refl: "confined hosts s (None, s)"
  by (simp add: confined_def)

lemma confined_trans: "confined hosts s (None, s1) \<Longrightarrow> confined hosts s1 x \<Longrightarrow> confined hosts s x"
  by (auto simp: confined_def)

lemma first_answer_confined:
  assumes "\<And>host t. host \<in> set hosts \<Longrightarrow> confined H t (ask host t)"
  shows "confined H s (first_answer ask hosts s)"
  using assms
proof (induction hosts arbitrary: s)
  case (Cons host hosts)
  have c: "confined H s (ask host s)" by (rule Cons.prems) simp
  show ?case
  proof (cases "ask host s")
    case (Pair r s1)
    then show ?thesis using c Cons confined_trans [of H s s1] by (cases r) auto
  qed
qed (simp add: confined_refl)

lemma message_not_empty: "exchange_over_tcp q s = (Inr r, t) \<Longrightarrow> r \<noteq> []"
  using exchange_over_tcp_Inr by (auto simp: message_ok_def)

lemma pool_exchange_confined: "host \<in> H \<Longrightarrow> confined H s (pool_exchange dial' q host s)"
proof (cases "pool_reuse q host (tp_pool s)")
  case (Pair r pool)
  assume "host \<in> H"
  then show ?thesis
  proof (cases r)
    case None
    then show ?thesis using Pair \<open>host \<in> H\<close> message_not_empty
      by (auto simp: pool_exchange_def confined_def upstream_dial_def split: prod.splits sum.splits)
  next
    case (Some resp)
    then have "resp \<noteq> []" using Pair by (auto elim!: pool_reuse_Some dest: message_not_empty)
    then show ?thesis using Some Pair by (simp add: pool_exchange_def confined_def)
  qed
qed

lemma query_dns_dials: "query_dns others dest q s = (r, s1) \<Longrightarrow> tp_dials s1 = tp_dials s \<and> tp_pool s1 = tp_pool s \<and> tp_net s1 = tp_net s"
  by (auto simp: query_dns_def split: prod.splits sum.splits)

lemma ask_udpgw_confined: "confined {} s (ask_udpgw others q host s)"
  by (auto simp: ask_udpgw_def confined_def split: option.splits prod.splits sum.splits dest: query_dns_dials)

lemma confined_mono: "confined H s x \<Longrightarrow> H \<subseteq> K \<Longrightarrow> confined K s x"
  by (cases x) (fastforce simp: confined_def)

text \<open>
  C6. An intercepted DNS query stays in the tunnel. The only connections made for it go through the upstream, to the servers of the
  profile (or the two default ones if it names none), on port 53; with DNS over TCP off there are none. Without UDPGW the UDPGW client is
  not touched, and with neither path the query is dropped. An answer is never empty.
\<close>

theorem dns_query_confined:
  assumes "resolve_dns_query dial' gw mode servers query s = (r, s1)"
  shows "(\<exists>ds. tp_dials s1 = tp_dials s @ ds \<and> set ds \<subseteq> set (if servers = [] then default_dns_servers else servers) \<times> {53}
      \<and> (mode = TcpOff \<longrightarrow> ds = [])) \<and> (gw = None \<longrightarrow> tp_gw s1 = tp_gw s) \<and> (gw = None \<and> mode = TcpOff \<longrightarrow> r = None \<and> s1 = s) \<and> r \<noteq> Some []"
proof -
  let ?H = "set (servers_or_default servers)"
  have tcp: "confined ?H t (dns_over_tcp_query dial' query servers t)" for t
    unfolding dns_over_tcp_query_def by (rule first_answer_confined) (rule pool_exchange_confined)
  have gwc: "confined {} t (first_answer (ask_udpgw others query) hosts t)" for others hosts t
    by (rule first_answer_confined) (rule ask_udpgw_confined)
  have keep: "tp_gw (snd (first_answer (pool_exchange dial' query) hosts t)) = tp_gw t" for hosts and t :: "'a intercept"
    by (induction hosts arbitrary: t) (auto simp: pool_exchange_def upstream_dial_def split: prod.splits option.splits sum.splits)
  have "confined (if mode = TcpOff then {} else ?H) s (r, s1)"
  proof (cases gw)
    case (Some others)
    obtain g t where g: "first_answer (ask_udpgw others query) (servers_or_default servers) s = (g, t)" by fastforce
    then have c: "confined {} s (g, t)" using gwc by metis
    show ?thesis
    proof (cases g)
      case None
      then show ?thesis using assms g c Some tcp [of t] confined_trans [OF confined_mono [of "{}" s "(None, t)" ?H]]
        by (auto simp: resolve_dns_query_def split: if_splits)
    next
      case (Some resp)
      then show ?thesis using assms g confined_mono [OF c, of "if mode = TcpOff then {} else ?H"] \<open>gw = Some others\<close>
        by (simp add: resolve_dns_query_def)
    qed
  qed (use assms tcp [of s] in \<open>auto simp: resolve_dns_query_def confined_refl split: if_splits\<close>)
  moreover have "gw = None \<longrightarrow> tp_gw s1 = tp_gw s"
    using assms keep [of "servers_or_default servers" s] by (auto simp: resolve_dns_query_def dns_over_tcp_query_def split: if_splits)
  moreover have "gw = None \<and> mode = TcpOff \<longrightarrow> r = None \<and> s1 = s" using assms by (auto simp: resolve_dns_query_def)
  ultimately show ?thesis by (auto simp: confined_def servers_or_default_def split: if_splits)
qed

definition example_intercept :: "unit intercept" where
  "example_intercept = \<lparr> tp_net = (), tp_pool = None, tp_gw = run_udpgw (stream_of []), tp_call = 0, tp_dials = [] \<rparr>"

text \<open>Only the second server can be reached; it answers with one message.\<close>

definition example_dns_dial :: "unit dialer" where
  "example_dns_dial host port w = (if host = ''8.8.8.8'' then Inr (stream_of (tcp_message [9, 9])) else Inl Stopped, w)"

theorem dns_query_confined_witness:
  "fst (resolve_dns_query example_dns_dial None TcpAuto [] [1, 2] example_intercept) = Some [9, 9]
   \<and> set (tp_dials (snd (resolve_dns_query example_dns_dial None TcpAuto [] [1, 2] example_intercept))) \<subseteq> {(''1.1.1.1'', 53), (''8.8.8.8'', 53)}"
proof -
  obtain r s1 where run: "resolve_dns_query example_dns_dial None TcpAuto [] [1, 2] example_intercept = (r, s1)" by fastforce
  have "exchange_over_tcp [1, 2] (stream_of (tcp_message [9, 9])) = (Inr [9, 9], (stream_of [])\<lparr>tx := tcp_message [1, 2]\<rparr>)"
    using exchange_over_tcp_ok [of "[1, 2]" "[9, 9]" "stream_of (tcp_message [9, 9])" "[]"] by (simp add: message_ok_def stream_of_def)
  then have "r = Some [9, 9]" using run
    by (simp add: resolve_dns_query_def dns_over_tcp_query_def servers_or_default_def default_dns_servers_def pool_exchange_def pool_reuse_def
        upstream_dial_def example_dns_dial_def example_intercept_def)
  then show ?thesis using dns_query_confined [OF run] run by (auto simp: default_dns_servers_def example_intercept_def)
qed

definition answers_dns :: "'w dialer \<Rightarrow> string \<Rightarrow> bool" where
  "answers_dns dial' host \<longleftrightarrow>
     (\<forall>w. \<exists>stream a rest w1. dial' host 53 w = (Inr stream, w1) \<and> tx_cap stream = None \<and> message_ok a \<and> rx stream = tcp_message a @ rest)"

lemma pool_exchange_answers:
  assumes "message_ok q" and "answers_dns dial' host"
  shows "fst (pool_exchange dial' q host s) \<noteq> None"
proof -
  obtain r pool where p: "pool_reuse q host (tp_pool s) = (r, pool)" by fastforce
  obtain stream a rest w1 where d: "dial' host 53 (tp_net s) = (Inr stream, w1)" "tx_cap stream = None" "message_ok a" "rx stream = tcp_message a @ rest"
    using assms(2) unfolding answers_dns_def by blast
  show ?thesis using p d(1) exchange_over_tcp_ok [OF assms(1) d(3,4,2)]
    by (cases r) (simp_all add: pool_exchange_def upstream_dial_def)
qed

lemma first_answer_found:
  assumes "host \<in> set hosts" and "\<And>t. fst (ask host t) \<noteq> None"
  shows "fst (first_answer ask hosts s) \<noteq> None"
  using assms(1)
proof (induction hosts arbitrary: s)
  case (Cons h hosts)
  obtain r t where a: "ask h s = (r, t)" by fastforce
  then show ?case using Cons assms(2) [of s] by (cases r) auto
qed simp



subsection \<open>UDP\<close>

text \<open>Without a control message the source stands in for the destination, so the datagram is sent back to its own sender through the tunnel.\<close>

lemma udp_without_origdst: "recv_udp_origdst (Inr (payload, SaIn a, [])) = Inr (payload, from_sockaddr_in a, from_sockaddr_in a)"
  by (simp add: recv_udp_origdst_def sockaddr_storage_def unwrap_or_def)

end
