(* ===== verification/Diagnostics.thy ===== *)
theory Diagnostics
  imports Manager
begin

text \<open>
  The diagnostics of a live session (\<^verbatim>\<open>crates/diagnostics/src/lib.rs\<close>): the leak report with its notes, and the probes. The programs that
  they run, the file system and the clock are arguments.
\<close>

record leak_report =
  lr_tun_present :: bool
  lr_nft_table_present :: bool
  lr_resolved_link_dns :: "string list"
  lr_using_tunnel_dns :: bool
  lr_ipv6_enabled_on_tun :: bool
  lr_ipv6_global_addrs :: "string list"
  lr_udp_redirected :: bool
  lr_notes :: "string list"

record probe_result =
  pb_ok :: bool
  pb_kind :: string
  pb_target :: string
  pb_latency_ms :: "u64 option"
  pb_output :: string
  pb_note :: "string option"

text \<open>Running a program to its end.\<close>

type_synonym command = "string \<Rightarrow> string list \<Rightarrow> string + proc_output"

definition nft_has_udp_redirect :: "command \<Rightarrow> bool" where
  "nft_has_udp_redirect run =
     (case run ''nft'' [''list'', ''table'', ''inet'', NFT_TABLE] of
        Inl e \<Rightarrow> False
      | Inr o' \<Rightarrow> out_success o' \<and> str_contains '':13451'' (from_utf8_lossy (out_stdout o')))"

definition nft_table_exists :: "command \<Rightarrow> bool" where
  "nft_table_exists run = (case run ''nft'' [''list'', ''table'', ''inet'', NFT_TABLE] of Inl e \<Rightarrow> False | Inr o' \<Rightarrow> out_success o')"

definition resolvectl_dns :: "command \<Rightarrow> string \<Rightarrow> string list" where
  "resolvectl_dns run link =
     (case run ''resolvectl'' [''dns'', link] of
        Inl e \<Rightarrow> []
      | Inr o' \<Rightarrow>
          if \<not> out_success o' then []
          else filter (\<lambda>t. parse_ip t \<noteq> None) (split_whitespace (from_utf8_lossy (out_stdout o'))))"

definition tun_has_ula :: "command \<Rightarrow> string \<Rightarrow> bool" where
  "tun_has_ula run link =
     (case run ''ip'' [''-6'', ''-o'', ''addr'', ''show'', ''dev'', link] of
        Inl e \<Rightarrow> False
      | Inr o' \<Rightarrow> str_contains ''fd72:6f63:6b65'' (from_utf8_lossy (out_stdout o')))"

definition third_word :: "string \<Rightarrow> string option" where
  "third_word line = (case split_whitespace line of _ # _ # w # _ \<Rightarrow> Some w | _ \<Rightarrow> None)"

definition global_ipv6_addrs :: "command \<Rightarrow> string list" where
  "global_ipv6_addrs run =
     (case run ''ip'' [''-6'', ''-o'', ''addr'', ''show'', ''scope'', ''global''] of
        Inl e \<Rightarrow> []
      | Inr o' \<Rightarrow> List.map_filter third_word (str_lines (from_utf8_lossy (out_stdout o'))))"

text \<open>The notes, given what the checks found.\<close>

definition leak_notes :: "bool \<Rightarrow> bool \<Rightarrow> bool \<Rightarrow> string list \<Rightarrow> bool \<Rightarrow> bool \<Rightarrow> bool \<Rightarrow> string list" where
  "leak_notes tun nft dns globals ula udp ipv6_expected =
     (let notes =
        (if \<not> tun then [''No '' @ TUN_NAME @ '' '' @ EM_DASH @ '' connect a full-tunnel profile first.''] else [])
      @ (if tun \<and> \<not> dns
         then [''systemd-resolved has no DNS on '' @ TUN_NAME @ '' '' @ EM_DASH @ '' queries may use the LAN resolver.''] else [])
      @ (if dns then [''Link DNS is set on '' @ TUN_NAME @ ''; UDP/53 is intercepted (DNS-over-TCP and/or UDPGW).''] else [])
      @ (if tun \<and> udp
         then [''General UDP is redirected to the UDPGW intercept. Compatibility depends on the remote badvpn-udpgw.'']
         else if tun then [''General UDP is rejected (no UDPGW intercept). Apps should fall back to TCP.''] else [])
      @ (if \<not> ipv6_expected \<and> globals \<noteq> []
         then [''This profile has IPv6 off. Public IPv6 should be rejected by nftables so apps fall back to IPv4.''] else [])
      @ (if ipv6_expected \<and> tun \<and> \<not> ula then [''IPv6 is enabled on the profile but the TUN has no ULA address.''] else [])
      @ (if \<not> nft \<and> tun then [''TUN is up but table inet '' @ NFT_TABLE @ '' is missing.''] else []) in
      notes @ (if tun \<and> notes = [] then [''No obvious DNS/IPv6 leak from local checks.''] else []))"

definition leak_report_of :: "command \<Rightarrow> (string \<Rightarrow> bool) \<Rightarrow> bool \<Rightarrow> leak_report" where
  "leak_report_of run exists' ipv6_expected =
     (let tun = exists' (''/sys/class/net/'' @ TUN_NAME); nft = nft_table_exists run; link_dns = resolvectl_dns run TUN_NAME;
          dns = (link_dns \<noteq> []); ula = tun_has_ula run TUN_NAME; globals = global_ipv6_addrs run; udp = nft_has_udp_redirect run in
      \<lparr> lr_tun_present = tun, lr_nft_table_present = nft, lr_resolved_link_dns = link_dns, lr_using_tunnel_dns = dns,
        lr_ipv6_enabled_on_tun = ula, lr_ipv6_global_addrs = globals, lr_udp_redirected = udp,
        lr_notes = leak_notes tun nft dns globals ula udp ipv6_expected \<rparr>)"

text \<open>The outcome of a timed connect (\<open>None\<close> for the timeout) and the elapsed time.\<close>

definition tcp_connect_probe :: "(string + unit) option \<Rightarrow> u64 \<Rightarrow> string \<Rightarrow> u16 \<Rightarrow> probe_result" where
  "tcp_connect_probe outcome elapsed host port =
     \<lparr> pb_ok = (outcome = Some (Inr ())), pb_kind = ''tcp'', pb_target = host @ '':'' @ show_nat (unat port),
       pb_latency_ms = (if outcome = None then None else Some elapsed),
       pb_output = (case outcome of None \<Rightarrow> ''timed out'' | Some (Inl e) \<Rightarrow> e | Some (Inr _) \<Rightarrow> ''connected''),
       pb_note = Some ''ICMP ping is not carried on the TCP intercept path. This is a TCP connect timing probe.'' \<rparr>"

definition traceroute_bin :: "(string \<Rightarrow> bool) \<Rightarrow> string" where
  "traceroute_bin which' = unwrap_or (find which' [''traceroute'', ''tracepath'']) ''traceroute''"

definition traceroute_args :: "string \<Rightarrow> string \<Rightarrow> string list" where
  "traceroute_args bin host =
     (if bin = ''traceroute'' then [''-n'', ''-T'', ''-w'', ''1'', ''-q'', ''1'', ''-m'', ''12'', host] else [''-n'', host])"

definition traceroute_tcp :: "(string \<Rightarrow> bool) \<Rightarrow> (string \<Rightarrow> string list \<Rightarrow> (string + proc_output) option) \<Rightarrow> string \<Rightarrow> probe_result" where
  "traceroute_tcp which' run host =
     (let bin = traceroute_bin which';
          result = (\<lambda>ok output. \<lparr> pb_ok = ok, pb_kind = ''traceroute'', pb_target = host, pb_latency_ms = None, pb_output = output,
            pb_note = Some ''Uses traceroute -T (TCP SYN) when installed. ICMP traceroute usually fails on this path.'' \<rparr>) in
      case run bin (traceroute_args bin host) of
        None \<Rightarrow> result False ''timed out''
      | Some (Inl e) \<Rightarrow> result False (''failed to spawn '' @ bin @ '': '' @ e)
      | Some (Inr out) \<Rightarrow>
          let stdout = trim (from_utf8_lossy (out_stdout out)); stderr = trim (from_utf8_lossy (out_stderr out));
              output = (if stdout = [] then stderr else stdout) in
          result (out_success out \<or> output \<noteq> [])
            (if output = [] then bin @ '' produced no output (install traceroute?)'' else output))"

subsection \<open>What the report cannot say\<close>

text \<open>While the device is up there is always a note about UDP, so the note that nothing leaks is never given.\<close>

lemma leak_notes_never_clean:
  "set (leak_notes tun nft dns globals ula udp ipv6) \<inter> {''No obvious DNS/IPv6 leak from local checks.''} = {}"
  by (simp add: leak_notes_def Let_def TUN_NAME_def NFT_TABLE_def)

text \<open>The addresses in the report are the word \<^verbatim>\<open>inet6\<close>: the address is the fourth word of a line of \<^verbatim>\<open>ip -o addr\<close>.\<close>

lemma third_word_is_family: "third_word ''2: eth0 inet6 2001:db8::1/64 scope global'' = Some ''inet6''"
  by code_simp

text \<open>A probe of a program that ran and failed is reported as good as soon as it printed anything.\<close>

lemma traceroute_failure_ok:
  assumes "run (traceroute_bin which') (traceroute_args (traceroute_bin which') host) = Some (Inr \<lparr> out_success = False, out_stdout = [], out_stderr = err \<rparr>)"
    and "trim (from_utf8_lossy err) \<noteq> []"
  shows "pb_ok (traceroute_tcp which' run host)"
proof -
  have "trim (from_utf8_lossy []) = []" by code_simp
  then show ?thesis using assms by (simp add: traceroute_tcp_def Let_def)
qed

end
