(* ===== verification/Spec2Isabelle.thy ===== *)
theory Spec2Isabelle
  imports Proxy_Server App Vless_Engine Lifecycle Transproxy Diagnostics
begin

text \<open>
  A verification library for EasyConnection, a Linux client that tunnels traffic over SSH, Shadowsocks or VLESS.

  \<^bold>\<open>The program.\<close> The application controller (\<^verbatim>\<open>crates/core\<close>) keeps profiles in a database (\<^verbatim>\<open>crates/config\<close>) and secrets in an encrypted
  vault (\<^verbatim>\<open>crates/secrets\<close>), imports profiles from links and hands one profile at a time to the connection manager
  (\<^verbatim>\<open>crates/tunnel\<close>). The manager opens the upstream of the profile: an SSH session (\<^verbatim>\<open>crates/ssh\<close>), directly, over TLS or a WebSocket
  (\<^verbatim>\<open>crates/tls\<close>, \<^verbatim>\<open>crates/websocket\<close>) or through a Smart Config zone; a Shadowsocks connector (\<^verbatim>\<open>crates/shadowsocks\<close>); or a VLESS engine in
  a child process (\<^verbatim>\<open>crates/vless\<close>). On top of it run the local SOCKS and HTTP proxies (\<^verbatim>\<open>crates/socks\<close>). In full-tunnel mode a
  privileged helper (\<^verbatim>\<open>services/privileged-helper\<close>, reached through \<^verbatim>\<open>crates/tun\<close>) creates a TUN device, installs a firewall table
  (\<^verbatim>\<open>crates/nftables\<close>) and configures the resolver, and the manager starts the transparent proxies (\<^verbatim>\<open>transproxy.rs\<close>) which feed intercepted
  TCP, DNS (\<^verbatim>\<open>crates/dns\<close>) and UDP (\<^verbatim>\<open>crates/udpgw\<close>) into the upstream.

  \<^bold>\<open>Conventions.\<close> A byte is an \<open>8 word\<close>, machine integers keep their width, a Rust \<^verbatim>\<open>str\<close> is the list of its UTF-8 bytes as characters,
  a \<^verbatim>\<open>Result\<close> is a sum with the error on the left. A handler on a connection is a state transformer over \<open>bstream\<close>, everything the peer
  will still send and everything written so far; code that calls the system is a transformer of an abstract machine. Code outside the
  repository (ciphers and digests, JSON, SQLite, russh, OpenSSL, the kernel, child processes) is a field of an environment record, and what a
  property needs of it is a named hypothesis with a witness on a concrete environment. Concurrency is an interleaving of atomic steps,
  proved about with the locale \<open>inductive_invariant\<close>.

  \<^bold>\<open>Shared theories.\<close>
  \<^item> \<open>Prelude\<close>: results, endianness, association tables, the locales \<open>kv_store\<close>, \<open>framing\<close>, \<open>inductive_invariant\<close>.
  \<^item> \<open>Rust_Str\<close>, \<open>Rust_Net\<close>, \<open>Byte_Stream\<close>, \<open>Http_Head\<close>, \<open>Os\<close>: what the sources use of the standard library (UTF-8, trimming, numbers, IP
    addresses and their texts), byte streams, HTTP heads and system calls.

  \<^bold>\<open>Components.\<close> Each theory names its sources at its top.
  \<^item> \<open>Udpgw\<close>: packet format, client state and reader; replies reach the flow they belong to until the identifier wraps.
  \<^item> \<open>Dns\<close>: policy, message cache with its clock, DNS over TCP; a cache hit is the latest fresh answer to the same question.
  \<^item> \<open>Websocket\<close>: handshake, frames and pump; the stream is faithful across pings, splits and interleavings.
  \<^item> \<open>Socks\<close>, \<open>Proxy_Server\<close>: SOCKS5, SOCKS4, HTTP CONNECT and the server; required credentials, exact targets, bounded sessions.
  \<^item> \<open>Shadowsocks\<close>, \<open>Ss_Connector\<close>: key schedule, chunks, pump and connector; a stream reaches the address asked for.
  \<^item> \<open>Vless\<close>, \<open>Vless_Config\<close>, \<open>Vless_Engine\<close>: both configuration builders agree, engines leave no files or processes, the SOCKS dialogue.
  \<^item> \<open>Config_Model\<close>, \<open>Config_Validate\<close>, \<open>Config_Import\<close>, \<open>Smart_Link\<close>, \<open>Config_Db\<close>: profiles, validation, import and export, packed
    links with their limits, the database rows.
  \<^item> \<open>Secrets\<close>: the vault file refines a map from references to secrets, also across failed writes.
  \<^item> \<open>App\<close>: the controller; stored profiles stay valid and keep DNS inside a tunnel, duplicated profiles are independent.
  \<^item> \<open>Transport\<close>, \<open>Idle_Pool\<close>: dialling as the profile says, the pool of idle streams.
  \<^item> \<open>Zones\<close>, \<open>Ssh\<close>, \<open>Smart_Ssh\<close>: zone requests and chunked responses, host key policies and authentication, the shim of Smart Config.
  \<^item> \<open>Nftables\<close>, \<open>Routing\<close>, \<open>Tun_Ipc\<close>, \<open>Helper\<close>: the firewall text and its meaning on packets, route journals, the helper protocol, and
    the helper with any number of interleaved clients.
  \<^item> \<open>Tunnel\<close>: upstreams of every protocol and the request to the helper; from the profile to the fate of every packet.
  \<^item> \<open>Manager\<close>, \<open>Lifecycle\<close>: connecting, disconnecting and statistics over the resources of the process (tasks with their tokens and
    sockets, SSH sessions, engines, helper connections); the manager owns everything it acquired and a failure leaves nothing.
  \<^item> \<open>Transproxy\<close>: the intercepts; targets are exact, DNS stays in the tunnel, the reused DNS stream never gets out of step.
  \<^item> \<open>Diagnostics\<close>: the leak report and the probes.

  \<^bold>\<open>Bounds.\<close> Recursions follow their input or have a measure. Where a loop of the source may run forever the result is an option or an
  outcome: the key derivation of Shadowsocks (\<open>None\<close> only for a digest of length zero, excluded by \<open>crypto_ok\<close>), a helper that never answers
  (\<open>THangs\<close>), and the sending of a frame to a kernel that takes nothing. Polling loops carry the number of polls of the source.

  \<^bold>\<open>Modelling decisions.\<close> Tasks are resources which live until their token is cancelled; a loop that ends early because its socket failed is
  not removed. Stopping the proxies is taken to end their loops, although a notification that arrives while a loop handles a connection is
  missed. Concurrent calls of \<open>connect\<close> are not interleaved: the check for an active session and its installation are two critical
  sections, and two overlapping calls can both pass the check. The statistics task is one step in the invariant of the manager;
  \<open>stats_overwrite_disconnect\<close> shows what its two halves allow. Rates are floating point and stand as a function. Log output is left out.

  \<^bold>\<open>Not modelled.\<close> The desktop commands and the command line copy arguments into profiles and call the controller; the front end renders
  snapshots. The raw system calls of the TUN device and of descriptor passing, socket options, file modes, signals and argument parsing of the
  helper, the choice of configuration directories, and the opening of the SQLite file are the operating system's side of the interface.
  Packaging, scripts, benchmarks and tests are not part of the program's behaviour.
\<close>

end
